(* ===== verification/Prelude.thy ===== *)
theory Prelude
  imports Main "HOL-Library.Word"
begin

text \<open>
  Shared ground of the development: bytes, Go run-time panics as values, slice expressions with
  Go's bounds checks, and the list lemmas on \<^const>\<open>take\<close>, \<^const>\<open>drop\<close> and
  \<^const>\<open>concat\<close> that the codecs, the day files and the protocol share.
\<close>

subsection \<open>Machine types\<close>

text \<open>
  Go's fixed-width integers are words of the same width. A signed \<open>int64\<close> or \<open>int32\<close> is
  the word with its bits; where the code compares or divides it, the model reads it with
  \<^const>\<open>sint\<close>. A \<open>float32\<close> or \<open>float64\<close> is the word of its IEEE 754 bits,
  so \<open>math.Float32bits\<close> and its kin are the identity. Go's \<open>int\<close>, where it is a
  length, a count or an offset into a slice that exists in memory, is a \<^typ>\<open>nat\<close>.
\<close>

type_synonym byte = "8 word"
type_synonym u16 = "16 word"
type_synonym u32 = "32 word"
type_synonym u64 = "64 word"
type_synonym i32 = "32 word"
type_synonym i64 = "64 word"
type_synonym f32 = "32 word"
type_synonym f64 = "64 word"

type_synonym bytes = "byte list"

lemma unat16_less: "unat (x :: u16) < 65536"
  by (rule order.strict_trans2 [OF unsigned_less]) simp

lemma unat32_less: "unat (x :: u32) < 4294967296"
  by (rule order.strict_trans2 [OF unsigned_less]) simp

lemma unat64_less: "unat (x :: u64) < 18446744073709551616"
  by (rule order.strict_trans2 [OF unsigned_less]) simp

lemma sint64_bounds: "- (2 ^ 63) \<le> sint (x :: i64) \<and> sint x < 2 ^ 63"
  using sint_greater_eq [of x] sint_less [of x] by simp

lemma sint64_minus: "- (2 ^ 63) < sint (x :: i64) \<Longrightarrow> sint (- x) = - sint x"
  using sint64_bounds [of x] by (simp add: sint_word_ariths signed_take_bit_int_eq_self)

subsection \<open>Panics\<close>

text \<open>
  A Go statement that would panic yields \<^term>\<open>Inl p\<close>; a statement that completes yields
  \<^term>\<open>Inr v\<close>. Ordinary \<open>error\<close> results are part of \<open>v\<close>.
\<close>

datatype panic = SliceBounds | IndexRange | MakeSlice | ClosedChannel | NilPointer | Explicit string

type_synonym 'a go = "panic + 'a"

definition go_bind :: "'a go \<Rightarrow> ('a \<Rightarrow> 'b go) \<Rightarrow> 'b go" where
  "go_bind m f = (case m of Inl p \<Rightarrow> Inl p | Inr x \<Rightarrow> f x)"

lemma go_bind_simps [simp]:
  "go_bind (Inl p) f = Inl p"
  "go_bind (Inr x) f = f x"
  by (simp_all add: go_bind_def)

lemma go_bind_eq_Inr: "go_bind m f = Inr y \<longleftrightarrow> (\<exists>x. m = Inr x \<and> f x = Inr y)"
  by (cases m) auto

lemma go_bind_assoc: "go_bind (go_bind m f) g = go_bind m (\<lambda>x. go_bind (f x) g)"
  by (cases m) auto

text \<open>A loop over a list whose body may panic.\<close>

fun go_fold :: "('x \<Rightarrow> 's \<Rightarrow> 's go) \<Rightarrow> 'x list \<Rightarrow> 's \<Rightarrow> 's go" where
  "go_fold f [] s = Inr s"
| "go_fold f (x # xs) s = go_bind (f x s) (go_fold f xs)"

lemma go_fold_append: "go_fold f (xs @ ys) s = go_bind (go_fold f xs s) (go_fold f ys)"
  by (induction xs arbitrary: s) (auto simp: go_bind_def split: sum.splits)

lemma go_fold_invariant:
  assumes "go_fold f xs s = Inr t" and "P s"
    and "\<And>x u v. x \<in> set xs \<Longrightarrow> P u \<Longrightarrow> f x u = Inr v \<Longrightarrow> P v"
  shows "P t"
  using assms by (induction xs arbitrary: s) (auto simp: go_bind_eq_Inr)

subsection \<open>Slices\<close>

text \<open>
  The slice expression \<open>data[i:j]\<close> where the code does not know \<open>j \<le> len(data)\<close>: Go checks
  \<open>i \<le> j \<le> cap(data)\<close>. \<open>spare\<close> holds the bytes of the backing array between the length and
  the capacity of \<open>data\<close>.
\<close>

definition go_slice :: "bytes \<Rightarrow> bytes \<Rightarrow> nat \<Rightarrow> nat \<Rightarrow> bytes go" where
  "go_slice data spare i j =
     (if i \<le> j \<and> j \<le> length data + length spare
      then Inr (take (j - i) (drop i (data @ spare)))
      else Inl SliceBounds)"

text \<open>The slice expression where the code has established \<open>i \<le> j \<le> len(data)\<close>.\<close>

definition sub :: "bytes \<Rightarrow> nat \<Rightarrow> nat \<Rightarrow> bytes" where
  "sub data i j = take (j - i) (drop i data)"

lemma go_slice_in_range:
  "i \<le> j \<Longrightarrow> j \<le> length data \<Longrightarrow> go_slice data spare i j = Inr (sub data i j)"
  by (simp add: go_slice_def sub_def)

lemma length_sub [simp]: "j \<le> length data \<Longrightarrow> length (sub data i j) = j - i"
  by (simp add: sub_def)

lemma sub_append_left: "j \<le> length xs \<Longrightarrow> sub (xs @ ys) i j = sub xs i j"
  by (simp add: sub_def)

lemma sub_append_right:
  "sub (xs @ ys) (length xs + i) (length xs + j) = sub ys i j"
  by (simp add: sub_def)

lemma sub_full: "length xs = n \<Longrightarrow> sub xs 0 n = xs"
  by (simp add: sub_def)

lemma sub_drop: "sub (drop k data) i j = sub data (k + i) (k + j)"
  by (simp add: sub_def add.commute)

subsection \<open>Lists\<close>

lemma drop_eq_append: "drop n xs = ys @ zs \<Longrightarrow> drop (n + length ys) xs = zs"
  by (metis append_eq_conv_conj drop_drop add.commute)

lemma concat_map_snoc: "concat (map f (xs @ [x])) = concat (map f xs) @ f x"
  by simp

lemma length_concat_map_const:
  "(\<And>x. x \<in> set xs \<Longrightarrow> length (f x) = n) \<Longrightarrow> length (concat (map f xs)) = length xs * n"
  by (induction xs) auto

end
