(* ===== verification/Endian.thy ===== *)
theory Endian
  imports Prelude
begin

unbundle bit_operations_syntax

text \<open>
  \<open>encoding/binary\<close>: the fixed-width little-endian and big-endian integers that the file
  formats and the wire protocol are made of. The locale states what every user of such a codec
  relies on: the width of what is written, and that a read at the front of a longer buffer gives
  back what was written.
\<close>

subsection \<open>Bytes of a word\<close>

definition byte_of :: "nat \<Rightarrow> 'a::len word \<Rightarrow> byte" where
  "byte_of k w = ucast (drop_bit (8 * k) w)"

fun le_value :: "bytes \<Rightarrow> 'a::len word" where
  "le_value [] = 0"
| "le_value (b # bs) = ucast b OR push_bit 8 (le_value bs)"

definition put_le :: "nat \<Rightarrow> 'a::len word \<Rightarrow> bytes" where
  "put_le n w = map (\<lambda>k. byte_of k w) [0..<n]"

text \<open>\<open>PutUint16/32/64\<close> and \<open>Uint16/32/64\<close> of \<open>binary.LittleEndian\<close>; the getters read
  the first bytes of the slice.\<close>

definition put_le16 :: "u16 \<Rightarrow> bytes" where "put_le16 = put_le 2"
definition put_le32 :: "u32 \<Rightarrow> bytes" where "put_le32 = put_le 4"
definition put_le64 :: "u64 \<Rightarrow> bytes" where "put_le64 = put_le 8"

definition get_le16 :: "bytes \<Rightarrow> u16" where "get_le16 bs = le_value (take 2 bs)"
definition get_le32 :: "bytes \<Rightarrow> u32" where "get_le32 bs = le_value (take 4 bs)"
definition get_le64 :: "bytes \<Rightarrow> u64" where "get_le64 bs = le_value (take 8 bs)"

text \<open>The same of \<open>binary.BigEndian\<close>.\<close>

definition put_be16 :: "u16 \<Rightarrow> bytes" where "put_be16 w = rev (put_le 2 w)"
definition put_be32 :: "u32 \<Rightarrow> bytes" where "put_be32 w = rev (put_le 4 w)"
definition put_be64 :: "u64 \<Rightarrow> bytes" where "put_be64 w = rev (put_le 8 w)"

definition get_be16 :: "bytes \<Rightarrow> u16" where "get_be16 bs = le_value (rev (take 2 bs))"
definition get_be32 :: "bytes \<Rightarrow> u32" where "get_be32 bs = le_value (rev (take 4 bs))"
definition get_be64 :: "bytes \<Rightarrow> u64" where "get_be64 bs = le_value (rev (take 8 bs))"

lemma length_put_le [simp]: "length (put_le n w) = n"
  by (simp add: put_le_def)

lemma put_le_Suc: "put_le (Suc n) w = byte_of 0 w # put_le n (drop_bit 8 w)"
  by (simp add: put_le_def byte_of_def upt_conv_Cons map_Suc_upt [symmetric] comp_def
      del: upt_Suc) (simp add: add.commute)

lemma ucast_byte_of_0: "8 \<le> LENGTH('a) \<Longrightarrow> ucast (byte_of 0 w) = (take_bit 8 w :: 'a::len word)"
  by (rule bit_word_eqI) (auto simp: byte_of_def bit_simps)

lemma le_value_put_le:
  "8 \<le> LENGTH('a) \<Longrightarrow> le_value (put_le n w) = (take_bit (8 * n) w :: 'a::len word)"
proof (induction n arbitrary: w)
  case 0
  then show ?case by (simp add: put_le_def)
next
  case (Suc n)
  have "take_bit 8 w OR push_bit 8 (take_bit (8 * n) (drop_bit 8 w)) = take_bit (8 * Suc n) w"
    by (rule bit_word_eqI) (auto simp: bit_simps)
  with Suc show ?case by (simp add: put_le_Suc ucast_byte_of_0)
qed

lemma le_value_put_le_full [simp]:
  "8 \<le> LENGTH('a) \<Longrightarrow> LENGTH('a) \<le> 8 * n \<Longrightarrow> le_value (put_le n w) = (w :: 'a::len word)"
  by (simp add: le_value_put_le take_bit_word_eq_self)

subsection \<open>The interface\<close>

locale fixed_codec =
  fixes put :: "'a \<Rightarrow> bytes"
    and get :: "bytes \<Rightarrow> 'a"
    and width :: nat
  assumes put_width: "length (put x) = width"
    and get_put: "get (put x @ rest) = x"
begin

lemma get_put_exact: "get (put x) = x"
  using get_put [of x "[]"] by simp

lemma put_inject: "put x = put y \<longleftrightarrow> x = y"
  by (metis get_put_exact)

lemma get_sub: "get (sub (xs @ put x @ ys) (length xs) (length xs + width)) = x"
  by (simp add: sub_def put_width get_put_exact)

lemma get_drop: "get (drop (length xs) (xs @ put x @ ys)) = x"
  by (simp add: get_put)

text \<open>A file or message of such records, one after the other.\<close>

lemma length_records: "length (concat (map put xs)) = length xs * width"
  by (rule length_concat_map_const) (rule put_width)

lemma get_record:
  assumes "i < length xs"
  shows "get (drop (i * width) (concat (map put xs) @ ys)) = xs ! i"
proof -
  define l where "l = concat (map put (take i xs))"
  have "concat (map put xs) @ ys = l @ put (xs ! i) @ (concat (map put (drop (Suc i) xs)) @ ys)"
    by (subst id_take_nth_drop [OF assms]) (simp add: l_def)
  moreover have "i * width = length l" using assms by (simp add: l_def length_records)
  ultimately show ?thesis by (simp only: get_drop)
qed

lemma get_records:
  "map (\<lambda>i. get (drop (i * width) (concat (map put xs) @ ys))) [0..<length xs] = xs"
  by (rule nth_equalityI) (simp_all add: get_record del: drop_append)

end

interpretation le16: fixed_codec put_le16 get_le16 2
  by unfold_locales (simp_all add: put_le16_def get_le16_def)

interpretation le32: fixed_codec put_le32 get_le32 4
  by unfold_locales (simp_all add: put_le32_def get_le32_def)

interpretation le64: fixed_codec put_le64 get_le64 8
  by unfold_locales (simp_all add: put_le64_def get_le64_def)

interpretation be16: fixed_codec put_be16 get_be16 2
  by unfold_locales (simp_all add: put_be16_def get_be16_def)

interpretation be32: fixed_codec put_be32 get_be32 4
  by unfold_locales (simp_all add: put_be32_def get_be32_def)

interpretation be64: fixed_codec put_be64 get_be64 8
  by unfold_locales (simp_all add: put_be64_def get_be64_def)

lemmas codec_width [simp] =
  le16.put_width le32.put_width le64.put_width be16.put_width be32.put_width be64.put_width

lemmas codec_get_put [simp] =
  le16.get_put le32.get_put le64.get_put be16.get_put be32.get_put be64.get_put
  le16.get_put_exact le32.get_put_exact le64.get_put_exact
  be16.get_put_exact be32.get_put_exact be64.get_put_exact

lemmas codec_defs =
  put_le16_def put_le32_def put_le64_def get_le16_def get_le32_def get_le64_def
  put_be16_def put_be32_def put_be64_def get_be16_def get_be32_def get_be64_def

end
