(* ===== verification/Soft_Float.thy ===== *)
theory Soft_Float
  imports Prelude
begin

unbundle bit_operations_syntax

text \<open>
  The IEEE 754 arithmetic that the Go code uses on \<open>float32\<close> and \<open>float64\<close> values, executable on
  their bits: addition, subtraction, multiplication and division rounded to nearest even, and the
  conversions from and to integers. A finite value is a sign, a natural significand and a binary
  exponent, \<open>(-1)^s * m * 2^e\<close>; every operation computes the exact result and rounds once.

  The payload of a NaN result is not modelled (Go does not specify it): an arithmetic NaN is one
  fixed quiet NaN. A conversion to an integer type of a value that the type cannot represent is
  implementation-dependent in Go, so the conversions take the result for that case as the
  argument \<open>oor\<close>.
\<close>

subsection \<open>Rounding\<close>

fun bitlen :: "nat \<Rightarrow> nat" where
  "bitlen n = (if n = 0 then 0 else Suc (bitlen (n div 2)))"

declare bitlen.simps [simp del]

text \<open>
  \<open>m / 2^d\<close> to nearest, ties to even; \<open>sticky\<close> says that the exact value is a little above
  \<open>m / 2^d\<close>, by less than \<open>1 / 2^d\<close>.
\<close>

definition round_half_even :: "nat \<Rightarrow> nat \<Rightarrow> bool \<Rightarrow> nat" where
  "round_half_even m d sticky =
     (let f = m div 2 ^ d; r = m mod 2 ^ d; h = 2 ^ (d - 1)
      in if h < r \<or> r = h \<and> (sticky \<or> odd f) then f + 1 else f)"

text \<open>
  A format has \<open>mb\<close> stored significand bits and \<open>eb\<close> exponent bits; \<open>qmin\<close> is the exponent of
  the least significant bit of a subnormal. \<open>round_mag\<close> gives the bits below the sign of the value
  nearest to \<open>m * 2^e\<close>, infinity included. A subnormal (\<open>q = qmin\<close>, no hidden bit) and a normal
  value have the same formula because the hidden bit adds one to the exponent field.
\<close>

definition qmin :: "nat \<Rightarrow> nat \<Rightarrow> int" where
  "qmin mb eb = 2 - 2 ^ (eb - 1) - int mb"

definition inf_mag :: "nat \<Rightarrow> nat \<Rightarrow> nat" where
  "inf_mag mb eb = (2 ^ eb - 1) * 2 ^ mb"

definition round_exp :: "nat \<Rightarrow> nat \<Rightarrow> nat \<Rightarrow> int \<Rightarrow> int" where
  "round_exp mb eb m e = max (e + int (bitlen m) - 1 - int mb) (qmin mb eb)"

definition round_mag :: "nat \<Rightarrow> nat \<Rightarrow> nat \<Rightarrow> int \<Rightarrow> bool \<Rightarrow> nat" where
  "round_mag mb eb m e sticky =
     (let q = round_exp mb eb m e;
          s = (if q \<le> e then m * 2 ^ nat (e - q) else round_half_even m (nat (q - e)) sticky)
      in min (nat (q - qmin mb eb) * 2 ^ mb + s) (inf_mag mb eb))"

subsection \<open>Values\<close>

datatype fp = FNaN | FInf bool | FFin bool nat int

definition unpack_mag :: "nat \<Rightarrow> nat \<Rightarrow> bool \<Rightarrow> nat \<Rightarrow> fp" where
  "unpack_mag mb eb s mag =
     (let ex = mag div 2 ^ mb; fr = mag mod 2 ^ mb
      in if ex = 2 ^ eb - 1 then (if fr = 0 then FInf s else FNaN)
         else if ex = 0 then FFin s fr (qmin mb eb)
         else FFin s (fr + 2 ^ mb) (qmin mb eb + int ex - 1))"

text \<open>An operation yields a sign and a magnitude, or NaN.\<close>

definition sval :: "bool \<Rightarrow> nat \<Rightarrow> int" where
  "sval s m = (if s then - int m else int m)"

definition round_int :: "nat \<Rightarrow> nat \<Rightarrow> int \<Rightarrow> int \<Rightarrow> bool \<times> nat" where
  "round_int mb eb v e = (v < 0, round_mag mb eb (nat \<bar>v\<bar>) e False)"

definition nan_mag :: "nat \<Rightarrow> nat \<Rightarrow> nat" where
  "nan_mag mb eb = inf_mag mb eb + 2 ^ (mb - 1)"

definition fp_add :: "nat \<Rightarrow> nat \<Rightarrow> fp \<Rightarrow> fp \<Rightarrow> bool \<times> nat" where
  "fp_add mb eb a b =
     (case (a, b) of
        (FNaN, _) \<Rightarrow> (False, nan_mag mb eb)
      | (_, FNaN) \<Rightarrow> (False, nan_mag mb eb)
      | (FInf s, FInf t) \<Rightarrow> if s = t then (s, inf_mag mb eb) else (False, nan_mag mb eb)
      | (FInf s, FFin _ _ _) \<Rightarrow> (s, inf_mag mb eb)
      | (FFin _ _ _, FInf t) \<Rightarrow> (t, inf_mag mb eb)
      | (FFin s m e, FFin t n f) \<Rightarrow>
          (let g = min e f;
               v = sval s m * 2 ^ nat (e - g) + sval t n * 2 ^ nat (f - g)
           in if v = 0 then (s \<and> t, 0) else round_int mb eb v g))"

definition fp_mul :: "nat \<Rightarrow> nat \<Rightarrow> fp \<Rightarrow> fp \<Rightarrow> bool \<times> nat" where
  "fp_mul mb eb a b =
     (case (a, b) of
        (FNaN, _) \<Rightarrow> (False, nan_mag mb eb)
      | (_, FNaN) \<Rightarrow> (False, nan_mag mb eb)
      | (FInf s, FInf t) \<Rightarrow> (s \<noteq> t, inf_mag mb eb)
      | (FInf s, FFin t n _) \<Rightarrow>
          if n = 0 then (False, nan_mag mb eb) else (s \<noteq> t, inf_mag mb eb)
      | (FFin s m _, FInf t) \<Rightarrow>
          if m = 0 then (False, nan_mag mb eb) else (s \<noteq> t, inf_mag mb eb)
      | (FFin s m e, FFin t n f) \<Rightarrow>
          (s \<noteq> t, if m * n = 0 then 0 else round_mag mb eb (m * n) (e + f) False))"

text \<open>
  Division scales the dividend so that the quotient has more bits than the format; what is left
  of it goes into \<open>sticky\<close>.
\<close>

definition fp_div :: "nat \<Rightarrow> nat \<Rightarrow> fp \<Rightarrow> fp \<Rightarrow> bool \<times> nat" where
  "fp_div mb eb a b =
     (case (a, b) of
        (FNaN, _) \<Rightarrow> (False, nan_mag mb eb)
      | (_, FNaN) \<Rightarrow> (False, nan_mag mb eb)
      | (FInf s, FInf t) \<Rightarrow> (False, nan_mag mb eb)
      | (FInf s, FFin t _ _) \<Rightarrow> (s \<noteq> t, inf_mag mb eb)
      | (FFin s _ _, FInf t) \<Rightarrow> (s \<noteq> t, 0)
      | (FFin s m e, FFin t n f) \<Rightarrow>
          if n = 0 then (if m = 0 then (False, nan_mag mb eb) else (s \<noteq> t, inf_mag mb eb))
          else if m = 0 then (s \<noteq> t, 0)
          else (let k = 2 * mb + 6; x = m * 2 ^ k
                in (s \<noteq> t, round_mag mb eb (x div n) (e - f - int k) (x mod n \<noteq> 0))))"

text \<open>The integer part of a finite value, towards zero.\<close>

definition fp_trunc :: "bool \<Rightarrow> nat \<Rightarrow> int \<Rightarrow> int" where
  "fp_trunc s m e = sval s (if 0 \<le> e then m * 2 ^ nat e else m div 2 ^ nat (- e))"

subsection \<open>binary64\<close>

definition unpack64 :: "f64 \<Rightarrow> fp" where
  "unpack64 w = unpack_mag 52 11 (2 ^ 63 \<le> unat w) (unat w mod 2 ^ 63)"

fun pack64 :: "bool \<times> nat \<Rightarrow> f64" where
  "pack64 (s, mag) = of_nat ((if s then 2 ^ 63 else 0) + mag)"

text \<open>Adding \<open>2^63\<close> modulo \<open>2^64\<close> flips the sign bit.\<close>

definition f64_neg :: "f64 \<Rightarrow> f64" where
  "f64_neg w = w + 2 ^ 63"

definition f64_add :: "f64 \<Rightarrow> f64 \<Rightarrow> f64" where
  "f64_add a b = pack64 (fp_add 52 11 (unpack64 a) (unpack64 b))"

definition f64_sub :: "f64 \<Rightarrow> f64 \<Rightarrow> f64" where
  "f64_sub a b = f64_add a (f64_neg b)"

definition f64_mul :: "f64 \<Rightarrow> f64 \<Rightarrow> f64" where
  "f64_mul a b = pack64 (fp_mul 52 11 (unpack64 a) (unpack64 b))"

definition f64_div :: "f64 \<Rightarrow> f64 \<Rightarrow> f64" where
  "f64_div a b = pack64 (fp_div 52 11 (unpack64 a) (unpack64 b))"

text \<open>\<open>float64(x)\<close> of an integer \<open>x\<close>.\<close>

definition f64_of_int :: "int \<Rightarrow> f64" where
  "f64_of_int x = pack64 (if x = 0 then (False, 0) else round_int 52 11 x 0)"

text \<open>\<open>int64(x)\<close> and \<open>uint64(x)\<close> of a \<open>float64\<close>.\<close>

definition f64_to_i64 :: "(f64 \<Rightarrow> i64) \<Rightarrow> f64 \<Rightarrow> i64" where
  "f64_to_i64 oor x =
     (case unpack64 x of
        FFin s m e \<Rightarrow>
          (let v = fp_trunc s m e in if - (2 ^ 63) \<le> v \<and> v < 2 ^ 63 then word_of_int v else oor x)
      | _ \<Rightarrow> oor x)"

definition f64_to_u64 :: "(f64 \<Rightarrow> u64) \<Rightarrow> f64 \<Rightarrow> u64" where
  "f64_to_u64 oor x =
     (case unpack64 x of
        FFin s m e \<Rightarrow>
          (let v = fp_trunc s m e in if 0 \<le> v \<and> v < 2 ^ 64 then word_of_int v else oor x)
      | _ \<Rightarrow> oor x)"

subsection \<open>binary32\<close>

definition unpack32 :: "f32 \<Rightarrow> fp" where
  "unpack32 w = unpack_mag 23 8 (2 ^ 31 \<le> unat w) (unat w mod 2 ^ 31)"

fun pack32 :: "bool \<times> nat \<Rightarrow> f32" where
  "pack32 (s, mag) = of_nat ((if s then 2 ^ 31 else 0) + mag)"

definition f32_of_int :: "int \<Rightarrow> f32" where
  "f32_of_int x = pack32 (if x = 0 then (False, 0) else round_int 23 8 x 0)"

definition f32_to_i32 :: "(f32 \<Rightarrow> i32) \<Rightarrow> f32 \<Rightarrow> i32" where
  "f32_to_i32 oor x =
     (case unpack32 x of
        FFin s m e \<Rightarrow>
          (let v = fp_trunc s m e in if - (2 ^ 31) \<le> v \<and> v < 2 ^ 31 then word_of_int v else oor x)
      | _ \<Rightarrow> oor x)"

subsection \<open>Rounding is exact on representable values\<close>

lemma bitlen_0 [simp]: "bitlen 0 = 0"
  by (subst bitlen.simps) simp

lemma bitlen_numeral [simp]:
  "bitlen (Suc 0) = 1" "bitlen 1 = 1"
  "bitlen (numeral (num.Bit0 k)) = Suc (bitlen (numeral k))"
  "bitlen (numeral (num.Bit1 k)) = Suc (bitlen (numeral k))"
  by (subst bitlen.simps, simp)+

lemma bitlen_double: "0 < m \<Longrightarrow> bitlen (m * 2) = Suc (bitlen m)"
  by (subst bitlen.simps) simp

lemma bitlen_scale: "0 < m \<Longrightarrow> bitlen (m * 2 ^ k) = bitlen m + k"
proof (induction k)
  case (Suc k)
  have "bitlen (m * 2 ^ Suc k) = bitlen ((m * 2 ^ k) * 2)"
    by (simp add: mult.commute mult.left_commute)
  also have "\<dots> = Suc (bitlen (m * 2 ^ k))"
    using Suc.prems by (intro bitlen_double) simp
  finally show ?case using Suc by simp
qed simp

lemma bitlen_bounds: "0 < m \<Longrightarrow> 2 ^ (bitlen m - 1) \<le> m \<and> m < 2 ^ bitlen m \<and> 0 < bitlen m"
proof (induction m rule: bitlen.induct)
  case (1 m)
  show ?case
  proof (cases "m = 1")
    case True
    then show ?thesis by (simp add: bitlen.simps)
  next
    case False
    with "1.prems" have pos: "0 < m div 2" and "m \<noteq> 0" by auto
    from "1.IH" [OF \<open>m \<noteq> 0\<close> pos]
    obtain j where j: "bitlen (m div 2) = Suc j" and lo: "2 ^ j \<le> m div 2" and hi: "m div 2 < 2 ^ Suc j"
      by (cases "bitlen (m div 2)") auto
    have "bitlen m = Suc (Suc j)"
      using \<open>m \<noteq> 0\<close> j by (subst bitlen.simps) simp
    moreover have "2 ^ Suc j \<le> m" and "m < 2 ^ Suc (Suc j)"
      using lo hi by auto
    ultimately show ?thesis by simp
  qed
qed

lemma bitlen_le: "m < 2 ^ n \<Longrightarrow> bitlen m \<le> n"
proof (cases "m = 0")
  case False
  assume lt: "m < 2 ^ n"
  from False have "2 ^ (bitlen m - 1) \<le> m" "0 < bitlen m" using bitlen_bounds by auto
  with lt have "(2::nat) ^ (bitlen m - 1) < 2 ^ n" by linarith
  then have "bitlen m - 1 < n" by simp
  with \<open>0 < bitlen m\<close> show ?thesis by simp
qed simp

lemma bitlen_ge: "2 ^ n \<le> m \<Longrightarrow> Suc n \<le> bitlen m"
proof -
  assume le: "2 ^ n \<le> m"
  have "(0::nat) < 2 ^ n" by simp
  with le have "0 < m" by linarith
  then have "m < 2 ^ bitlen m" using bitlen_bounds by auto
  with le have "(2::nat) ^ n < 2 ^ bitlen m" by linarith
  then show ?thesis by simp
qed

lemma round_half_even_exact [simp]: "round_half_even (m * 2 ^ d) d st = m"
  by (simp add: round_half_even_def Let_def)

lemma round_exp_scale:
  "0 < m \<Longrightarrow> round_exp mb eb (m * 2 ^ k) (e - int k) = round_exp mb eb m e"
  by (simp add: round_exp_def bitlen_scale)

lemma round_mag_scale:
  assumes "0 < m" and fits: "round_exp mb eb m e \<le> e"
  shows "round_mag mb eb (m * 2 ^ k) (e - int k) st = round_mag mb eb m e st'"
proof -
  define q where "q = round_exp mb eb m e"
  have q': "round_exp mb eb (m * 2 ^ k) (e - int k) = q"
    using assms by (simp add: round_exp_scale q_def)
  have sig: "(if q \<le> e - int k then m * 2 ^ k * 2 ^ nat (e - int k - q)
              else round_half_even (m * 2 ^ k) (nat (q - (e - int k))) st) = m * 2 ^ nat (e - q)"
  proof (cases "q \<le> e - int k")
    case True
    then have "nat (e - q) = k + nat (e - int k - q)" by simp
    with True show ?thesis by (simp add: power_add)
  next
    case False
    define d where "d = nat (q - (e - int k))"
    have d: "k = nat (e - q) + d" and "0 < d"
      using False fits by (auto simp: d_def q_def)
    have "m * 2 ^ k = (m * 2 ^ nat (e - q)) * 2 ^ d"
      by (subst d) (simp add: power_add)
    then have "round_half_even (m * 2 ^ k) d st = m * 2 ^ nat (e - q)"
      by (simp only: round_half_even_exact)
    with False show ?thesis by (simp add: d_def)
  qed
  show ?thesis
    using fits by (simp add: round_mag_def Let_def q' sig flip: q_def)
qed

lemma round_mag_exact:
  assumes "0 < m" and "round_exp mb eb m e \<le> e"
  shows "round_mag mb eb m e st =
    min (nat (round_exp mb eb m e - qmin mb eb) * 2 ^ mb + m * 2 ^ nat (e - round_exp mb eb m e))
      (inf_mag mb eb)"
  using assms by (simp add: round_mag_def Let_def)

lemma inf_mag_div: "mag < inf_mag mb eb \<longleftrightarrow> mag div 2 ^ mb < 2 ^ eb - 1"
  by (simp add: inf_mag_def div_less_iff_less_mult)

lemma round_unpack:
  assumes mag: "mag < inf_mag mb eb" and u: "unpack_mag mb eb s mag = FFin t m e"
  shows "t = s \<and> qmin mb eb \<le> e \<and> (0 < m \<longleftrightarrow> 0 < mag) \<and>
    (0 < m \<longrightarrow> round_exp mb eb m e = e \<and> round_mag mb eb m e st = mag)"
proof -
  define ex fr where "ex = mag div 2 ^ mb" and "fr = mag mod 2 ^ mb"
  have m_eq: "mag = ex * 2 ^ mb + fr" and fr: "fr < 2 ^ mb"
    unfolding ex_def fr_def by (rule div_mult_mod_eq [symmetric]) simp
  from mag have ex: "ex < 2 ^ eb - 1" by (simp add: inf_mag_div ex_def)
  show ?thesis
  proof (cases "ex = 0")
    case True
    with u ex have "t = s" "m = fr" "e = qmin mb eb"
      by (auto simp: unpack_mag_def Let_def simp flip: ex_def fr_def)
    moreover have "bitlen fr \<le> mb" using fr by (rule bitlen_le)
    ultimately have "round_exp mb eb m e = e" by (simp add: round_exp_def)
    with True \<open>t = s\<close> \<open>m = fr\<close> \<open>e = qmin mb eb\<close> m_eq mag show ?thesis
      by (auto simp: round_mag_def Let_def)
  next
    case False
    with u ex have "t = s" and m: "m = fr + 2 ^ mb" and e: "e = qmin mb eb + int ex - 1"
      by (auto simp: unpack_mag_def Let_def simp flip: ex_def fr_def)
    have "bitlen m = Suc mb"
      using fr bitlen_le [of m "Suc mb"] bitlen_ge [of mb m] m by simp
    then have re: "round_exp mb eb m e = e"
      using False by (simp add: round_exp_def e)
    have "nat (e - qmin mb eb) = ex - 1" using False by (simp add: e)
    then have "round_mag mb eb m e st = min ((ex - 1) * 2 ^ mb + m) (inf_mag mb eb)"
      by (simp add: round_mag_def Let_def re)
    also have "(ex - 1) * 2 ^ mb + m = mag"
      using False by (cases ex) (simp_all add: m m_eq)
    finally have "round_mag mb eb m e st = mag" using mag by simp
    moreover have "0 < m" "0 < mag" using m m_eq False by simp_all
    ultimately show ?thesis using \<open>t = s\<close> re False by (simp add: e)
  qed
qed

text \<open>A representable value survives rounding: its magnitude unpacks to the same value.\<close>

lemma unpack_round:
  assumes m: "0 < m" "bitlen m \<le> Suc mb" and e: "qmin mb eb \<le> e"
    and q: "q = round_exp mb eb m e" and top: "nat (q - qmin mb eb) < 2 ^ eb - 2"
  shows "unpack_mag mb eb s (round_mag mb eb m e st) = FFin s (m * 2 ^ nat (e - q)) q"
proof -
  have qe: "q \<le> e" using m e by (simp add: q round_exp_def)
  define k where "k = nat (q - qmin mb eb)"
  have qk: "q = qmin mb eb + int k" by (simp add: k_def q round_exp_def)
  define M where "M = m * 2 ^ nat (e - q)"
  have blM: "bitlen M = bitlen m + nat (e - q)" using m by (simp add: M_def bitlen_scale)
  have "e - q \<le> int (Suc mb) - int (bitlen m)" by (simp add: q round_exp_def)
  then have "bitlen M \<le> Suc mb"
    using qe blM m by linarith
  moreover have "M < 2 ^ bitlen M" using m bitlen_bounds [of M] by (simp add: M_def)
  ultimately have M_lt: "M < 2 ^ Suc mb"
    by (meson less_le_trans one_le_numeral power_increasing)
  have k2: "k < 2 ^ eb - 2" using top by (simp add: k_def)
  have "k * 2 ^ mb + M < (k + 2) * 2 ^ mb" using M_lt by (simp add: algebra_simps)
  also have "\<dots> \<le> inf_mag mb eb" unfolding inf_mag_def using k2 by (intro mult_right_mono) simp_all
  finally have r: "round_mag mb eb m e st = k * 2 ^ mb + M"
    using m qe by (simp add: round_mag_exact k_def M_def flip: q)
  show ?thesis
  proof (cases "M < 2 ^ mb")
    case True
    have "k = 0"
    proof (rule ccontr)
      assume "k \<noteq> 0"
      then have "q = e + int (bitlen m) - 1 - int mb"
        using q qk by (auto simp: round_exp_def max_def split: if_splits)
      then have "bitlen M = Suc mb" using blM qe by linarith
      then have "2 ^ mb \<le> M" using bitlen_bounds [of M] m by (auto simp: M_def)
      with True show False by simp
    qed
    with True r k2 qk show ?thesis
      by (simp add: unpack_mag_def Let_def M_def)
  next
    case False
    then obtain f where f: "M = 2 ^ mb + f" and "f < 2 ^ mb"
      using M_lt le_Suc_ex [of "2 ^ mb" M] by auto
    then have "(k * 2 ^ mb + M) div 2 ^ mb = Suc k" "(k * 2 ^ mb + M) mod 2 ^ mb = f"
      by (simp_all add: div_add1_eq mod_add_eq [symmetric])
    with k2 r f qk have "unpack_mag mb eb s (round_mag mb eb m e st) = FFin s M q"
      by (auto simp: unpack_mag_def Let_def)
    then show ?thesis by (simp add: M_def)
  qed
qed

subsection \<open>Exact operations on binary64\<close>

definition f64_finite :: "f64 \<Rightarrow> bool" where
  "f64_finite w \<longleftrightarrow> unat w mod 2 ^ 63 < inf_mag 52 11"

lemma unpack_mag_finite:
  "mag < inf_mag mb eb \<Longrightarrow> \<exists>m e. unpack_mag mb eb s mag = FFin s m e"
  by (auto simp: unpack_mag_def Let_def inf_mag_div)

lemma sign_split: "(n::nat) < 2 * h \<Longrightarrow> (if h \<le> n then h else 0) + n mod h = n"
  by (cases "h \<le> n") (auto simp: le_mod_geq)

lemma unat_f64_split:
  "pack64 (2 ^ 63 \<le> unat w, unat w mod 2 ^ 63) = w"
proof -
  have "unat w < 2 * 2 ^ 63" using unsigned_less [of w] by simp
  then show ?thesis by (simp only: pack64.simps sign_split) simp
qed

lemma unpack64_pack64:
  assumes "mag < 2 ^ 63"
  shows "unpack64 (pack64 (s, mag)) = unpack_mag 52 11 s mag"
proof -
  have u: "unat (of_nat n :: 64 word) = n" if "n < 2 ^ 64" for n :: nat
    using that by (simp add: unat_of_nat)
  have n: "(if s then 2 ^ 63 else 0) + mag < (2 ^ 64 :: nat)" using assms by simp
  have "unat (pack64 (s, mag)) = (if s then 2 ^ 63 else 0) + mag"
    unfolding pack64.simps by (rule u [OF n])
  with assms show ?thesis by (cases s) (simp_all add: unpack64_def)
qed

lemma unpack64_finite:
  assumes fin: "f64_finite w"
  shows "\<exists>m e. unpack64 w = FFin (2 ^ 63 \<le> unat w) m e \<and> qmin 52 11 \<le> e \<and>
    (0 < m \<longleftrightarrow> 0 < unat w mod 2 ^ 63) \<and>
    (0 < m \<longrightarrow> round_exp 52 11 m e = e \<and> (\<forall>st. round_mag 52 11 m e st = unat w mod 2 ^ 63))"
proof -
  have lt: "unat w mod 2 ^ 63 < inf_mag 52 11" using fin by (simp only: f64_finite_def)
  from unpack_mag_finite [OF lt] obtain m e
    where u: "unpack_mag 52 11 (2 ^ 63 \<le> unat w) (unat w mod 2 ^ 63) = FFin (2 ^ 63 \<le> unat w) m e"
    by blast
  from round_unpack [OF lt u] u show ?thesis unfolding unpack64_def by blast
qed

lemma f64_zero_unpack: "unpack64 0 = FFin False 0 (qmin 52 11)"
  by (simp add: unpack64_def unpack_mag_def)

text \<open>Adding \<open>+0\<close> to a finite value other than \<open>-0\<close> does not change it.\<close>

lemma f64_add_0_right:
  assumes fin: "f64_finite w" and nz: "w \<noteq> push_bit 63 1"
  shows "f64_add w 0 = w"
proof (cases "w = 0")
  case True
  then show ?thesis by (simp add: f64_add_def fp_add_def f64_zero_unpack sval_def)
next
  case False
  define s where "s = (2 ^ 63 \<le> unat w)"
  from unpack64_finite [OF fin] obtain m e where u: "unpack64 w = FFin s m e"
    and q: "qmin 52 11 \<le> e" and z: "0 < m \<longleftrightarrow> 0 < unat w mod 2 ^ 63"
    and re: "0 < m \<Longrightarrow> round_exp 52 11 m e = e"
    and rm: "\<And>st. 0 < m \<Longrightarrow> round_mag 52 11 m e st = unat w mod 2 ^ 63"
    unfolding s_def by auto
  have "0 < m"
  proof (rule ccontr)
    assume "\<not> 0 < m"
    then have "unat w mod 2 ^ 63 = 0" using z by simp
    then have "w = pack64 (2 ^ 63 \<le> unat w, 0)" using unat_f64_split [of w] by simp
    with False nz show False by (auto split: if_splits)
  qed
  define k where "k = nat (e - qmin 52 11)"
  have ek: "qmin 52 11 = e - int k" using q by (simp add: k_def)
  have r: "round_mag 52 11 (m * 2 ^ k) (e - int k) False = unat w mod 2 ^ 63"
    using round_mag_scale [of m 52 11 e k False False] re rm \<open>0 < m\<close> by simp
  have "fp_add 52 11 (FFin s m e) (FFin False 0 (qmin 52 11)) = (s, unat w mod 2 ^ 63)"
    using \<open>0 < m\<close> r zero_less_power [of "2::int" k] by (auto simp: mult_less_0_iff fp_add_def Let_def sval_def round_int_def ek nat_mult_distrib nat_power_eq)
  then show ?thesis
    using unat_f64_split [of w] by (simp only: f64_add_def u f64_zero_unpack s_def)
qed

lemma sign_flip:
  assumes "(n::nat) < 2 * h"
  shows "h \<le> (n + h) mod (2 * h) \<longleftrightarrow> \<not> h \<le> n" and "(n + h) mod (2 * h) mod h = n mod h"
proof -
  show "h \<le> (n + h) mod (2 * h) \<longleftrightarrow> \<not> h \<le> n"
    using assms by (cases "h \<le> n") (auto simp: le_mod_geq)
  show "(n + h) mod (2 * h) mod h = n mod h"
    by (simp add: mod_mod_cancel)
qed

lemma f64_neg_unpack:
  assumes "f64_finite w" and "unpack64 w = FFin s m e"
  shows "unpack64 (f64_neg w) = FFin (\<not> s) m e"
proof -
  have lt: "unat w < 2 * 2 ^ 63" using unsigned_less [of w] by simp
  have n: "unat (f64_neg w) = (unat w + 2 ^ 63) mod (2 * 2 ^ 63)"
    by (simp add: f64_neg_def unat_word_ariths)
  have sg: "(2 ^ 63 \<le> unat (f64_neg w)) = (\<not> 2 ^ 63 \<le> unat w)"
    and mg: "unat (f64_neg w) mod 2 ^ 63 = unat w mod 2 ^ 63"
    unfolding n by (rule sign_flip [OF lt])+
  from unpack64_finite [OF assms(1)] assms(2) have s: "s = (2 ^ 63 \<le> unat w)" by auto
  have "unpack_mag 52 11 (\<not> t) mag = FFin (\<not> t) m e" if "unpack_mag 52 11 t mag = FFin t m e" for t mag
    using that by (auto simp: unpack_mag_def Let_def split: if_splits)
  with assms(2) s show ?thesis unfolding unpack64_def sg mg by blast
qed

lemma f64_sub_self:
  assumes "f64_finite w"
  shows "f64_sub w w = 0"
proof -
  from unpack64_finite [OF assms] obtain m e where u: "unpack64 w = FFin (2 ^ 63 \<le> unat w) m e"
    by blast
  show ?thesis
    using f64_neg_unpack [OF assms u]
    by (simp add: f64_sub_def f64_add_def u fp_add_def Let_def sval_def)
qed

text \<open>Evaluation of the operations on numerals; use with \<open>cong: let_weak_cong\<close>.\<close>

lemmas fp_eval = Let_def f64_sub_def f64_neg_def f64_add_def f64_mul_def f64_div_def f64_of_int_def
  f64_to_i64_def f64_to_u64_def f32_of_int_def f32_to_i32_def
  fp_add_def fp_mul_def fp_div_def fp_trunc_def sval_def unpack64_def unpack32_def unpack_mag_def
  round_int_def round_mag_def round_exp_def round_half_even_def qmin_def inf_mag_def

lemma f64_zero_ops:
  "f64_mul 0 (f64_of_int 1000) = 0" "f64_div 0 (f64_of_int 1000) = 0" "f64_of_int 0 = 0"
  by (simp_all add: fp_eval cong: let_weak_cong)

lemma f64_to_i64_zero: "f64_to_i64 oor 0 = 0"
  by (simp add: f64_to_i64_def f64_zero_unpack fp_trunc_def sval_def)

lemma f32_to_i32_zero: "f32_to_i32 oor 0 = 0"
  by (simp add: f32_to_i32_def unpack32_def unpack_mag_def fp_trunc_def sval_def)

subsection \<open>Integers\<close>

lemma round_mag_le: "round_mag mb eb m e st \<le> inf_mag mb eb"
  by (simp add: round_mag_def Let_def)

lemma fp_trunc_scaled: "q \<le> 0 \<Longrightarrow> fp_trunc s (m * 2 ^ nat (- q)) q = sval s m"
  by (auto simp: fp_trunc_def)

text \<open>An integer with at most as many bits as the significand survives the conversion.\<close>

lemma trunc_round_int:
  assumes v: "v \<noteq> 0" "\<bar>v\<bar> < 2 ^ Suc mb"
    and q0: "qmin mb eb \<le> 0" and top: "nat (- qmin mb eb) < 2 ^ eb - 2"
  shows "\<exists>m q. unpack_mag mb eb s (round_mag mb eb (nat \<bar>v\<bar>) 0 False) = FFin s m q \<and>
    fp_trunc s m q = sval s (nat \<bar>v\<bar>)"
proof -
  define m where "m = nat \<bar>v\<bar>"
  define q where "q = round_exp mb eb m 0"
  have "0 < m" using v by (simp add: m_def)
  have "int m < int (2 ^ Suc mb)" using v by (simp add: m_def)
  then have "m < 2 ^ Suc mb" by (simp only: of_nat_less_iff)
  then have bl: "bitlen m \<le> Suc mb" by (rule bitlen_le)
  then have "q \<le> 0" and qm: "nat (q - qmin mb eb) \<le> nat (- qmin mb eb)"
    using q0 by (auto simp: q_def round_exp_def)
  have "unpack_mag mb eb s (round_mag mb eb m 0 False) = FFin s (m * 2 ^ nat (0 - q)) q"
    using qm top by (intro unpack_round [OF \<open>0 < m\<close> bl q0 q_def]) linarith
  then show ?thesis
    using fp_trunc_scaled [OF \<open>q \<le> 0\<close>, of s m] by (simp add: m_def)
qed

lemma unpack32_pack32:
  assumes "mag < 2 ^ 31"
  shows "unpack32 (pack32 (s, mag)) = unpack_mag 23 8 s mag"
proof -
  have u: "unat (of_nat n :: 32 word) = n" if "n < 2 ^ 32" for n :: nat
    using that by (simp add: unat_of_nat)
  have n: "(if s then 2 ^ 31 else 0) + mag < (2 ^ 32 :: nat)" using assms by simp
  have "unat (pack32 (s, mag)) = (if s then 2 ^ 31 else 0) + mag"
    unfolding pack32.simps by (rule u [OF n])
  with assms show ?thesis by (cases s) (simp_all add: unpack32_def)
qed

lemma f32_int_roundtrip:
  assumes "\<bar>v\<bar> < 2 ^ 24"
  shows "f32_to_i32 oor (f32_of_int v) = word_of_int v"
proof (cases "v = 0")
  case True
  moreover have "f32_of_int 0 = 0" by (simp add: fp_eval cong: let_weak_cong)
  ultimately show ?thesis by (simp add: f32_to_i32_zero)
next
  case False
  define mag where "mag = round_mag 23 8 (nat \<bar>v\<bar>) 0 False"
  have "mag < 2 ^ 31" using round_mag_le [of 23 8 "nat \<bar>v\<bar>" 0 False] by (simp add: mag_def inf_mag_def)
  then have u: "unpack32 (f32_of_int v) = unpack_mag 23 8 (v < 0) mag"
    using False by (simp only: f32_of_int_def round_int_def if_False unpack32_pack32 mag_def)
  from trunc_round_int [of v 23 8 "v < 0"] False assms
  obtain m q where "unpack_mag 23 8 (v < 0) mag = FFin (v < 0) m q"
    and t: "fp_trunc (v < 0) m q = sval (v < 0) (nat \<bar>v\<bar>)"
    by (auto simp: qmin_def mag_def)
  moreover have "sval (v < 0) (nat \<bar>v\<bar>) = v" by (simp add: sval_def)
  ultimately show ?thesis using u assms by (auto simp: f32_to_i32_def Let_def)
qed

lemma f64_int_roundtrip:
  assumes "\<bar>v\<bar> < 2 ^ 53"
  shows "f64_to_i64 oor (f64_of_int v) = word_of_int v"
proof (cases "v = 0")
  case True
  then show ?thesis by (simp add: f64_zero_ops f64_to_i64_zero)
next
  case False
  define mag where "mag = round_mag 52 11 (nat \<bar>v\<bar>) 0 False"
  have "mag < 2 ^ 63" using round_mag_le [of 52 11 "nat \<bar>v\<bar>" 0 False] by (simp add: mag_def inf_mag_def)
  then have u: "unpack64 (f64_of_int v) = unpack_mag 52 11 (v < 0) mag"
    using False by (simp only: f64_of_int_def round_int_def if_False unpack64_pack64 mag_def)
  from trunc_round_int [of v 52 11 "v < 0"] False assms
  obtain m q where "unpack_mag 52 11 (v < 0) mag = FFin (v < 0) m q"
    and t: "fp_trunc (v < 0) m q = sval (v < 0) (nat \<bar>v\<bar>)"
    by (auto simp: qmin_def mag_def)
  moreover have "sval (v < 0) (nat \<bar>v\<bar>) = v" by (simp add: sval_def)
  ultimately show ?thesis using u assms by (auto simp: f64_to_i64_def Let_def)
qed

end
