(* ===== verification/Data_Point.thy ===== *)
theory Data_Point
  imports Endian Soft_Float
begin

text \<open>
  \<open>tffiles/datapoint.go\<close>: the fixed 16-byte point. \<open>encodePoint\<close> writes the \<^emph>\<open>integer
  conversion\<close> \<open>uint64(point.Value)\<close>, not the bits of the value, so the round trip keeps the time
  but only the integer part of the value.
\<close>

record data_point =
  Time :: i64
  Value :: f64

definition zero_point :: data_point where
  "zero_point = \<lparr>Time = 0, Value = 0\<rparr>"

text \<open>\<open>oor\<close> is the implementation-dependent \<open>uint64\<close> of a value out of range.\<close>

definition encodePoint :: "(f64 \<Rightarrow> u64) \<Rightarrow> data_point \<Rightarrow> bytes" where
  "encodePoint oor p = put_le64 (Time p) @ put_le64 (f64_to_u64 oor (Value p))"

definition decodePoint :: "bytes \<Rightarrow> data_point" where
  "decodePoint data =
     (if length data < 16 then zero_point
      else \<lparr>Time = get_le64 (sub data 0 8),
            Value = f64_of_int (uint (get_le64 (sub data 8 16)))\<rparr>)"

text \<open>\<open>BatchPoints\<close> is declared but used by no code of the repository.\<close>

record batch_points =
  DeviceID :: string
  Points :: "data_point list"

text \<open>Two 64-bit fields at the front of a buffer.\<close>

lemma sub_two_fields:
  "sub (put_le64 a @ put_le64 b @ rest) 0 8 = put_le64 a"
  "sub (put_le64 a @ put_le64 b @ rest) 8 16 = put_le64 b"
  by (simp_all add: sub_def)

lemma decode_encodePoint:
  "decodePoint (encodePoint oor p @ rest) =
     \<lparr>Time = Time p, Value = f64_of_int (uint (f64_to_u64 oor (Value p)))\<rparr>"
  by (simp add: decodePoint_def encodePoint_def sub_two_fields)

subsection \<open>Properties\<close>

text \<open>decoding an encoded point gives the time exactly, and the value only through its conversion
  to an unsigned integer.\<close>

theorem encodePoint_roundtrip:
  "decodePoint (encodePoint oor p) =
     \<lparr>Time = Time p, Value = f64_of_int (uint (f64_to_u64 oor (Value p)))\<rparr>"
  using decode_encodePoint [of oor p "[]"] by simp

end
