(* ===== verification/Simple_Point.thy ===== *)
theory Simple_Point
  imports Endian Soft_Float
begin

text \<open>
  \<open>tffiles/simple_datapoint.go\<close>: the data point with any number of \<open>float32\<close> fields, its
  little-endian encoding in the day files, the six-field device point, and \<open>ToMap\<close>. The locale
  \<open>point_format\<close> is what the readers of such points rely on; the day files interpret it with
  the little-endian integers, the TCP protocol with the big-endian ones.
\<close>

record simple_point =
  Timestamp :: i64
  Values :: "f32 list"

subsection \<open>One point in a byte buffer\<close>

text \<open>The layout \<open>[time: 8][field count: 2][value: 4]*\<close> for given integer encodings.\<close>

definition put_point ::
    "(u64 \<Rightarrow> bytes) \<Rightarrow> (u16 \<Rightarrow> bytes) \<Rightarrow> (u32 \<Rightarrow> bytes) \<Rightarrow> simple_point \<Rightarrow> bytes" where
  "put_point putT putN putV p =
     putT (Timestamp p) @ putN (of_nat (length (Values p))) @ concat (map putV (Values p))"

text \<open>The loop \<open>values[i] = frombits(get(data[off+i*4 : off+(i+1)*4]))\<close> for \<open>i < n\<close>.\<close>

definition read_values :: "(bytes \<Rightarrow> u32) \<Rightarrow> bytes \<Rightarrow> nat \<Rightarrow> nat \<Rightarrow> f32 list" where
  "read_values getV data off n = map (\<lambda>i. getV (sub data (off + i * 4) (off + (i + 1) * 4))) [0..<n]"

lemma length_read_values [simp]: "length (read_values getV data off n) = n"
  by (simp add: read_values_def)

locale point_format =
  t: fixed_codec putT getT 8 + n: fixed_codec putN getN 2 + v: fixed_codec putV getV 4
  for putT :: "u64 \<Rightarrow> bytes" and getT and putN :: "u16 \<Rightarrow> bytes" and getN
    and putV :: "u32 \<Rightarrow> bytes" and getV
begin

lemma length_fields [simp]: "length (concat (map putV vs)) = length vs * 4"
  by (rule length_concat_map_const) (rule v.put_width)

lemma length_put_point: "length (put_point putT putN putV p) = 10 + length (Values p) * 4"
  by (simp add: put_point_def t.put_width n.put_width)

lemma get_field:
  assumes "i < length vs"
  shows "getV (sub (xs @ concat (map putV vs) @ ys)
      (length xs + i * 4) (length xs + (i + 1) * 4)) = vs ! i"
proof -
  define l where "l = xs @ concat (map putV (take i vs))"
  define r where "r = concat (map putV (drop (Suc i) vs)) @ ys"
  have "concat (map putV vs) =
      concat (map putV (take i vs)) @ putV (vs ! i) @ concat (map putV (drop (Suc i) vs))"
    by (subst id_take_nth_drop [OF assms]) simp
  then have "xs @ concat (map putV vs) @ ys = l @ putV (vs ! i) @ r"
    by (simp add: l_def r_def)
  moreover have "length xs + i * 4 = length l" "length xs + (i + 1) * 4 = length l + 4"
    using assms by (simp_all add: l_def)
  ultimately show ?thesis by (simp only: v.get_sub)
qed

lemma read_values_put:
  assumes "k \<le> length vs"
  shows "read_values getV (xs @ concat (map putV vs) @ ys) (length xs) k = take k vs"
  using assms get_field [where xs = xs and ys = ys and vs = vs]
  by (intro nth_equalityI) (simp_all add: read_values_def)

text \<open>Reading a point that stands at offset \<open>length xs\<close> of a buffer.\<close>

lemma get_time:
  "getT (sub (xs @ put_point putT putN putV p @ ys) (length xs) (length xs + 8)) = Timestamp p"
  using t.get_sub [of xs "Timestamp p"] by (simp add: put_point_def)

lemma get_count:
  "getN (sub (xs @ put_point putT putN putV p @ ys) (length xs + 8) (length xs + 10))
    = of_nat (length (Values p))"
proof -
  let ?l = "xs @ putT (Timestamp p)"
  have l: "length xs + 8 = length ?l" "length xs + 10 = length ?l + 2"
    by (simp_all add: t.put_width)
  show ?thesis unfolding l using n.get_sub [of ?l] by (simp add: put_point_def)
qed

lemma get_values:
  assumes "k \<le> length (Values p)"
  shows "read_values getV (xs @ put_point putT putN putV p @ ys) (length xs + 10) k
    = take k (Values p)"
  using read_values_put [OF assms, of "xs @ putT (Timestamp p) @ putN (of_nat (length (Values p)))" ys]
  by (simp add: put_point_def t.put_width n.put_width)

end

interpretation le_point: point_format put_le64 get_le64 put_le16 get_le16 put_le32 get_le32
  by unfold_locales

interpretation be_point: point_format put_be64 get_be64 put_be16 get_be16 put_be32 get_be32
  by unfold_locales

subsection \<open>The disk encoding\<close>

definition EncodeSimplePoint :: "simple_point \<Rightarrow> bytes" where
  "EncodeSimplePoint p =
     put_le64 (Timestamp p) @ put_le16 (of_nat (length (Values p)))
       @ concat (map put_le32 (Values p))"

text \<open>\<^const>\<open>None\<close> is the result \<open>nil, nil\<close>.\<close>

definition DecodeSimplePoint :: "bytes \<Rightarrow> simple_point option" where
  "DecodeSimplePoint data =
     (if length data < 10 then None
      else let timestamp = get_le64 (sub data 0 8);
               fieldCount = unat (get_le16 (sub data 8 10));
               expectedLen = 10 + fieldCount * 4
           in if length data < expectedLen then None
              else Some \<lparr>Timestamp = timestamp, Values = read_values get_le32 data 10 fieldCount\<rparr>)"

lemma EncodeSimplePoint_put: "EncodeSimplePoint = put_point put_le64 put_le16 put_le32"
  by (simp add: fun_eq_iff EncodeSimplePoint_def put_point_def)

lemma length_EncodeSimplePoint [simp]:
  "length (EncodeSimplePoint p) = 10 + length (Values p) * 4"
  by (simp add: EncodeSimplePoint_put le_point.length_put_point)

lemma unat_of_nat16: "unat (of_nat n :: 16 word) = n mod 65536"
  by (simp add: unat_of_nat)

lemma DecodeSimplePoint_append:
  "DecodeSimplePoint (EncodeSimplePoint p @ rest) =
     Some (p\<lparr>Values := take (length (Values p) mod 65536) (Values p)\<rparr>)"
proof -
  let ?n = "length (Values p)" and ?b = "EncodeSimplePoint p @ rest"
  have m: "?n mod 65536 \<le> ?n" by simp
  have "get_le64 (sub ?b 0 8) = Timestamp p" "get_le16 (sub ?b 8 10) = of_nat ?n"
    using le_point.get_time [of "[]" p rest] le_point.get_count [of "[]" p rest]
    by (simp_all add: EncodeSimplePoint_put)
  moreover have "read_values get_le32 ?b 10 (?n mod 65536) = take (?n mod 65536) (Values p)"
    using le_point.get_values [OF m, of "[]" rest] by (simp add: EncodeSimplePoint_put)
  moreover have "\<not> length ?b < 10 + ?n mod 65536 * 4" using m by simp
  ultimately show ?thesis
    by (simp add: DecodeSimplePoint_def Let_def unat_of_nat16)
qed

lemma DecodeSimplePoint_short:
  "length data < 10 \<Longrightarrow> DecodeSimplePoint data = None"
  by (simp add: DecodeSimplePoint_def)

text \<open>A decoded point takes exactly the prefix of the input that its encoding has.\<close>

lemma DecodeSimplePoint_Some:
  assumes "DecodeSimplePoint data = Some p"
  shows "length (Values p) < 65536 \<and> length (EncodeSimplePoint p) \<le> length data"
proof -
  have "unat (get_le16 (sub data 8 10)) < 65536" using unsigned_less [of "get_le16 (sub data 8 10)"] by simp
  with assms show ?thesis
    by (auto simp: DecodeSimplePoint_def Let_def split: if_splits)
qed

subsection \<open>The six-field device point\<close>

definition IdxTravel :: nat where "IdxTravel = 0"
definition IdxPitch :: nat where "IdxPitch = 1"
definition IdxRotation :: nat where "IdxRotation = 2"
definition IdxStockStatus :: nat where "IdxStockStatus = 3"
definition IdxReclaimStatus :: nat where "IdxReclaimStatus = 4"
definition IdxPLCStatus :: nat where "IdxPLCStatus = 5"

lemmas Idx_defs = IdxTravel_def IdxPitch_def IdxRotation_def IdxStockStatus_def
  IdxReclaimStatus_def IdxPLCStatus_def

definition CreateDevicePoint ::
    "i64 \<Rightarrow> f32 \<Rightarrow> f32 \<Rightarrow> f32 \<Rightarrow> i32 \<Rightarrow> i32 \<Rightarrow> i32 \<Rightarrow> simple_point" where
  "CreateDevicePoint timestamp travel pitch rotation stockStatus reclaimStatus plcStatus =
     \<lparr>Timestamp = timestamp,
      Values = [travel, pitch, rotation,
                f32_of_int (sint stockStatus), f32_of_int (sint reclaimStatus),
                f32_of_int (sint plcStatus)]\<rparr>"

text \<open>The named results stay zero when there are fewer than six fields. \<open>oor\<close> is the
  implementation-dependent \<open>int32\<close> of a value out of range.\<close>

definition ParseDevicePoint ::
    "(f32 \<Rightarrow> i32) \<Rightarrow> simple_point \<Rightarrow> f32 \<times> f32 \<times> f32 \<times> i32 \<times> i32 \<times> i32" where
  "ParseDevicePoint oor p =
     (if 6 \<le> length (Values p)
      then (Values p ! IdxTravel, Values p ! IdxPitch, Values p ! IdxRotation,
            f32_to_i32 oor (Values p ! IdxStockStatus),
            f32_to_i32 oor (Values p ! IdxReclaimStatus),
            f32_to_i32 oor (Values p ! IdxPLCStatus))
      else (0, 0, 0, 0, 0, 0))"

lemma f32_to_i32_sint:
  "\<bar>sint x\<bar> < 2 ^ 24 \<Longrightarrow> f32_to_i32 oor (f32_of_int (sint x)) = x"
  by (simp add: f32_int_roundtrip)

subsection \<open>ToMap\<close>

fun ToMap_loop :: "f32 list \<Rightarrow> nat \<Rightarrow> string list \<Rightarrow> (string \<rightharpoonup> f32) \<Rightarrow> (string \<rightharpoonup> f32)" where
  "ToMap_loop vs i [] result = result"
| "ToMap_loop vs i (name # names) result =
     ToMap_loop vs (Suc i) names
       (if i < length vs then result(name \<mapsto> vs ! i) else result)"

definition ToMap :: "simple_point \<Rightarrow> string list \<Rightarrow> (string \<rightharpoonup> f32)" where
  "ToMap p fieldNames = ToMap_loop (Values p) 0 fieldNames Map.empty"

lemma ToMap_loop_eq:
  "ToMap_loop vs i names result = result ++ map_of (rev (zip names (drop i vs)))"
proof (induction names arbitrary: i result)
  case (Cons name names)
  show ?case
  proof (cases "i < length vs")
    case True
    then have "drop i vs = vs ! i # drop (Suc i) vs" by (rule Cons_nth_drop_Suc [symmetric])
    with True Cons show ?thesis by (auto simp: fun_eq_iff map_add_def split: option.splits)
  next
    case False
    with Cons show ?thesis by simp
  qed
qed simp

subsection \<open>Properties\<close>

text \<open>C21: decoding an encoded point followed by any bytes gives back the point, with its fields cut to
  their number modulo 65536 (the field count has two bytes): every point of fewer than 65536 fields
  round-trips.\<close>

theorem EncodeSimplePoint_roundtrip:
  "DecodeSimplePoint (EncodeSimplePoint p @ rest) =
     Some (p\<lparr>Values := take (length (Values p) mod 65536) (Values p)\<rparr>)"
  by (rule DecodeSimplePoint_append)

text \<open>a device point gives back the three measurements bit for bit, and every status of magnitude
  below \<open>2^24\<close>, the integers that \<open>float32\<close> represents exactly.\<close>

theorem DevicePoint_roundtrip:
  assumes "\<bar>sint stock\<bar> < 2 ^ 24" and "\<bar>sint reclaim\<bar> < 2 ^ 24" and "\<bar>sint plc\<bar> < 2 ^ 24"
  shows "ParseDevicePoint oor (CreateDevicePoint t travel pitch rotation stock reclaim plc) =
    (travel, pitch, rotation, stock, reclaim, plc)"
  using assms
  by (simp add: ParseDevicePoint_def CreateDevicePoint_def Idx_defs f32_to_i32_sint)

theorem DevicePoint_roundtrip_witness:
  "ParseDevicePoint (\<lambda>_. 0) (CreateDevicePoint 7 1 2 3 (- 5) 0 16777215) = (1, 2, 3, - 5, 0, 16777215)"
  by (rule DevicePoint_roundtrip) simp_all

text \<open>\<open>ToMap\<close> maps each name to the field at its position, the last position winning where a name
  is repeated; names without a field and fields without a name are left out.\<close>

theorem ToMap_spec:
  "ToMap p fieldNames = map_of (rev (zip fieldNames (Values p)))"
  by (simp add: ToMap_def ToMap_loop_eq)

end
