(* ===== verification/Encoder.thy ===== *)
theory Encoder
  imports Data_Point
begin

unbundle bit_operations_syntax

text \<open>
  \<open>tffiles/encoder.go\<close>: the batch encoder with its three modes and the variable-length integers.
\<close>

subsection \<open>Variable-length integers\<close>

lemma drop_bit_less: "128 \<le> (u :: u64) \<Longrightarrow> unat (drop_bit 7 u) < unat u"
proof -
  assume "128 \<le> u"
  then have "128 \<le> unat u" by (simp add: word_le_nat_alt)
  then have "drop_bit 7 (unat u) < unat u" by (simp add: drop_bit_eq_div)
  then show ?thesis by (simp only: unat_drop_bit_eq)
qed

function encodeVarint_loop :: "u64 \<Rightarrow> bytes" where
  "encodeVarint_loop ux =
     (if 0x80 \<le> ux then (ucast ux OR 0x80) # encodeVarint_loop (drop_bit 7 ux) else [ucast ux])"
  by pat_completeness auto
termination
  by (relation "measure unat") (auto intro: drop_bit_less)

declare encodeVarint_loop.simps [simp del]

definition encodeVarint :: "i64 \<Rightarrow> bytes" where
  "encodeVarint x = encodeVarint_loop x"

fun decodeVarint_loop :: "nat \<Rightarrow> u64 \<Rightarrow> nat \<Rightarrow> bytes \<Rightarrow> u64" where
  "decodeVarint_loop i x s [] = x"
| "decodeVarint_loop i x s (b # bs) =
     (if i = 9 then x OR push_bit s (ucast b)
      else if b < 0x80 then x OR push_bit s (ucast b)
      else decodeVarint_loop (i + 1) (x OR push_bit s (ucast (b AND 0x7F))) (s + 7) bs)"

definition decodeVarint :: "bytes \<Rightarrow> i64" where
  "decodeVarint data = decodeVarint_loop 0 0 0 data"

lemma varint_low_bits: "ucast ((ucast u OR 0x80) AND 0x7F :: byte) = take_bit 7 (u :: u64)"
proof -
  have "(0x7F :: byte) = mask 7" by (simp add: mask_eq_exp_minus_1)
  then have "(ucast u OR 0x80) AND 0x7F = take_bit 7 (ucast u OR 0x80 :: byte)"
    by (simp only: take_bit_eq_mask)
  also have "\<dots> = take_bit 7 (ucast u) OR take_bit 7 0x80" by (rule take_bit_or)
  also have "take_bit 7 (0x80 :: byte) = 0" by simp
  finally show ?thesis by (simp only: or.right_neutral) (intro bit_word_eqI; auto simp: bit_simps)
qed

lemma varint_last: "u < 0x80 \<Longrightarrow> ucast (ucast u :: byte) = (u :: u64)"
proof -
  assume "u < 0x80"
  then have "unat u < 2 ^ 8" by (simp add: word_less_nat_alt)
  then have "take_bit 8 u = u" by (simp add: word_unat_eq_iff unsigned_take_bit_eq take_bit_nat_eq_self)
  moreover have "ucast (ucast u :: byte) = take_bit 8 u"
    by (intro bit_word_eqI) (auto simp: bit_simps)
  ultimately show ?thesis by simp
qed

lemma varint_last_small: "u < 0x80 \<Longrightarrow> (ucast (u :: u64) :: byte) < 0x80"
  by (simp add: word_less_nat_alt unsigned_ucast_eq take_bit_nat_eq_self)

lemma varint_continues: "\<not> (ucast (u :: u64) OR 0x80 :: byte) < 0x80"
  using le_word_or2 [of "0x80 :: byte" "ucast u"] by (simp only: not_less or.commute)

lemma varint_split: "take_bit 7 u OR push_bit 7 (drop_bit 7 u) = (u :: u64)"
proof (rule bit_word_eqI)
  fix n
  assume "n < LENGTH(64)"
  then show "bit (take_bit 7 u OR push_bit 7 (drop_bit 7 u)) n = bit u n"
    by (cases "n < 7") (simp_all add: bit_simps)
qed

lemma unat_drop7: "unat (drop_bit 7 (u :: u64)) = unat u div 128"
  by (subst unat_drop_bit_eq) (simp add: drop_bit_eq_div)

lemma decodeVarint_loop_encode:
  assumes "i \<le> 9" and "s = 7 * i" and "unat u < 2 ^ (64 - 7 * i)"
  shows "decodeVarint_loop i x s (encodeVarint_loop u) = x OR push_bit s u
    \<and> length (encodeVarint_loop u) + i \<le> 10"
  using assms
proof (induction u arbitrary: i s x rule: encodeVarint_loop.induct)
  case (1 u)
  show ?case
  proof (cases "0x80 \<le> u")
    case False
    then have "u < 0x80" by simp
    with False "1.prems"(1) show ?thesis
      by (simp add: encodeVarint_loop.simps [of u] varint_last varint_last_small)
  next
    case True
    then have "128 \<le> unat u" by (simp add: word_le_nat_alt)
    have "i \<noteq> 9" using \<open>128 \<le> unat u\<close> "1.prems"(3) by auto
    then have i: "i + 1 \<le> 9" "7 * (i + 1) \<le> 64" using "1.prems"(1) by simp_all
    have e: "64 - 7 * i = (64 - 7 * (i + 1)) + 7" using i by simp
    have "unat u < 2 ^ (64 - 7 * (i + 1)) * 2 ^ 7"
      using "1.prems"(3) unfolding e power_add .
    then have "unat u < 2 ^ (64 - 7 * (i + 1)) * 128" by simp
    then have bound: "unat (drop_bit 7 u) < 2 ^ (64 - 7 * (i + 1))"
      by (simp only: unat_drop7 less_mult_imp_div_less)
    from "1.IH" [OF True i(1) _ bound, of "s + 7"] "1.prems"(2)
    have IH: "decodeVarint_loop (i + 1) y (s + 7) (encodeVarint_loop (drop_bit 7 u))
        = y OR push_bit (s + 7) (drop_bit 7 u) \<and>
        length (encodeVarint_loop (drop_bit 7 u)) + (i + 1) \<le> 10" for y
      by simp
    have "push_bit s (take_bit 7 u) OR push_bit (s + 7) (drop_bit 7 u)
        = push_bit s (take_bit 7 u OR push_bit 7 (drop_bit 7 u))"
      by (simp only: push_bit_or push_bit_push_bit)
    then have "(x OR push_bit s (take_bit 7 u)) OR push_bit (s + 7) (drop_bit 7 u) = x OR push_bit s u"
      by (simp only: varint_split or.assoc)
    with IH True \<open>i \<noteq> 9\<close> show ?thesis
      by (simp only: encodeVarint_loop.simps [of u] decodeVarint_loop.simps if_True if_False
          varint_continues varint_low_bits length_Cons) simp
  qed
qed

lemma decode_encodeVarint: "decodeVarint (encodeVarint x) = x"
  using decodeVarint_loop_encode [of 0 0 x 0] unat64_less [of x]
  by (simp add: decodeVarint_def encodeVarint_def)

lemma length_encodeVarint: "length (encodeVarint x) \<le> 10"
  using decodeVarint_loop_encode [of 0 0 x 0] unat64_less [of x]
  by (simp add: encodeVarint_def)

lemma encodeVarint_nonempty: "0 < length (encodeVarint x)"
  by (simp add: encodeVarint_def encodeVarint_loop.simps)

subsection \<open>Modes and the encoders\<close>

type_synonym CompressionMode = int

definition CompressNone :: CompressionMode where "CompressNone = 0"
definition CompressDelta :: CompressionMode where "CompressDelta = 1"
definition CompressDeltaDelta :: CompressionMode where "CompressDeltaDelta = 2"

record optimized_encoder =
  mode :: CompressionMode

definition NewOptimizedEncoder :: "CompressionMode \<Rightarrow> optimized_encoder" where
  "NewOptimizedEncoder m = \<lparr>mode = m\<rparr>"

text \<open>
  A value difference is stored as \<open>int64(d * 1000)\<close> and read back as \<open>float64(n) / 1000\<close>.
  The argument \<open>oor\<close> of the encoders is the implementation-dependent \<open>int64\<close> of a value out
  of range.
\<close>

definition scale1000 :: "(f64 \<Rightarrow> i64) \<Rightarrow> f64 \<Rightarrow> i64" where
  "scale1000 oor d = f64_to_i64 oor (f64_mul d (f64_of_int 1000))"

definition unscale1000 :: "i64 \<Rightarrow> f64" where
  "unscale1000 n = f64_div (f64_of_int (sint n)) (f64_of_int 1000)"

definition raw_point :: "data_point \<Rightarrow> bytes" where
  "raw_point p = put_le64 (Time p) @ put_le64 (Value p)"

definition encodeRaw :: "data_point list \<Rightarrow> bytes" where
  "encodeRaw points = concat (map raw_point points)"

text \<open>The flag byte: the two lengths in one byte, each in four bits.\<close>

definition length_flags :: "bytes \<Rightarrow> bytes \<Rightarrow> byte" where
  "length_flags te ve = (0 OR push_bit 4 (of_nat (length te))) OR of_nat (length ve)"

definition delta_record :: "(f64 \<Rightarrow> i64) \<Rightarrow> i64 \<Rightarrow> f64 \<Rightarrow> bytes" where
  "delta_record oor timeDelta valueDelta =
     (let te = encodeVarint timeDelta; ve = encodeVarint (scale1000 oor valueDelta)
      in [length_flags te ve] @ te @ ve)"

fun encodeDelta_loop :: "(f64 \<Rightarrow> i64) \<Rightarrow> i64 \<Rightarrow> f64 \<Rightarrow> data_point list \<Rightarrow> bytes" where
  "encodeDelta_loop oor lastTime lastValue [] = []"
| "encodeDelta_loop oor lastTime lastValue (p # ps) =
     delta_record oor (Time p - lastTime) (f64_sub (Value p) lastValue)
       @ encodeDelta_loop oor (Time p) (Value p) ps"

fun encodeDelta :: "(f64 \<Rightarrow> i64) \<Rightarrow> data_point list \<Rightarrow> bytes" where
  "encodeDelta oor [] = []"
| "encodeDelta oor (p # ps) = raw_point p @ encodeDelta_loop oor (Time p) (Value p) ps"

text \<open>\<open>prev\<close> is \<open>points[i-1]\<close>.\<close>

fun encodeDeltaDelta_loop ::
    "(f64 \<Rightarrow> i64) \<Rightarrow> data_point \<Rightarrow> i64 \<Rightarrow> f64 \<Rightarrow> data_point list \<Rightarrow> bytes" where
  "encodeDeltaDelta_loop oor prev lastTimeDelta lastValueDelta [] = []"
| "encodeDeltaDelta_loop oor prev lastTimeDelta lastValueDelta (p # ps) =
     (let timeDelta = Time p - Time prev;
          valueDelta = f64_sub (Value p) (Value prev)
      in delta_record oor (timeDelta - lastTimeDelta) (f64_sub valueDelta lastValueDelta)
           @ encodeDeltaDelta_loop oor p timeDelta valueDelta ps)"

fun encodeDeltaDelta :: "(f64 \<Rightarrow> i64) \<Rightarrow> data_point list \<Rightarrow> bytes" where
  "encodeDeltaDelta oor [] = []"
| "encodeDeltaDelta oor [p0] = raw_point p0"
| "encodeDeltaDelta oor [p0, p1] = raw_point p0 @ raw_point p1"
| "encodeDeltaDelta oor (p0 # p1 # ps) =
     (let firstTimeDelta = Time p1 - Time p0;
          firstValueDelta = f64_sub (Value p1) (Value p0)
      in raw_point p0 @ raw_point p1
           @ encodeVarint firstTimeDelta @ encodeVarint (scale1000 oor firstValueDelta)
           @ encodeDeltaDelta_loop oor p1 firstTimeDelta firstValueDelta ps)"

definition EncodeBatch :: "(f64 \<Rightarrow> i64) \<Rightarrow> optimized_encoder \<Rightarrow> data_point list \<Rightarrow> bytes" where
  "EncodeBatch oor e points =
     (if length points = 0 then []
      else if mode e = CompressDelta then encodeDelta oor points
      else if mode e = CompressDeltaDelta then encodeDeltaDelta oor points
      else encodeRaw points)"

subsection \<open>The decoders\<close>

definition get_raw :: "bytes \<Rightarrow> nat \<Rightarrow> data_point" where
  "get_raw data off =
     \<lparr>Time = get_le64 (sub data off (off + 8)), Value = get_le64 (sub data (off + 8) (off + 16))\<rparr>"

definition decodeRaw :: "bytes \<Rightarrow> data_point list" where
  "decodeRaw data = map (\<lambda>i. get_raw data (i * 16)) [0..<length data div 16]"

text \<open>The slices of the loop stay within \<open>len(data)\<close> by the test before them.\<close>

function decodeDelta_loop :: "bytes \<Rightarrow> nat \<Rightarrow> i64 \<Rightarrow> f64 \<Rightarrow> data_point list" where
  "decodeDelta_loop data offset lastTime lastValue =
     (if offset < length data
      then let flags = data ! offset;
               o1 = offset + 1;
               timeLen = unat (drop_bit 4 flags);
               valueLen = unat (flags AND 0x0F)
           in if o1 + timeLen + valueLen > length data then []
              else let timeDelta = decodeVarint (sub data o1 (o1 + timeLen));
                       valueDelta =
                         unscale1000 (decodeVarint (sub data (o1 + timeLen) (o1 + timeLen + valueLen)));
                       point = \<lparr>Time = lastTime + timeDelta, Value = f64_add lastValue valueDelta\<rparr>
                   in point # decodeDelta_loop data (o1 + (timeLen + valueLen)) (Time point) (Value point)
      else [])"
  by pat_completeness auto
termination
  by (relation "measure (\<lambda>(data, offset, _, _). length data - offset)") auto

declare decodeDelta_loop.simps [simp del]

definition decodeDelta :: "bytes \<Rightarrow> data_point list" where
  "decodeDelta data =
     (if length data < 16 then []
      else let firstPoint = get_raw data 0
           in firstPoint # decodeDelta_loop data 16 (Time firstPoint) (Value firstPoint))"

function decodeDeltaDelta_loop ::
    "bytes \<Rightarrow> nat \<Rightarrow> i64 \<Rightarrow> f64 \<Rightarrow> i64 \<Rightarrow> f64 \<Rightarrow> data_point list" where
  "decodeDeltaDelta_loop data offset lastTimeDelta lastValueDelta lastTime lastValue =
     (if offset < length data
      then let flags = data ! offset;
               o1 = offset + 1;
               timeLen = unat (drop_bit 4 flags);
               valueLen = unat (flags AND 0x0F)
           in if o1 + timeLen + valueLen > length data then []
              else let timeDelta = lastTimeDelta + decodeVarint (sub data o1 (o1 + timeLen));
                       valueDelta = f64_add lastValueDelta
                         (unscale1000 (decodeVarint (sub data (o1 + timeLen) (o1 + timeLen + valueLen))));
                       point = \<lparr>Time = lastTime + timeDelta, Value = f64_add lastValue valueDelta\<rparr>
                   in point # decodeDeltaDelta_loop data (o1 + (timeLen + valueLen))
                        timeDelta valueDelta (Time point) (Value point)
      else [])"
  by pat_completeness auto
termination
  by (relation "measure (\<lambda>(data, offset, _). length data - offset)") auto

declare decodeDeltaDelta_loop.simps [simp del]

text \<open>
  The first differences are read from fixed eight-byte slices that the code does not check against
  \<open>len(data)\<close>; \<open>spare\<close> is the rest of the backing array of \<open>data\<close> up to its capacity.
\<close>

definition decodeDeltaDelta :: "bytes \<Rightarrow> bytes \<Rightarrow> data_point list go" where
  "decodeDeltaDelta data spare =
     (if length data < 32 then Inr []
      else let point0 = get_raw data 0; point1 = get_raw data 16
           in if length data \<le> 32 then Inr [point0, point1]
              else go_bind (go_slice data spare 32 40) (\<lambda>t.
                   go_bind (go_slice data spare 40 48) (\<lambda>v.
                     Inr (point0 # point1 #
                       decodeDeltaDelta_loop data 48 (decodeVarint t) (unscale1000 (decodeVarint v))
                         (Time point1) (Value point1)))))"

definition Decode :: "optimized_encoder \<Rightarrow> bytes \<Rightarrow> bytes \<Rightarrow> data_point list go" where
  "Decode e data spare =
     (if length data = 0 then Inr []
      else if mode e = CompressDelta then Inr (decodeDelta data)
      else if mode e = CompressDeltaDelta then decodeDeltaDelta data spare
      else Inr (decodeRaw data))"

subsection \<open>Round trips\<close>

lemma length_raw_point [simp]: "length (raw_point p) = 16"
  by (simp add: raw_point_def)

lemma raw_point_nonempty [simp]: "raw_point p \<noteq> []"
  using length_raw_point [of p] by (auto simp del: length_raw_point)

lemma get_raw_front [simp]: "get_raw (raw_point p @ ys) 0 = p"
  by (simp add: get_raw_def raw_point_def sub_two_fields [simplified])

interpretation raw_record: fixed_codec raw_point "\<lambda>bs. get_raw bs 0" 16
  by unfold_locales simp_all

lemma get_raw_drop: "get_raw data off = get_raw (drop off data) 0"
  by (simp add: get_raw_def sub_drop)

lemma get_raw_append: "get_raw (xs @ raw_point p @ ys) (length xs) = p"
  by (simp add: get_raw_drop [of _ "length xs"])

lemma decode_encodeRaw: "decodeRaw (encodeRaw ps) = ps"
  using raw_record.get_records [of ps "[]"] raw_record.length_records [of ps]
  by (simp add: decodeRaw_def encodeRaw_def get_raw_drop [of _ "_ * 16"])

lemma nibbles_all:
  "list_all (\<lambda>a. list_all (\<lambda>b.
     unat (drop_bit 4 (push_bit 4 (of_nat a) OR of_nat b :: byte)) = a \<and>
     unat ((push_bit 4 (of_nat a) OR of_nat b :: byte) AND 0x0F) = b) [0..<16]) [0..<16]"
  by (simp add: upt_rec)

lemma length_flags:
  assumes "length te < 16" and "length ve < 16"
  shows "unat (drop_bit 4 (length_flags te ve)) = length te"
    and "unat (length_flags te ve AND 0x0F) = length ve"
  using nibbles_all assms by (simp_all add: length_flags_def list_all_iff del: upt_rec_numeral)

lemma varint_lengths:
  "length (encodeVarint x) < 16"
  using length_encodeVarint [of x] by simp

lemma length_delta_record:
  "length (delta_record oor dt dv) = 1 + length (encodeVarint dt) + length (encodeVarint (scale1000 oor dv))"
  by (simp add: delta_record_def Let_def)

text \<open>One record of the stream, read at its offset.\<close>

lemma delta_record_fields:
  fixes dt dv oor pre rest
  defines "data \<equiv> pre @ delta_record oor dt dv @ rest"
    and "te \<equiv> encodeVarint dt" and "ve \<equiv> encodeVarint (scale1000 oor dv)"
  shows "length pre < length data"
    and "data ! length pre = length_flags te ve"
    and "\<not> length pre + 1 + length te + length ve > length data"
    and "decodeVarint (sub data (length pre + 1) (length pre + 1 + length te)) = dt"
    and "decodeVarint (sub data (length pre + 1 + length te) (length pre + 1 + length te + length ve))
      = scale1000 oor dv"
proof -
  have d: "data = (pre @ [length_flags te ve]) @ te @ ve @ rest"
    by (simp add: data_def delta_record_def te_def ve_def Let_def)
  show "length pre < length data" "data ! length pre = length_flags te ve"
    "\<not> length pre + 1 + length te + length ve > length data"
    by (simp_all add: d nth_append)
  have "sub data (length pre + 1) (length pre + 1 + length te) = te"
    and "sub data (length pre + 1 + length te) (length pre + 1 + length te + length ve) = ve"
    by (simp_all add: d sub_def)
  then show "decodeVarint (sub data (length pre + 1) (length pre + 1 + length te)) = dt"
    and "decodeVarint (sub data (length pre + 1 + length te) (length pre + 1 + length te + length ve))
      = scale1000 oor dv"
    by (simp_all add: te_def ve_def decode_encodeVarint)
qed

text \<open>
  What the delta decoder returns: the exact times, and values that accumulate the rounded
  differences of the true values.
\<close>

fun delta_decoded :: "(f64 \<Rightarrow> i64) \<Rightarrow> f64 \<Rightarrow> f64 \<Rightarrow> data_point list \<Rightarrow> data_point list" where
  "delta_decoded oor lastValue lastDecoded [] = []"
| "delta_decoded oor lastValue lastDecoded (p # ps) =
     (let v = f64_add lastDecoded (unscale1000 (scale1000 oor (f64_sub (Value p) lastValue)))
      in \<lparr>Time = Time p, Value = v\<rparr> # delta_decoded oor (Value p) v ps)"

lemma decodeDelta_loop_encode:
  "decodeDelta_loop (pre @ encodeDelta_loop oor lt lv ps) (length pre) lt dv = delta_decoded oor lv dv ps"
proof (induction ps arbitrary: pre lt lv dv)
  case Nil
  then show ?case by (simp add: decodeDelta_loop.simps)
next
  case (Cons p ps)
  let ?r = "delta_record oor (Time p - lt) (f64_sub (Value p) lv)"
  let ?rest = "encodeDelta_loop oor (Time p) (Value p) ps"
  let ?v = "f64_add dv (unscale1000 (scale1000 oor (f64_sub (Value p) lv)))"
  note f = delta_record_fields [of pre oor "Time p - lt" "f64_sub (Value p) lv" ?rest]
  have IH: "decodeDelta_loop (pre @ ?r @ ?rest) (length pre + length ?r) (Time p) ?v
      = delta_decoded oor (Value p) ?v ps"
    using Cons.IH [of "pre @ ?r" "Time p" "Value p" ?v] by simp
  show ?case
    using IH f length_delta_record [of oor "Time p - lt" "f64_sub (Value p) lv"]
    by (subst decodeDelta_loop.simps)
      (simp add: length_flags varint_lengths Let_def add.assoc del: One_nat_def)
qed

lemma decode_encodeDelta:
  "decodeDelta (encodeDelta oor (p # ps)) = p # delta_decoded oor (Value p) (Value p) ps"
  using decodeDelta_loop_encode [of "raw_point p"]
  by (simp add: decodeDelta_def get_raw_front)

lemma Decode_delta:
  "mode e = CompressDelta \<Longrightarrow>
    Decode e (EncodeBatch oor e (p # ps)) spare = Inr (p # delta_decoded oor (Value p) (Value p) ps)"
  using decode_encodeDelta [of oor p ps] by (simp add: Decode_def EncodeBatch_def)

lemma map_Time_delta_decoded: "map Time (delta_decoded oor lv dv ps) = map Time ps"
  by (induction ps arbitrary: lv dv) (simp_all add: Let_def)

text \<open>Where every difference rounds to zero the decoded value never moves.\<close>

fun still :: "(f64 \<Rightarrow> i64) \<Rightarrow> f64 \<Rightarrow> data_point list \<Rightarrow> bool" where
  "still oor lastValue [] = True"
| "still oor lastValue (p # ps) \<longleftrightarrow>
     scale1000 oor (f64_sub (Value p) lastValue) = 0 \<and> still oor (Value p) ps"

lemma unscale1000_0 [simp]: "unscale1000 0 = 0"
  by (simp add: unscale1000_def f64_zero_ops)

lemma delta_decoded_still:
  assumes "f64_finite dv" and "dv \<noteq> push_bit 63 1" and "still oor lv ps"
  shows "delta_decoded oor lv dv ps = map (\<lambda>p. p\<lparr>Value := dv\<rparr>) ps"
  using assms(3)
  by (induction ps arbitrary: lv) (auto simp: f64_add_0_right [OF assms(1,2)])

lemma still_constant:
  assumes "f64_finite v" and "\<forall>p \<in> set ps. Value p = v"
  shows "still oor v ps"
  using assms(2)
  by (induction ps)
    (auto simp: scale1000_def f64_sub_self [OF assms(1)] f64_zero_ops f64_to_i64_zero)

lemma decodeDeltaDelta_two:
  "decodeDeltaDelta (raw_point p0 @ raw_point p1) spare = Inr [p0, p1]"
  using get_raw_front [of p0 "raw_point p1"] get_raw_append [of "raw_point p0" p1 "[]"]
  by (simp add: decodeDeltaDelta_def)

lemma decodeDeltaDelta_at_most_48:
  assumes "32 < length data" "length data \<le> 48"
  shows "decodeDeltaDelta data spare =
    (if length data + length spare < 48 then Inl SliceBounds
     else Inr [get_raw data 0, get_raw data 16])"
  using assms by (simp add: decodeDeltaDelta_def go_slice_def go_bind_def decodeDeltaDelta_loop.simps)

lemma get_raw_two:
  "get_raw (raw_point p0 @ raw_point p1 @ ys) 0 = p0"
  "get_raw (raw_point p0 @ raw_point p1 @ ys) 16 = p1"
  using get_raw_front [of p0] get_raw_append [of "raw_point p0" p1] by simp_all

lemma encodeDeltaDelta_three:
  obtains t where "encodeDeltaDelta oor (p # q # r # rs) = raw_point p @ raw_point q @ t" "t \<noteq> []"
proof
  let ?t = "encodeVarint (Time q - Time p) @
    encodeVarint (scale1000 oor (f64_sub (Value q) (Value p))) @
    encodeDeltaDelta_loop oor q (Time q - Time p) (f64_sub (Value q) (Value p)) (r # rs)"
  show "encodeDeltaDelta oor (p # q # r # rs) = raw_point p @ raw_point q @ ?t"
    by (simp add: Let_def)
  show "?t \<noteq> []" using encodeVarint_nonempty [of "Time q - Time p"] by simp
qed

lemma Decode_deltadelta:
  assumes "mode e = CompressDeltaDelta"
  shows "Decode e data spare = decodeDeltaDelta data spare"
    and "EncodeBatch oor e ps = encodeDeltaDelta oor ps"
  using assms
  by (auto simp: Decode_def EncodeBatch_def CompressDelta_def CompressDeltaDelta_def decodeDeltaDelta_def)

subsection \<open>Properties\<close>

text \<open>C20: decoding a variable-length integer gives back the encoded 64-bit integer, negative ones
  included, and the encoding has at least one and at most ten bytes.\<close>

theorem varint_roundtrip:
  "decodeVarint (encodeVarint x) = x \<and> 1 \<le> length (encodeVarint x) \<and> length (encodeVarint x) \<le> 10"
  using decode_encodeVarint [of x] encodeVarint_nonempty [of x] length_encodeVarint [of x]
  by (simp only: Suc_le_eq One_nat_def)

text \<open>in raw mode, and in every mode the encoder does not know, decoding an encoded batch gives
  back the batch, value bits (NaN payloads included) unchanged.\<close>

theorem raw_batch_roundtrip:
  assumes "mode e \<noteq> CompressDelta" and "mode e \<noteq> CompressDeltaDelta"
  shows "Decode e (EncodeBatch oor e ps) spare = Inr ps"
proof (cases "ps = []")
  case False
  then have "encodeRaw ps \<noteq> []" by (cases ps) (auto simp: encodeRaw_def)
  with False assms show ?thesis by (simp add: Decode_def EncodeBatch_def decode_encodeRaw)
qed (simp add: Decode_def EncodeBatch_def)

theorem raw_batch_roundtrip_witness:
  "Decode (NewOptimizedEncoder CompressNone)
     (EncodeBatch (\<lambda>_. 0) (NewOptimizedEncoder CompressNone) [\<lparr>Time = 1, Value = 2\<rparr>]) []
   = Inr [\<lparr>Time = 1, Value = 2\<rparr>]"
  by (rule raw_batch_roundtrip)
    (simp_all add: NewOptimizedEncoder_def CompressNone_def CompressDelta_def CompressDeltaDelta_def)

text \<open>the delta encoding keeps the number of points and every timestamp exactly, with
  wrap-around time differences, and the first point with its value; this holds whatever the values
  are.\<close>

theorem delta_times_exact:
  assumes "mode e = CompressDelta"
  shows "\<exists>qs. Decode e (EncodeBatch oor e ps) spare = Inr qs \<and> map Time qs = map Time ps \<and>
    take 1 qs = take 1 ps"
proof (cases ps)
  case (Cons p ps')
  then show ?thesis by (simp add: Decode_delta [OF assms] map_Time_delta_decoded)
qed (simp add: Decode_def EncodeBatch_def)

theorem delta_times_exact_witness:
  "\<exists>qs. Decode (NewOptimizedEncoder CompressDelta)
      (EncodeBatch (\<lambda>_. 0) (NewOptimizedEncoder CompressDelta)
        [\<lparr>Time = 5, Value = 0\<rparr>, \<lparr>Time = 3, Value = 0x7FF8000000000001\<rparr>]) [] = Inr qs \<and>
    map Time qs = map Time [\<lparr>Time = 5, Value = 0\<rparr>, \<lparr>Time = 3, Value = 0x7FF8000000000001\<rparr>] \<and>
    take 1 qs = take 1 [\<lparr>Time = 5, Value = 0\<rparr>, \<lparr>Time = 3, Value = 0x7FF8000000000001\<rparr>]"
  by (rule delta_times_exact) (simp add: NewOptimizedEncoder_def)

text \<open>a batch whose values are all one finite number (not negative zero) comes back from the delta
  encoding exactly.\<close>

theorem delta_constant_exact:
  assumes "mode e = CompressDelta" and "f64_finite v" and "v \<noteq> push_bit 63 1"
    and "\<forall>p \<in> set ps. Value p = v"
  shows "Decode e (EncodeBatch oor e ps) spare = Inr ps"
proof (cases ps)
  case (Cons p ps')
  then have v: "Value p = v" "\<forall>p \<in> set ps'. Value p = v" using assms(4) by auto
  have "delta_decoded oor v v ps' = map (\<lambda>p. p\<lparr>Value := v\<rparr>) ps'"
    by (rule delta_decoded_still) (use assms v still_constant in auto)
  moreover have "map (\<lambda>p. p\<lparr>Value := v\<rparr>) ps' = ps'" using v(2) by (induction ps') auto
  ultimately show ?thesis using Cons v(1) by (simp add: Decode_delta [OF assms(1)])
qed (simp add: Decode_def EncodeBatch_def)

theorem delta_constant_exact_witness:
  "Decode (NewOptimizedEncoder CompressDelta)
     (EncodeBatch (\<lambda>_. 0) (NewOptimizedEncoder CompressDelta)
       [\<lparr>Time = 1, Value = f64_of_int 7\<rparr>, \<lparr>Time = 9, Value = f64_of_int 7\<rparr>]) []
   = Inr [\<lparr>Time = 1, Value = f64_of_int 7\<rparr>, \<lparr>Time = 9, Value = f64_of_int 7\<rparr>]"
  by (rule delta_constant_exact [where v = "f64_of_int 7"])
    (simp_all add: NewOptimizedEncoder_def f64_finite_def fp_eval cong: let_weak_cong)

text \<open>the delta encoder takes every difference from the true previous value, not from the value
  the decoder will have, so rounding errors are never made up: while each step is too small to
  survive \<open>int64(d * 1000)\<close>, the decoded series stays at the first value however far the true one
  moves.\<close>

theorem delta_small_steps_lost:
  assumes "mode e = CompressDelta" and "f64_finite (Value p)" and "Value p \<noteq> push_bit 63 1"
    and "still oor (Value p) ps"
  shows "Decode e (EncodeBatch oor e (p # ps)) spare = Inr (p # map (\<lambda>q. q\<lparr>Value := Value p\<rparr>) ps)"
  by (simp add: Decode_delta [OF assms(1)] delta_decoded_still [OF assms(2-4)])

text \<open>The witness: the values 1, 1.0004, 1.0008, 1.0012 (the last is above the encoder's precision of
  three decimals) are all decoded as 1.\<close>

theorem delta_small_steps_lost_witness:
  "Decode (NewOptimizedEncoder CompressDelta)
     (EncodeBatch (\<lambda>_. 0) (NewOptimizedEncoder CompressDelta)
       [\<lparr>Time = 0, Value = 0x3FF0000000000000\<rparr>, \<lparr>Time = 1, Value = 0x3FF001A36E2EB1C4\<rparr>,
        \<lparr>Time = 2, Value = 0x3FF00346DC5D6388\<rparr>, \<lparr>Time = 3, Value = 0x3FF004EA4A8C154D\<rparr>]) []
   = Inr [\<lparr>Time = 0, Value = 0x3FF0000000000000\<rparr>, \<lparr>Time = 1, Value = 0x3FF0000000000000\<rparr>, \<lparr>Time = 2, Value = 0x3FF0000000000000\<rparr>, \<lparr>Time = 3, Value = 0x3FF0000000000000\<rparr>]"
proof -
  have "still (\<lambda>_. 0) 0x3FF0000000000000 [\<lparr>Time = 1, Value = 0x3FF001A36E2EB1C4\<rparr>,
      \<lparr>Time = 2, Value = 0x3FF00346DC5D6388\<rparr>, \<lparr>Time = 3, Value = 0x3FF004EA4A8C154D\<rparr>]"
    by (simp add: scale1000_def fp_eval cong: let_weak_cong)
  then show ?thesis
    using delta_small_steps_lost
      [of "NewOptimizedEncoder CompressDelta" "\<lparr>Time = 0, Value = 0x3FF0000000000000\<rparr>" "\<lambda>_. 0"
        "[\<lparr>Time = 1, Value = 0x3FF001A36E2EB1C4\<rparr>, \<lparr>Time = 2, Value = 0x3FF00346DC5D6388\<rparr>,
          \<lparr>Time = 3, Value = 0x3FF004EA4A8C154D\<rparr>]" "[]"]
    by (simp add: NewOptimizedEncoder_def f64_finite_def inf_mag_def)
qed

text \<open>the delta-delta mode is exact for two points; one point is lost (the decoder wants the two
  points that the encoder writes only if it has them). From three points on its decoder does
  not read what the encoder wrote (the first differences are written with variable length but read
  as eight bytes each): while the whole encoding has at most 48 bytes, decoding it panics when the
  backing array ends before byte 48, and otherwise returns the first two points only.\<close>

theorem deltadelta_loses_points:
  assumes "mode e = CompressDeltaDelta"
  shows "(length ps \<le> 2 \<longrightarrow> Decode e (EncodeBatch oor e ps) spare =
            (if length ps = 1 then Inr [] else Inr ps)) \<and>
    (3 \<le> length ps \<and> length (EncodeBatch oor e ps) \<le> 48 \<longrightarrow>
      Decode e (EncodeBatch oor e ps) spare =
        (if length (EncodeBatch oor e ps) + length spare < 48 then Inl SliceBounds
         else Inr (take 2 ps)))"
proof -
  consider "ps = []" | p where "ps = [p]" | p q where "ps = [p, q]"
    | p q r rs where "ps = p # q # r # rs"
    by (metis neq_Nil_conv)
  then show ?thesis
  proof cases
    case 1
    then show ?thesis by (simp add: Decode_deltadelta [OF assms] decodeDeltaDelta_def)
  next
    case 2
    then show ?thesis by (simp add: Decode_deltadelta [OF assms] decodeDeltaDelta_def)
  next
    case 3
    then show ?thesis by (simp add: Decode_deltadelta [OF assms] decodeDeltaDelta_two)
  next
    case 4
    then obtain t where t: "encodeDeltaDelta oor ps = raw_point p @ raw_point q @ t" "t \<noteq> []"
      by (metis encodeDeltaDelta_three)
    with 4 show ?thesis
      using decodeDeltaDelta_at_most_48 [of "raw_point p @ raw_point q @ t" spare]
      by (simp add: Decode_deltadelta [OF assms] get_raw_two)
  qed
qed

theorem deltadelta_loses_points_witness:
  "Decode (NewOptimizedEncoder CompressDeltaDelta)
     (EncodeBatch (\<lambda>_. 0) (NewOptimizedEncoder CompressDeltaDelta) [\<lparr>Time = 1, Value = 2\<rparr>]) []
   = Inr []"
  using deltadelta_loses_points
    [of "NewOptimizedEncoder CompressDeltaDelta" "[\<lparr>Time = 1, Value = 2\<rparr>]" "\<lambda>_. 0" "[]"]
  by (simp add: NewOptimizedEncoder_def)

end
