(* ===== verification/Index_File.thy ===== *)
theory Index_File
  imports Endian
begin

text \<open>
  The index entries of \<open>tffiles/writer.go\<close>, the 36 bytes \<open>flush\<close> appends for each, and
  \<open>readIndex\<close> of \<open>tffiles/storage.go\<close>, which reads 36-byte and old 32-byte entries and tells them
  apart by the size of the file alone.
\<close>

record index_entry =
  StartTime :: i64
  EndTime :: i64
  Offset :: i64
  Length :: i64
  CRC32 :: u32

definition encode_entry :: "index_entry \<Rightarrow> bytes" where
  "encode_entry idx =
     put_le64 (StartTime idx) @ put_le64 (EndTime idx) @ put_le64 (Offset idx)
       @ put_le64 (Length idx) @ put_le32 (CRC32 idx)"

text \<open>The 32-byte entry of the old format: no checksum.\<close>

definition encode_old_entry :: "index_entry \<Rightarrow> bytes" where
  "encode_old_entry idx =
     put_le64 (StartTime idx) @ put_le64 (EndTime idx) @ put_le64 (Offset idx)
       @ put_le64 (Length idx)"

definition get_entry :: "nat \<Rightarrow> bytes \<Rightarrow> index_entry" where
  "get_entry entrySize bs =
     \<lparr>StartTime = get_le64 bs, EndTime = get_le64 (drop 8 bs), Offset = get_le64 (drop 16 bs),
      Length = get_le64 (drop 24 bs),
      CRC32 = (if entrySize = 36 then get_le32 (drop 32 bs) else 0)\<rparr>"

definition entry_size :: "bytes \<Rightarrow> nat" where
  "entry_size data = (if length data mod 32 = 0 \<and> length data mod 36 \<noteq> 0 then 32 else 36)"

text \<open>The loop \<open>for i := 0; i+entrySize <= len(data); i += entrySize\<close> visits the offsets
  \<open>k * entrySize\<close> for \<open>k < len(data) / entrySize\<close>.\<close>

definition readIndex_data :: "bytes \<Rightarrow> index_entry list" where
  "readIndex_data data =
     (let es = entry_size data
      in map (\<lambda>k. get_entry es (drop (k * es) data)) [0..<length data div es])"

interpretation entry: fixed_codec encode_entry "get_entry 36" 36
proof
  fix idx :: index_entry and rest
  show "length (encode_entry idx) = 36" by (simp add: encode_entry_def)
  show "get_entry 36 (encode_entry idx @ rest) = idx"
    by (simp add: encode_entry_def get_entry_def)
qed

text \<open>The old codec reads back everything but the checksum; as a codec on its own it is exact on
  entries whose checksum is zero.\<close>

lemma get_old_entry:
  "get_entry 32 (encode_old_entry idx @ rest) = idx\<lparr>CRC32 := 0\<rparr>"
  by (simp add: encode_old_entry_def get_entry_def)

lemma length_encode_old_entry [simp]: "length (encode_old_entry idx) = 32"
  by (simp add: encode_old_entry_def)

lemma length_old_entries: "length (concat (map encode_old_entry idxs)) = length idxs * 32"
  by (rule length_concat_map_const) simp

lemma entry_size_new: "length data = n * 36 \<Longrightarrow> entry_size data = 36"
  by (simp add: entry_size_def)

lemma entry_size_old: "length data = n * 32 \<Longrightarrow> entry_size data = (if 9 dvd n then 36 else 32)"
proof -
  assume l: "length data = n * 32"
  have "length data mod 36 = 0 \<longleftrightarrow> 9 dvd n"
    unfolding l by presburger
  with l show ?thesis by (simp add: entry_size_def)
qed

lemma readIndex_encode:
  "readIndex_data (concat (map encode_entry idxs)) = idxs"
  using entry.get_records [of idxs "[]"] entry.length_records [of idxs]
  by (simp add: readIndex_data_def Let_def entry_size_new)

lemma get_old_record:
  assumes "k < length idxs"
  shows "get_entry 32 (drop (k * 32) (concat (map encode_old_entry idxs))) = (idxs ! k)\<lparr>CRC32 := 0\<rparr>"
proof -
  define l where "l = concat (map encode_old_entry (take k idxs))"
  have "concat (map encode_old_entry idxs)
      = l @ encode_old_entry (idxs ! k) @ concat (map encode_old_entry (drop (Suc k) idxs))"
    by (subst id_take_nth_drop [OF assms]) (simp add: l_def)
  moreover have "length l = k * 32" using assms by (simp add: l_def length_old_entries)
  ultimately show ?thesis by (simp add: get_old_entry)
qed

subsection \<open>Properties\<close>

text \<open>reading an index file of appended 36-byte entries gives back the entries in order, whatever
  their number and their fields; a partial entry at the end that leaves the size no multiple of 32
  is ignored.\<close>

theorem readIndex_roundtrip:
  assumes "length tail < 36" and "tail = [] \<or> (36 * length idxs + length tail) mod 32 \<noteq> 0"
  shows "readIndex_data (concat (map encode_entry idxs) @ tail) = idxs"
proof -
  let ?d = "concat (map encode_entry idxs) @ tail"
  have l: "length ?d = length idxs * 36 + length tail"
    by (simp add: entry.length_records)
  have es: "entry_size ?d = 36"
    using assms(2) l by (auto simp: entry_size_def mult.commute)
  have "length ?d div 36 = length idxs" using assms(1) unfolding l by simp
  then show ?thesis
    using entry.get_records [of idxs tail]
    by (simp add: readIndex_data_def Let_def es del: length_append drop_append)
qed

theorem readIndex_roundtrip_witness:
  "readIndex_data (concat (map encode_entry
      [\<lparr>StartTime = 1, EndTime = 2, Offset = 0, Length = 14, CRC32 = 7\<rparr>]) @ [1, 2, 3])
   = [\<lparr>StartTime = 1, EndTime = 2, Offset = 0, Length = 14, CRC32 = 7\<rparr>]"
  by (rule readIndex_roundtrip) simp_all

text \<open>an index file of old 32-byte entries is read back, with zero checksums, exactly when the
  number of entries is not a multiple of nine; nine entries, for one, are read as eight 36-byte
  entries.\<close>

theorem readIndex_old_format:
  "(\<not> 9 dvd length idxs \<longrightarrow>
      readIndex_data (concat (map encode_old_entry idxs)) = map (\<lambda>idx. idx\<lparr>CRC32 := 0\<rparr>) idxs) \<and>
   (9 dvd length idxs \<longrightarrow>
      length (readIndex_data (concat (map encode_old_entry idxs))) = length idxs div 9 * 8)"
proof -
  let ?d = "concat (map encode_old_entry idxs)"
  have l: "length ?d = length idxs * 32" by (rule length_old_entries)
  have "readIndex_data ?d = map (\<lambda>idx. idx\<lparr>CRC32 := 0\<rparr>) idxs" if "\<not> 9 dvd length idxs"
    using that l get_old_record [of _ idxs]
    by (intro nth_equalityI) (simp_all add: readIndex_data_def Let_def entry_size_old [OF l])
  moreover have "length (readIndex_data ?d) = length idxs div 9 * 8" if "9 dvd length idxs"
    using that l by (auto simp: readIndex_data_def Let_def entry_size_old [OF l])
  ultimately show ?thesis by blast
qed

theorem readIndex_old_format_witness:
  "length (readIndex_data (concat (map encode_old_entry
     (replicate 9 \<lparr>StartTime = 1, EndTime = 2, Offset = 0, Length = 14, CRC32 = 0\<rparr>)))) = 8"
  using readIndex_old_format
    [of "replicate 9 \<lparr>StartTime = 1, EndTime = 2, Offset = 0, Length = 14, CRC32 = 0\<rparr>"]
  by simp

end
