(* ===== verification/Crc32.thy ===== *)
theory Crc32
  imports Prelude
begin

unbundle bit_operations_syntax

text \<open>
  \<open>hash/crc32\<close>, \<open>ChecksumIEEE\<close>: the reflected polynomial \<open>0xEDB88320\<close>, one bit at a time.
\<close>

definition crc32_bit :: "u32 \<Rightarrow> u32" where
  "crc32_bit c = (if bit c 0 then drop_bit 1 c XOR 0xEDB88320 else drop_bit 1 c)"

definition crc32_byte :: "u32 \<Rightarrow> byte \<Rightarrow> u32" where
  "crc32_byte c b = (crc32_bit ^^ 8) (c XOR ucast b)"

definition ChecksumIEEE :: "bytes \<Rightarrow> u32" where
  "ChecksumIEEE bs = foldl crc32_byte 0xFFFFFFFF bs XOR 0xFFFFFFFF"

lemma crc32_byte_eval:
  "crc32_byte c b = crc32_bit (crc32_bit (crc32_bit (crc32_bit (crc32_bit (crc32_bit (crc32_bit
     (crc32_bit (c XOR ucast b))))))))"
  by (simp add: crc32_byte_def eval_nat_numeral)

lemma crc32_bit_numeral [simp]:
  "crc32_bit (numeral (num.Bit0 k)) = drop_bit 1 (numeral (num.Bit0 k))"
  "crc32_bit (numeral (num.Bit1 k)) = drop_bit 1 (numeral (num.Bit1 k)) XOR 0xEDB88320"
  "crc32_bit 0 = 0" "crc32_bit 1 = 0xEDB88320"
  by (simp_all add: crc32_bit_def bit_0)

text \<open>The check value of the algorithm: the checksum of the ASCII digits 1 to 9.\<close>

lemma ChecksumIEEE_check:
  "ChecksumIEEE [0x31, 0x32, 0x33, 0x34, 0x35, 0x36, 0x37, 0x38, 0x39] = 0xCBF43926"
  by (simp add: ChecksumIEEE_def crc32_byte_eval)

end
