(* ===== verification/File_System.thy ===== *)
theory File_System
  imports Prelude
begin

text \<open>
  The part of the operating system's file system that the storage engine uses (package \<open>os\<close>):
  names that refer to files, files that outlive their names while a handle is open, appending
  through a handle, removing, renaming over an existing name, and reading a whole file. A handle
  is the number of its file. \<open>denied\<close> are the paths that the system refuses to open, which stands
  for every reason an open can fail.
\<close>

record file_system =
  names :: "(string \<times> nat) list"
  content :: "nat \<Rightarrow> bytes"
  next_file :: nat
  denied :: "string \<Rightarrow> bool"

definition empty_fs :: file_system where
  "empty_fs = \<lparr>names = [], content = (\<lambda>_. []), next_file = 0, denied = (\<lambda>_. False)\<rparr>"

definition lookup :: "file_system \<Rightarrow> string \<Rightarrow> nat option" where
  "lookup fs path = map_of (names fs) path"

text \<open>\<open>os.OpenFile(path, O_CREATE|O_APPEND|O_WRONLY, ..)\<close>; \<^const>\<open>None\<close> is an error.\<close>

definition open_append :: "file_system \<Rightarrow> string \<Rightarrow> (file_system \<times> nat) option" where
  "open_append fs path =
     (if denied fs path then None
      else case lookup fs path of
        Some f \<Rightarrow> Some (fs, f)
      | None \<Rightarrow>
          Some (fs\<lparr>names := (path, next_file fs) # names fs,
                   content := (content fs)(next_file fs := []),
                   next_file := Suc (next_file fs)\<rparr>, next_file fs))"

definition append_file :: "file_system \<Rightarrow> nat \<Rightarrow> bytes \<Rightarrow> file_system" where
  "append_file fs f bs = fs\<lparr>content := (content fs)(f := content fs f @ bs)\<rparr>"

text \<open>\<open>os.ReadFile\<close>, and \<open>os.Open\<close> followed by reads; \<^const>\<open>None\<close> is an error.\<close>

definition read_file :: "file_system \<Rightarrow> string \<Rightarrow> bytes option" where
  "read_file fs path = (if denied fs path then None else map_option (content fs) (lookup fs path))"

text \<open>\<open>os.Remove\<close>; the flag says that it succeeded.\<close>

definition remove_file :: "file_system \<Rightarrow> string \<Rightarrow> file_system \<times> bool" where
  "remove_file fs path =
     (fs\<lparr>names := filter (\<lambda>(q, _). q \<noteq> path) (names fs)\<rparr>, lookup fs path \<noteq> None)"

text \<open>\<open>os.RemoveAll\<close>: the path and everything below it.\<close>

definition below :: "string \<Rightarrow> string \<Rightarrow> bool" where
  "below path q \<longleftrightarrow> q = path \<or> take (Suc (length path)) q = path @ ''/''"

definition remove_all :: "file_system \<Rightarrow> string \<Rightarrow> file_system" where
  "remove_all fs path = fs\<lparr>names := filter (\<lambda>(q, _). \<not> below path q) (names fs)\<rparr>"

text \<open>\<open>os.Rename\<close> replaces the destination.\<close>

definition rename_file :: "file_system \<Rightarrow> string \<Rightarrow> string \<Rightarrow> file_system \<times> bool" where
  "rename_file fs src dst =
     (case lookup fs src of
        None \<Rightarrow> (fs, False)
      | Some f \<Rightarrow>
          (fs\<lparr>names := (dst, f) # filter (\<lambda>(q, _). q \<noteq> src \<and> q \<noteq> dst) (names fs)\<rparr>, True))"

text \<open>\<open>os.WriteFile\<close> truncates an existing file; \<^const>\<open>None\<close> is an error.\<close>

definition write_file :: "file_system \<Rightarrow> string \<Rightarrow> bytes \<Rightarrow> file_system option" where
  "write_file fs path bs =
     map_option (\<lambda>(fs', f). fs'\<lparr>content := (content fs')(f := bs)\<rparr>) (open_append fs path)"

text \<open>Every name refers to a file that was created, and no file has two names.\<close>

definition fs_ok :: "file_system \<Rightarrow> bool" where
  "fs_ok fs \<longleftrightarrow>
     distinct (map fst (names fs)) \<and> distinct (map snd (names fs)) \<and>
     (\<forall>f \<in> set (map snd (names fs)). f < next_file fs)"

subsection \<open>What the operations promise\<close>

lemma lookup_empty [simp]: "lookup empty_fs path = None"
  by (simp add: lookup_def empty_fs_def)

lemma fs_ok_empty: "fs_ok empty_fs"
  by (simp add: fs_ok_def empty_fs_def)

lemma lookup_append_file [simp]: "lookup (append_file fs f bs) = lookup fs"
  by (simp add: lookup_def append_file_def fun_eq_iff)

lemma content_append_file [simp]:
  "content (append_file fs f bs) g = (if g = f then content fs f @ bs else content fs g)"
  by (simp add: append_file_def)

lemma fs_ok_append_file [simp]: "fs_ok (append_file fs f bs) = fs_ok fs"
  by (simp add: fs_ok_def append_file_def)

lemma next_file_append_file [simp]: "next_file (append_file fs f bs) = next_file fs"
  by (simp add: append_file_def)

lemma lookup_less:
  "fs_ok fs \<Longrightarrow> lookup fs path = Some f \<Longrightarrow> f < next_file fs"
  by (force simp: lookup_def fs_ok_def dest!: map_of_SomeD)

lemma lookup_inj:
  "fs_ok fs \<Longrightarrow> lookup fs p = Some f \<Longrightarrow> lookup fs q = Some f \<Longrightarrow> p = q"
  by (auto simp: lookup_def fs_ok_def dest!: map_of_SomeD)
    (metis distinct_map inj_onD snd_conv prod.inject)

lemma open_append_lookup:
  "open_append fs path = Some (fs', f) \<Longrightarrow>
     lookup fs' q = (if q = path then Some f else lookup fs q)"
  by (auto simp: open_append_def lookup_def split: option.splits if_splits)

lemma open_append_content:
  "open_append fs path = Some (fs', f) \<Longrightarrow>
     content fs' f = (case lookup fs path of None \<Rightarrow> [] | Some _ \<Rightarrow> content fs f) \<and>
     (\<forall>g. g \<noteq> f \<longrightarrow> content fs' g = content fs g) \<and> next_file fs \<le> next_file fs'"
  by (auto simp: open_append_def split: option.splits if_splits)

lemma fs_ok_open_append:
  assumes "fs_ok fs" and "open_append fs path = Some (fs', f)"
  shows "fs_ok fs' \<and> f < next_file fs'"
proof (cases "lookup fs path")
  case None
  then have "path \<notin> fst ` set (names fs)" by (simp add: lookup_def map_of_eq_None_iff)
  with None assms show ?thesis
    by (fastforce simp: open_append_def fs_ok_def split: if_splits)
next
  case (Some g)
  with assms lookup_less show ?thesis by (auto simp: open_append_def split: if_splits)
qed

lemma map_of_filter_neq:
  "map_of (filter (\<lambda>(q, _). P q) xs) p = (if P p then map_of xs p else None)"
  by (induction xs) auto

lemma lookup_remove_file:
  "lookup (fst (remove_file fs path)) q = (if q = path then None else lookup fs q)"
  by (simp add: remove_file_def lookup_def map_of_filter_neq)

lemma lookup_remove_all: "lookup (remove_all fs path) q = (if below path q then None else lookup fs q)"
  by (simp add: remove_all_def lookup_def map_of_filter_neq)

lemma content_remove_file [simp]: "content (fst (remove_file fs path)) = content fs"
  by (simp add: remove_file_def)

lemma lookup_rename_file:
  "lookup fs src = Some f \<Longrightarrow>
    lookup (fst (rename_file fs src dst)) q =
      (if q = dst then Some f else if q = src then None else lookup fs q)"
  by (simp add: rename_file_def lookup_def map_of_filter_neq)

lemma content_rename_file [simp]: "content (fst (rename_file fs src dst)) = content fs"
  by (simp add: rename_file_def split: option.split)

lemma fs_ok_remove_file: "fs_ok fs \<Longrightarrow> fs_ok (fst (remove_file fs path))"
  by (auto simp: fs_ok_def remove_file_def distinct_map_filter)

lemma fs_ok_rename_file: "fs_ok fs \<Longrightarrow> fs_ok (fst (rename_file fs src dst))"
proof (cases "lookup fs src")
  case (Some f)
  assume ok: "fs_ok fs"
  have "(q, f) \<notin> set (names fs)" if "q \<noteq> src" for q
    using ok Some lookup_inj [OF ok, of q f src] that by (auto simp: lookup_def fs_ok_def)
  with ok Some lookup_less [OF ok Some] show ?thesis
    by (auto simp: fs_ok_def rename_file_def distinct_map_filter)
qed (simp add: rename_file_def)

lemma denied_append_file [simp]: "denied (append_file fs f bs) = denied fs"
  by (simp add: append_file_def)

lemma read_append_file:
  "read_file (append_file fs f bs) path =
    (if lookup fs path = Some f then map_option (\<lambda>old. old @ bs) (read_file fs path)
     else read_file fs path)"
  by (cases "lookup fs path") (auto simp: read_file_def)

end
