(* ===== verification/Day_Writer.thy ===== *)
theory Day_Writer
  imports Simple_Point Index_File Crc32 File_System
begin

text \<open>
  \<open>tffiles/writer.go\<close>: the writer of one day file. Clients append points to a buffer; one
  goroutine (\<open>flushLoop\<close>) takes the buffer, encodes it as a block with a checksum, compresses it
  when it is large, appends it to the data file and then appends an index entry to the index file.

  The compressor is a third-party package: \<open>zenc\<close> is \<open>EncodeAll\<close> at a level. The operations on
  the writer's state come first, each as the code has it; then the goroutines' interleaving as a
  step relation \<open>wstep\<close>; then the abstract log that the steps refine.
\<close>

subsection \<open>Configuration and compression level\<close>

record storage_config =
  DataDir :: string
  HotDays :: int
  RetentionDays :: int
  CompressLevel :: int
  IndexInterval :: int
  MaxMemoryMB :: int

datatype zstd_level = SpeedFastest | SpeedDefault | SpeedBetterCompression | SpeedBestCompression

definition encoder_level :: "int \<Rightarrow> zstd_level" where
  "encoder_level l =
     (if l = 1 then SpeedFastest
      else if l \<in> {2, 3} then SpeedDefault
      else if l \<in> {4, 5, 6} then SpeedBetterCompression
      else if l \<in> {7, 8, 9} then SpeedBestCompression
      else SpeedDefault)"

type_synonym compressor = "zstd_level \<Rightarrow> bytes \<Rightarrow> bytes"

subsection \<open>State\<close>

text \<open>\<open>dataFile\<close> (the field \<open>file\<close>) and \<open>idxFile\<close> are handles. \<open>flushChan\<close> says whether the channel of capacity one holds
  a signal, \<open>closeChan\<close> whether that channel is closed.\<close>

record day_writer =
  dataFile :: nat
  idxFile :: nat
  path :: string
  config :: storage_config
  deviceID :: string
  date :: int
  buffer :: "simple_point list"
  indexes :: "index_entry list"
  currentOffset :: i64
  flushChan :: bool
  closeChan :: bool
  encoder :: zstd_level
  batchSize :: nat

text \<open>\<^const>\<open>None\<close> is an error; when only the index file cannot be opened, the data file has been
  created all the same.\<close>

definition NewDayWriter ::
    "file_system \<Rightarrow> string \<Rightarrow> storage_config \<Rightarrow> string \<Rightarrow> int \<Rightarrow> file_system \<times> day_writer option" where
  "NewDayWriter fs filePath cfg dev dt =
     (case open_append fs filePath of
        None \<Rightarrow> (fs, None)
      | Some (fs1, f) \<Rightarrow>
          (case open_append fs1 (filePath @ ''.idx'') of
             None \<Rightarrow> (fs1, None)
           | Some (fs2, g) \<Rightarrow>
               (fs2, Some \<lparr>dataFile = f, idxFile = g, path = filePath, config = cfg, deviceID = dev,
                  date = dt, buffer = [], indexes = [],
                  currentOffset = of_nat (length (content fs2 f)),
                  flushChan = False, closeChan = False,
                  encoder = encoder_level (CompressLevel cfg), batchSize = 1000\<rparr>)))"

definition WriteBatch :: "day_writer \<Rightarrow> simple_point list \<Rightarrow> day_writer" where
  "WriteBatch w points =
     (if length points = 0 then w
      else let w1 = w\<lparr>buffer := buffer w @ points\<rparr>
           in if batchSize w1 \<le> length (buffer w1) then w1\<lparr>flushChan := True\<rparr> else w1)"

subsection \<open>flush\<close>

definition block_raw :: "simple_point list \<Rightarrow> bytes" where
  "block_raw points = concat (map EncodeSimplePoint points)"

definition dataWithCRC :: "simple_point list \<Rightarrow> bytes" where
  "dataWithCRC points = block_raw points @ put_le32 (ChecksumIEEE (block_raw points))"

definition dataToWrite :: "compressor \<Rightarrow> storage_config \<Rightarrow> zstd_level \<Rightarrow> simple_point list \<Rightarrow> bytes" where
  "dataToWrite zenc cfg lvl points =
     (if IndexInterval cfg \<le> int (length (block_raw points))
      then zenc lvl (dataWithCRC points) else dataWithCRC points)"

text \<open>The part of \<open>flush\<close> under \<open>bufferMu\<close>: \<^const>\<open>None\<close> is the early return.\<close>

definition take_buffer :: "day_writer \<Rightarrow> (simple_point list \<times> day_writer) option" where
  "take_buffer w = (if length (buffer w) = 0 then None else Some (buffer w, w\<lparr>buffer := []\<rparr>))"

text \<open>The outcome of a write to a file: complete, or an error after so many bytes.\<close>

datatype io_result = IoOk | IoFail nat

definition written :: "io_result \<Rightarrow> bytes \<Rightarrow> bytes" where
  "written r bs = (case r of IoOk \<Rightarrow> bs | IoFail k \<Rightarrow> take k bs)"

definition write_data ::
    "compressor \<Rightarrow> io_result \<Rightarrow> file_system \<Rightarrow> day_writer \<Rightarrow> simple_point list
      \<Rightarrow> file_system \<times> index_entry option" where
  "write_data zenc r fs w points =
     (let bs = written r (dataToWrite zenc (config w) (encoder w) points);
          fs' = append_file fs (dataFile w) bs
      in case r of
           IoFail _ \<Rightarrow> (fs', None)
         | IoOk \<Rightarrow>
             (fs', Some \<lparr>StartTime = Timestamp (hd points),
                         EndTime = Timestamp (points ! (length points - 1)),
                         Offset = currentOffset w, Length = of_nat (length bs),
                         CRC32 = ChecksumIEEE (block_raw points)\<rparr>))"

text \<open>The error of the write to the index file is ignored by the code.\<close>

definition write_index ::
    "io_result \<Rightarrow> file_system \<Rightarrow> day_writer \<Rightarrow> index_entry \<Rightarrow> file_system \<times> day_writer" where
  "write_index r fs w idx =
     (append_file fs (idxFile w) (written r (encode_entry idx)),
      w\<lparr>indexes := indexes w @ [idx], currentOffset := currentOffset w + Length idx\<rparr>)"

definition flush ::
    "compressor \<Rightarrow> io_result \<Rightarrow> io_result \<Rightarrow> file_system \<Rightarrow> day_writer \<Rightarrow> file_system \<times> day_writer" where
  "flush zenc rd ri fs w =
     (case take_buffer w of
        None \<Rightarrow> (fs, w)
      | Some (points, w1) \<Rightarrow>
          (case write_data zenc rd fs w1 points of
             (fs1, None) \<Rightarrow> (fs1, w1)
           | (fs1, Some idx) \<Rightarrow> write_index ri fs1 w1 idx))"

text \<open>\<open>Close\<close>: closing the channel twice panics; the goroutine then flushes once more and returns.\<close>

definition Close ::
    "compressor \<Rightarrow> io_result \<Rightarrow> io_result \<Rightarrow> file_system \<Rightarrow> day_writer \<Rightarrow> (file_system \<times> day_writer) go" where
  "Close zenc rd ri fs w =
     (if closeChan w then Inl ClosedChannel else Inr (flush zenc rd ri fs (w\<lparr>closeChan := True\<rparr>)))"

definition GetBufferSize :: "day_writer \<Rightarrow> nat" where
  "GetBufferSize w = length (buffer w)"

definition GetIndexCount :: "day_writer \<Rightarrow> nat" where
  "GetIndexCount w = length (indexes w)"

definition GetFileSize :: "file_system \<Rightarrow> day_writer \<Rightarrow> nat" where
  "GetFileSize fs w = length (content fs (dataFile w))"

subsection \<open>The goroutines as a step relation\<close>

text \<open>Where \<open>flushLoop\<close> stands: in its \<open>select\<close>; in \<open>flush\<close> with the points it took, before the
  write to the data file; between the two writes; returned. The flag says that this is the flush
  after \<open>closeChan\<close>, after which it returns.\<close>

datatype loop_pc =
    Selecting
  | Writing "simple_point list" bool
  | Indexing index_entry bool
  | Returned

record wsys =
  sysfs :: file_system
  wr :: day_writer
  pc :: loop_pc

datatype wevent =
    Batch "simple_point list"
  | FlushSignal
  | Tick
  | CloseCall
  | CloseSeen
  | DataWrite io_result
  | IndexWrite io_result

definition after_flush :: "bool \<Rightarrow> loop_pc" where
  "after_flush final = (if final then Returned else Selecting)"

definition begin_flush :: "bool \<Rightarrow> wsys \<Rightarrow> wsys" where
  "begin_flush final s =
     (case take_buffer (wr s) of
        None \<Rightarrow> s\<lparr>pc := after_flush final\<rparr>
      | Some (points, w) \<Rightarrow> s\<lparr>wr := w, pc := Writing points final\<rparr>)"

inductive wstep :: "compressor \<Rightarrow> wsys \<Rightarrow> wevent \<Rightarrow> wsys \<Rightarrow> bool" for zenc where
  batch: "wstep zenc s (Batch points) (s\<lparr>wr := WriteBatch (wr s) points\<rparr>)"
| flush_signal: "pc s = Selecting \<Longrightarrow> flushChan (wr s) \<Longrightarrow>
    wstep zenc s FlushSignal (begin_flush False (s\<lparr>wr := (wr s)\<lparr>flushChan := False\<rparr>\<rparr>))"
| tick: "pc s = Selecting \<Longrightarrow> wstep zenc s Tick (begin_flush False s)"
| close_call: "\<not> closeChan (wr s) \<Longrightarrow> wstep zenc s CloseCall (s\<lparr>wr := (wr s)\<lparr>closeChan := True\<rparr>\<rparr>)"
| close_seen: "pc s = Selecting \<Longrightarrow> closeChan (wr s) \<Longrightarrow> wstep zenc s CloseSeen (begin_flush True s)"
| data_write: "pc s = Writing points final \<Longrightarrow>
    write_data zenc r (sysfs s) (wr s) points = (fs', entry) \<Longrightarrow>
    wstep zenc s (DataWrite r)
      (s\<lparr>sysfs := fs', pc := (case entry of None \<Rightarrow> after_flush final
                                     | Some idx \<Rightarrow> Indexing idx final)\<rparr>)"
| index_write: "pc s = Indexing idx final \<Longrightarrow>
    write_index r (sysfs s) (wr s) idx = (fs', w') \<Longrightarrow>
    wstep zenc s (IndexWrite r) (s\<lparr>sysfs := fs', wr := w', pc := after_flush final\<rparr>)"

inductive wrun :: "compressor \<Rightarrow> wsys \<Rightarrow> wevent list \<Rightarrow> wsys \<Rightarrow> bool" for zenc where
  start: "wrun zenc s [] s"
| step: "wrun zenc s es t \<Longrightarrow> wstep zenc t e u \<Longrightarrow> wrun zenc s (es @ [e]) u"

inductive_simps wstep_simps:
  "wstep zenc s (Batch points) t" "wstep zenc s FlushSignal t" "wstep zenc s Tick t"
  "wstep zenc s CloseCall t" "wstep zenc s CloseSeen t"
  "wstep zenc s (DataWrite r) t" "wstep zenc s (IndexWrite r) t"

text \<open>The steps as a function: the event and the outcome of the write determine the next state.\<close>

fun wexec :: "compressor \<Rightarrow> wsys \<Rightarrow> wevent \<Rightarrow> wsys option" where
  "wexec zenc s (Batch points) = Some (s\<lparr>wr := WriteBatch (wr s) points\<rparr>)"
| "wexec zenc s FlushSignal =
     (if pc s = Selecting \<and> flushChan (wr s)
      then Some (begin_flush False (s\<lparr>wr := (wr s)\<lparr>flushChan := False\<rparr>\<rparr>)) else None)"
| "wexec zenc s Tick = (if pc s = Selecting then Some (begin_flush False s) else None)"
| "wexec zenc s CloseCall =
     (if closeChan (wr s) then None else Some (s\<lparr>wr := (wr s)\<lparr>closeChan := True\<rparr>\<rparr>))"
| "wexec zenc s CloseSeen =
     (if pc s = Selecting \<and> closeChan (wr s) then Some (begin_flush True s) else None)"
| "wexec zenc s (DataWrite r) =
     (case pc s of
        Writing points final \<Rightarrow>
          (case write_data zenc r (sysfs s) (wr s) points of
             (fs', None) \<Rightarrow> Some (s\<lparr>sysfs := fs', pc := after_flush final\<rparr>)
           | (fs', Some idx) \<Rightarrow> Some (s\<lparr>sysfs := fs', pc := Indexing idx final\<rparr>))
      | _ \<Rightarrow> None)"
| "wexec zenc s (IndexWrite r) =
     (case pc s of
        Indexing idx final \<Rightarrow>
          (case write_index r (sysfs s) (wr s) idx of
             (fs', w') \<Rightarrow> Some (s\<lparr>sysfs := fs', wr := w', pc := after_flush final\<rparr>))
      | _ \<Rightarrow> None)"

lemma wstep_iff_wexec: "wstep zenc s e t \<longleftrightarrow> wexec zenc s e = Some t"
  by (cases e) (auto simp: wstep_simps split: loop_pc.splits prod.splits option.splits)

fun wexecs :: "compressor \<Rightarrow> wsys \<Rightarrow> wevent list \<Rightarrow> wsys option" where
  "wexecs zenc s [] = Some s"
| "wexecs zenc s (e # es) = Option.bind (wexec zenc s e) (\<lambda>t. wexecs zenc t es)"

lemma wexecs_snoc: "wexecs zenc s (es @ [e]) = Option.bind (wexecs zenc s es) (\<lambda>t. wexec zenc t e)"
  by (induction es arbitrary: s) (auto split: bind_splits)

lemma wrun_iff_wexecs: "wrun zenc s es t \<longleftrightarrow> wexecs zenc s es = Some t"
proof
  show "wrun zenc s es t \<Longrightarrow> wexecs zenc s es = Some t"
    by (induction rule: wrun.induct) (simp_all add: wexecs_snoc wstep_iff_wexec)
  show "wexecs zenc s es = Some t \<Longrightarrow> wrun zenc s es t"
    by (induction es arbitrary: t rule: rev_induct)
      (auto simp: wexecs_snoc bind_eq_Some_conv wstep_iff_wexec intro: wrun.intros)
qed

subsection \<open>The abstract log\<close>

text \<open>What a writer promises: the points handed to \<open>WriteBatch\<close> are in the committed blocks, in the
  block being written, or pending, in the order they were handed over.\<close>

record alog =
  committed :: "simple_point list list"
  inflight :: "simple_point list"
  pending :: "simple_point list"

definition empty_log :: alog where
  "empty_log = \<lparr>committed = [], inflight = [], pending = []\<rparr>"

fun astep :: "alog \<Rightarrow> wevent \<Rightarrow> alog" where
  "astep a (Batch points) = a\<lparr>pending := pending a @ points\<rparr>"
| "astep a FlushSignal = a\<lparr>inflight := pending a, pending := []\<rparr>"
| "astep a Tick = a\<lparr>inflight := pending a, pending := []\<rparr>"
| "astep a CloseSeen = a\<lparr>inflight := pending a, pending := []\<rparr>"
| "astep a (IndexWrite r) = a\<lparr>committed := committed a @ [inflight a], inflight := []\<rparr>"
| "astep a (DataWrite r) = a"
| "astep a CloseCall = a"

definition log_points :: "alog \<Rightarrow> simple_point list" where
  "log_points a = concat (committed a) @ inflight a @ pending a"

fun event_points :: "wevent \<Rightarrow> simple_point list" where
  "event_points (Batch points) = points"
| "event_points _ = []"

fun event_ok :: "wevent \<Rightarrow> bool" where
  "event_ok (DataWrite r) = (r = IoOk)"
| "event_ok (IndexWrite r) = (r = IoOk)"
| "event_ok _ = True"

subsection \<open>The files of a log\<close>

definition block_entry :: "(simple_point list \<Rightarrow> bytes) \<Rightarrow> nat \<Rightarrow> simple_point list \<Rightarrow> index_entry" where
  "block_entry bb off points =
     \<lparr>StartTime = Timestamp (hd points), EndTime = Timestamp (last points),
      Offset = of_nat off, Length = of_nat (length (bb points)),
      CRC32 = ChecksumIEEE (block_raw points)\<rparr>"

fun log_entries :: "(simple_point list \<Rightarrow> bytes) \<Rightarrow> nat \<Rightarrow> simple_point list list \<Rightarrow> index_entry list" where
  "log_entries bb off [] = []"
| "log_entries bb off (b # bs) = block_entry bb off b # log_entries bb (off + length (bb b)) bs"

definition log_data :: "(simple_point list \<Rightarrow> bytes) \<Rightarrow> simple_point list list \<Rightarrow> bytes" where
  "log_data bb blocks = concat (map bb blocks)"

definition log_index :: "(simple_point list \<Rightarrow> bytes) \<Rightarrow> nat \<Rightarrow> simple_point list list \<Rightarrow> bytes" where
  "log_index bb off blocks = concat (map encode_entry (log_entries bb off blocks))"

lemma log_data_simps [simp]:
  "log_data bb [] = []" "log_data bb (bs @ [b]) = log_data bb bs @ bb b"
  by (simp_all add: log_data_def)

lemma log_entries_snoc:
  "log_entries bb off (bs @ [b]) =
     log_entries bb off bs @ [block_entry bb (off + length (log_data bb bs)) b]"
  by (induction bs arbitrary: off) (simp_all add: log_data_def add.assoc)

lemma length_log_entries [simp]: "length (log_entries bb off bs) = length bs"
  by (induction bs arbitrary: off) simp_all

lemma nth_log_entries:
  "i < length bs \<Longrightarrow>
    log_entries bb off bs ! i = block_entry bb (off + length (log_data bb (take i bs))) (bs ! i)"
proof (induction bs arbitrary: i off)
  case (Cons b bs)
  then show ?case by (cases i) (simp_all add: log_data_def add.assoc)
qed simp

subsection \<open>Refinement\<close>

definition block_bytes :: "compressor \<Rightarrow> day_writer \<Rightarrow> simple_point list \<Rightarrow> bytes" where
  "block_bytes zenc w = dataToWrite zenc (config w) (encoder w)"

fun pc_rel :: "(simple_point list \<Rightarrow> bytes) \<Rightarrow> bytes \<Rightarrow> loop_pc \<Rightarrow> alog \<Rightarrow> bytes \<Rightarrow> bool" where
  "pc_rel bb base (Writing points final) a data \<longleftrightarrow>
     inflight a = points \<and> points \<noteq> [] \<and> data = base @ log_data bb (committed a)"
| "pc_rel bb base (Indexing idx final) a data \<longleftrightarrow>
     inflight a \<noteq> [] \<and> idx = block_entry bb (length base + length (log_data bb (committed a))) (inflight a) \<and>
     data = base @ log_data bb (committed a) @ bb (inflight a)"
| "pc_rel bb base _ a data \<longleftrightarrow> inflight a = [] \<and> data = base @ log_data bb (committed a)"

text \<open>\<open>base\<close> and \<open>ibase\<close> are what the two files held when the writer was opened.\<close>

definition wrel :: "compressor \<Rightarrow> bytes \<Rightarrow> bytes \<Rightarrow> wsys \<Rightarrow> alog \<Rightarrow> bool" where
  "wrel zenc base ibase s a \<longleftrightarrow>
     (let w = wr s; bb = block_bytes zenc w
      in dataFile w \<noteq> idxFile w \<and> [] \<notin> set (committed a) \<and> buffer w = pending a \<and>
         indexes w = log_entries bb (length base) (committed a) \<and>
         currentOffset w = of_nat (length base + length (log_data bb (committed a))) \<and>
         content (sysfs s) (idxFile w) = ibase @ log_index bb (length base) (committed a) \<and>
         pc_rel bb base (pc s) a (content (sysfs s) (dataFile w)))"

lemma WriteBatch_simps [simp]:
  "buffer (WriteBatch w points) = buffer w @ points"
  "dataFile (WriteBatch w points) = dataFile w" "idxFile (WriteBatch w points) = idxFile w"
  "indexes (WriteBatch w points) = indexes w" "currentOffset (WriteBatch w points) = currentOffset w"
  "config (WriteBatch w points) = config w" "encoder (WriteBatch w points) = encoder w"
  "closeChan (WriteBatch w points) = closeChan w"
  by (simp_all add: WriteBatch_def Let_def)

lemma block_bytes_cong:
  "config w' = config w \<Longrightarrow> encoder w' = encoder w \<Longrightarrow> block_bytes zenc w' = block_bytes zenc w"
  by (simp add: block_bytes_def)

lemma begin_flush_rel:
  assumes "wrel zenc base ibase s a" and "pc s = Selecting"
  shows "wrel zenc base ibase (begin_flush final s) (a\<lparr>inflight := pending a, pending := []\<rparr>)"
proof (cases "buffer (wr s) = []")
  case True
  with assms show ?thesis
    by (cases final) (auto simp: wrel_def Let_def begin_flush_def take_buffer_def after_flush_def)
next
  case False
  with assms show ?thesis
    by (auto simp: wrel_def Let_def begin_flush_def take_buffer_def block_bytes_def)
qed

lemma pc_rel_after_flush [simp]:
  "pc_rel bb base (after_flush final) a data \<longleftrightarrow> inflight a = [] \<and> data = base @ log_data bb (committed a)"
  by (simp add: after_flush_def)

lemma data_write_rel:
  assumes rel: "wrel zenc base ibase s a" and pc: "pc s = Writing points final"
    and wd: "write_data zenc IoOk (sysfs s) (wr s) points = (fs', entry)"
  shows "\<exists>idx. entry = Some idx \<and> wrel zenc base ibase (s\<lparr>sysfs := fs', pc := Indexing idx final\<rparr>) a"
proof -
  have "points \<noteq> []" using rel pc by (simp add: wrel_def Let_def)
  then have "points ! (length points - 1) = last points" by (simp add: last_conv_nth)
  with assms show ?thesis
    by (auto simp: wrel_def Let_def write_data_def written_def block_entry_def block_bytes_def)
qed

lemma index_write_rel:
  assumes "wrel zenc base ibase s a" and "pc s = Indexing idx final"
    and "write_index IoOk (sysfs s) (wr s) idx = (fs', w')"
  shows "wrel zenc base ibase (s\<lparr>sysfs := fs', wr := w', pc := after_flush final\<rparr>)
    (a\<lparr>committed := committed a @ [inflight a], inflight := []\<rparr>)"
  using assms
  by (auto simp: wrel_def Let_def write_index_def written_def block_bytes_def log_index_def
      log_entries_snoc block_entry_def)

lemma wstep_rel:
  assumes "wstep zenc s e t" and "event_ok e" and "wrel zenc base ibase s a"
  shows "wrel zenc base ibase t (astep a e)"
  using assms
proof (cases rule: wstep.cases)
  case (batch points)
  with assms(3) show ?thesis
    by (cases "pc s") (auto simp: wrel_def Let_def block_bytes_def)
next
  case flush_signal
  have "wrel zenc base ibase (s\<lparr>wr := (wr s)\<lparr>flushChan := False\<rparr>\<rparr>) a"
    using assms(3) by (simp add: wrel_def Let_def block_bytes_def)
  with flush_signal show ?thesis by (simp add: begin_flush_rel)
next
  case tick
  with assms(3) show ?thesis by (simp add: begin_flush_rel)
next
  case close_call
  with assms(3) show ?thesis by (simp add: wrel_def Let_def block_bytes_def)
next
  case close_seen
  with assms(3) show ?thesis by (simp add: begin_flush_rel)
next
  case (data_write points final r fs' entry)
  with assms(2) have "r = IoOk" by simp
  with data_write data_write_rel [OF assms(3)] show ?thesis by fastforce
next
  case (index_write idx final r fs' w')
  with assms(2) have "r = IoOk" by simp
  with index_write index_write_rel [OF assms(3)] show ?thesis by simp
qed

lemma wrun_rel:
  "wrun zenc s es t \<Longrightarrow> list_all event_ok es \<Longrightarrow> wrel zenc base ibase s a \<Longrightarrow>
    wrel zenc base ibase t (foldl astep a es)"
  by (induction rule: wrun.induct) (auto intro: wstep_rel)

subsection \<open>Runs from a new writer\<close>

definition new_sys :: "file_system \<Rightarrow> day_writer \<Rightarrow> wsys" where
  "new_sys fs w = \<lparr>sysfs = fs, wr = w, pc = Selecting\<rparr>"

lemma NewDayWriter_Some:
  assumes new: "NewDayWriter fs p cfg dev dt = (fs', Some w)" and ok: "fs_ok fs"
  shows "fs_ok fs'" and "dataFile w \<noteq> idxFile w"
    and "lookup fs' p = Some (dataFile w)" and "lookup fs' (p @ ''.idx'') = Some (idxFile w)"
    and "config w = cfg" and "encoder w = encoder_level (CompressLevel cfg)"
    and "buffer w = []" and "indexes w = []" and "\<not> closeChan w"
    and "currentOffset w = of_nat (length (content fs' (dataFile w)))"
proof -
  from new obtain fs1 where o1: "open_append fs p = Some (fs1, dataFile w)"
    and o2: "open_append fs1 (p @ ''.idx'') = Some (fs', idxFile w)"
    by (auto simp: NewDayWriter_def split: option.splits prod.splits)
  from fs_ok_open_append [OF ok o1] have ok1: "fs_ok fs1" by simp
  from fs_ok_open_append [OF ok1 o2] show ok': "fs_ok fs'" by simp
  show l1: "lookup fs' p = Some (dataFile w)" and l2: "lookup fs' (p @ ''.idx'') = Some (idxFile w)"
    using open_append_lookup [OF o1] open_append_lookup [OF o2] by simp_all
  show "dataFile w \<noteq> idxFile w" using lookup_inj [OF ok' l1, of "p @ ''.idx''"] l2 by auto
  show "config w = cfg" "encoder w = encoder_level (CompressLevel cfg)" "buffer w = []"
    "indexes w = []" "\<not> closeChan w" "currentOffset w = of_nat (length (content fs' (dataFile w)))"
    using new by (auto simp: NewDayWriter_def split: option.splits prod.splits)
qed

lemma NewDayWriter_readable:
  assumes "NewDayWriter fs p cfg dev dt = (fs', Some w)"
  shows "\<not> denied fs' p \<and> \<not> denied fs' (p @ ''.idx'')"
  using assms by (auto simp: NewDayWriter_def open_append_def split: option.splits prod.splits if_splits)

text \<open>What no step changes: the handles, the configuration, and which paths name which files.\<close>

lemma wstep_frame:
  assumes "wstep zenc s e t"
  shows "dataFile (wr t) = dataFile (wr s) \<and> idxFile (wr t) = idxFile (wr s) \<and>
    config (wr t) = config (wr s) \<and> lookup (sysfs t) = lookup (sysfs s) \<and>
    denied (sysfs t) = denied (sysfs s)"
  using assms
  by (cases rule: wstep.cases)
    (auto simp: begin_flush_def take_buffer_def write_data_def write_index_def Let_def
      split: option.splits if_splits io_result.splits)

lemma wrun_frame:
  "wrun zenc s es t \<Longrightarrow>
    dataFile (wr t) = dataFile (wr s) \<and> idxFile (wr t) = idxFile (wr s) \<and>
    config (wr t) = config (wr s) \<and> lookup (sysfs t) = lookup (sysfs s) \<and>
    denied (sysfs t) = denied (sysfs s)"
  by (induction rule: wrun.induct) (auto dest: wstep_frame)

lemma NewDayWriter_rel:
  assumes "NewDayWriter fs p cfg dev dt = (fs', Some w)" and "fs_ok fs"
  shows "wrel zenc (content fs' (dataFile w)) (content fs' (idxFile w)) (new_sys fs' w) empty_log"
  using NewDayWriter_Some [OF assms]
  by (simp add: wrel_def Let_def new_sys_def empty_log_def log_index_def)

lemma wstep_points:
  assumes "wstep zenc s e t" and "event_ok e" and "wrel zenc base ibase s a"
  shows "log_points (astep a e) = log_points a @ event_points e"
  using assms by (cases rule: wstep.cases) (auto simp: wrel_def Let_def log_points_def)

lemma wrun_points:
  "wrun zenc s es t \<Longrightarrow> list_all event_ok es \<Longrightarrow> wrel zenc base ibase s a \<Longrightarrow>
    log_points (foldl astep a es) = log_points a @ concat (map event_points es)"
proof (induction rule: wrun.induct)
  case (step s es t e u)
  then have "wrel zenc base ibase t (foldl astep a es)" by (auto intro: wrun_rel)
  with step show ?case by (simp add: wstep_points)
qed simp

text \<open>The flush after \<open>Close\<close> empties the buffer, and only \<open>WriteBatch\<close> fills it again.\<close>

fun final_pc :: "loop_pc \<Rightarrow> bool" where
  "final_pc (Writing points final) = final"
| "final_pc (Indexing idx final) = final"
| "final_pc Selecting = False"
| "final_pc Returned = True"

lemma begin_flush_final:
  "buffer (wr (begin_flush final s)) = []" "closeChan (wr (begin_flush final s)) = closeChan (wr s)"
  "final_pc (pc (begin_flush final s)) = final"
  by (auto simp: begin_flush_def take_buffer_def after_flush_def split: option.splits)

lemma final_pc_after_flush [simp]: "final_pc (after_flush final) = final"
  by (simp add: after_flush_def)

lemma wstep_closed:
  assumes "wstep zenc s e t" and "final_pc (pc s) \<longrightarrow> closeChan (wr s)"
  shows "(final_pc (pc t) \<longrightarrow> closeChan (wr t)) \<and>
    (e \<noteq> CloseCall \<longrightarrow> closeChan (wr t) = closeChan (wr s))"
  using assms
  by (cases rule: wstep.cases)
    (auto simp: begin_flush_final write_index_def split: option.splits)

lemma wstep_drained:
  assumes "wstep zenc s e t" and "event_points e = []" and "final_pc (pc s) \<longrightarrow> buffer (wr s) = []"
  shows "final_pc (pc t) \<longrightarrow> buffer (wr t) = []"
  using assms
  by (cases rule: wstep.cases)
    (auto simp: begin_flush_final write_index_def split: option.splits)

lemma wrun_closed:
  "wrun zenc s es t \<Longrightarrow> final_pc (pc s) \<longrightarrow> closeChan (wr s) \<Longrightarrow> \<not> closeChan (wr s) \<Longrightarrow>
    (final_pc (pc t) \<longrightarrow> closeChan (wr t)) \<and> (CloseCall \<notin> set es \<longrightarrow> \<not> closeChan (wr t))"
proof (induction rule: wrun.induct)
  case (step s es t e u)
  then show ?case using wstep_closed [OF step.hyps(2)] by auto
qed simp

lemma wrun_drained:
  "wrun zenc s es t \<Longrightarrow> (\<forall>e \<in> set es. event_points e = []) \<Longrightarrow>
    final_pc (pc s) \<longrightarrow> buffer (wr s) = [] \<Longrightarrow> final_pc (pc t) \<longrightarrow> buffer (wr t) = []"
proof (induction rule: wrun.induct)
  case (step s es t e u)
  then show ?case using wstep_drained [OF step.hyps(2)] by auto
qed simp

lemma wexecs_append:
  "wexecs zenc s (es1 @ es2) = Option.bind (wexecs zenc s es1) (\<lambda>t. wexecs zenc t es2)"
  by (induction es1 arbitrary: s) (auto split: bind_splits)

lemma wrun_append:
  "wrun zenc s (es1 @ es2) u \<Longrightarrow> \<exists>t. wrun zenc s es1 t \<and> wrun zenc t es2 u"
  by (auto simp: wrun_iff_wexecs wexecs_append bind_eq_Some_conv)

text \<open>The sequential \<open>flush\<close> is a run of the goroutine.\<close>

lemma flush_rel:
  assumes rel: "wrel zenc base ibase \<lparr>sysfs = fs, wr = w, pc = Selecting\<rparr> a"
    and fl: "flush zenc IoOk IoOk fs w = (fs', w')"
  shows "wrel zenc base ibase \<lparr>sysfs = fs', wr = w', pc = Selecting\<rparr>
    (if pending a = [] then a else a\<lparr>committed := committed a @ [pending a], pending := []\<rparr>)"
proof (cases "pending a = []")
  case True
  with assms show ?thesis
    by (auto simp: wrel_def Let_def flush_def take_buffer_def)
next
  case False
  let ?s = "\<lparr>sysfs = fs, wr = w, pc = Selecting\<rparr>"
  have buf: "buffer w = pending a" and inf: "inflight a = []" using rel by (auto simp: wrel_def Let_def)
  have bf: "begin_flush False ?s = \<lparr>sysfs = fs, wr = w\<lparr>buffer := []\<rparr>, pc = Writing (pending a) False\<rparr>"
    using False by (simp add: begin_flush_def take_buffer_def buf)
  obtain fs1 e1 where wd: "write_data zenc IoOk fs (w\<lparr>buffer := []\<rparr>) (pending a) = (fs1, e1)"
    by fastforce
  from begin_flush_rel [OF rel, of False]
  have "wrel zenc base ibase \<lparr>sysfs = fs, wr = w\<lparr>buffer := []\<rparr>, pc = Writing (pending a) False\<rparr>
      (a\<lparr>inflight := pending a, pending := []\<rparr>)"
    by (simp add: bf)
  from data_write_rel [OF this, of "pending a" False fs1 e1] wd
  obtain idx where "e1 = Some idx"
    and r2: "wrel zenc base ibase \<lparr>sysfs = fs1, wr = w\<lparr>buffer := []\<rparr>, pc = Indexing idx False\<rparr>
      (a\<lparr>inflight := pending a, pending := []\<rparr>)"
    by auto
  with wd fl False have "write_index IoOk fs1 (w\<lparr>buffer := []\<rparr>) idx = (fs', w')"
    by (simp add: flush_def take_buffer_def buf)
  with index_write_rel [OF r2, of idx False fs' w'] False inf show ?thesis
    by (cases a) (simp add: after_flush_def)
qed

subsection \<open>Properties\<close>

text \<open>C10: no accepted point is lost, duplicated or reordered. In every state that any interleaving of
  \<open>WriteBatch\<close>, flushes and \<open>Close\<close> can reach from a newly opened writer, if the writes to the
  files succeed, the two files are exactly what they held at the start followed by the blocks and
  the index entries of the abstract log, the memory (buffer, offset, entries) agrees with it, and
  the points of the log (committed, being written, pending) are the points of all
  \<open>WriteBatch\<close> calls in order.\<close>

theorem writer_refines_log:
  assumes "NewDayWriter fs p cfg dev dt = (fs0, Some w)" and "fs_ok fs"
    and "wrun zenc (new_sys fs0 w) es s" and "list_all event_ok es"
  shows "wrel zenc (content fs0 (dataFile w)) (content fs0 (idxFile w)) s (foldl astep empty_log es) \<and>
    log_points (foldl astep empty_log es) = concat (map event_points es)"
proof
  show "wrel zenc (content fs0 (dataFile w)) (content fs0 (idxFile w)) s (foldl astep empty_log es)"
    by (rule wrun_rel [OF assms(3,4) NewDayWriter_rel [OF assms(1,2)]])
  show "log_points (foldl astep empty_log es) = concat (map event_points es)"
    using wrun_points [OF assms(3,4) NewDayWriter_rel [OF assms(1,2)]]
    by (simp add: log_points_def empty_log_def)
qed

text \<open>A concrete writer for the witnesses: the identity as compressor, a new file in an empty file system,
  one batch of two points flushed by a tick, then \<open>Close\<close>.\<close>

definition ex_config :: storage_config where
  "ex_config = \<lparr>DataDir = ''data'', HotDays = 3, RetentionDays = 30, CompressLevel = 6,
     IndexInterval = 65536, MaxMemoryMB = 512\<rparr>"

definition ex_new :: "file_system \<times> day_writer option" where
  "ex_new = NewDayWriter empty_fs ''f'' ex_config ''dev'' 0"

definition ex_points :: "simple_point list" where
  "ex_points = [\<lparr>Timestamp = 5, Values = []\<rparr>, \<lparr>Timestamp = 9, Values = []\<rparr>]"

definition ex_events :: "wevent list" where
  "ex_events = [Batch ex_points, Tick, DataWrite IoOk, IndexWrite IoOk, CloseCall, CloseSeen]"

lemma ex_new_Some: "NewDayWriter empty_fs ''f'' ex_config ''dev'' 0 = (fst ex_new, Some (the (snd ex_new)))"
  by (simp add: ex_new_def NewDayWriter_def open_append_def lookup_def empty_fs_def)

lemma ex_run: "\<exists>s. wrun zenc (new_sys (fst ex_new) (the (snd ex_new))) ex_events s \<and> pc s = Returned"
  by (simp add: wrun_iff_wexecs ex_events_def ex_new_def NewDayWriter_def open_append_def lookup_def
      empty_fs_def new_sys_def begin_flush_def take_buffer_def WriteBatch_def Let_def ex_points_def
      write_data_def write_index_def after_flush_def split: prod.splits)

theorem writer_refines_log_witness:
  "\<exists>s. wrel (\<lambda>_ x. x) (content (fst ex_new) (dataFile (the (snd ex_new))))
      (content (fst ex_new) (idxFile (the (snd ex_new)))) s (foldl astep empty_log ex_events) \<and>
    log_points (foldl astep empty_log ex_events) = ex_points"
proof -
  from ex_run [of "\<lambda>_ x. x"] obtain s where "wrun (\<lambda>_ x. x) (new_sys (fst ex_new) (the (snd ex_new))) ex_events s"
    by blast
  from writer_refines_log [OF ex_new_Some fs_ok_empty this] show ?thesis
    by (auto simp: ex_events_def)
qed



text \<open>a flush whose write to the data file fails drops the points it took (the buffer was already
  emptied and nothing puts them back), and after a partial write the offset kept in memory is behind
  the file: the entry of the next block points at the debris, not at the block.\<close>

theorem failed_write_loses_block:
  assumes "buffer w \<noteq> []" and "dataFile w \<noteq> idxFile w"
    and "currentOffset w = of_nat (length (content fs (dataFile w)))"
    and "k \<le> length (block_bytes zenc w (buffer w))" and "q \<noteq> []"
    and "flush zenc (IoFail k) ri fs w = (fs1, w1)"
    and "flush zenc IoOk IoOk fs1 (WriteBatch w1 q) = (fs2, w2)"
  shows "buffer w1 = [] \<and> indexes w1 = indexes w \<and>
    content fs2 (dataFile w) =
      content fs (dataFile w) @ take k (block_bytes zenc w (buffer w)) @ block_bytes zenc w q \<and>
    indexes w2 = indexes w @ [block_entry (block_bytes zenc w) (length (content fs (dataFile w))) q]"
proof -
  have w1: "w1 = w\<lparr>buffer := []\<rparr>"
    and fs1: "fs1 = append_file fs (dataFile w) (take k (block_bytes zenc w (buffer w)))"
    using assms(1,6)
    by (auto simp: flush_def take_buffer_def write_data_def written_def block_bytes_def)
  have b: "buffer (WriteBatch w1 q) = q" by (simp add: w1)
  have "q ! (length q - 1) = last q" using assms(5) by (simp add: last_conv_nth)
  then show ?thesis
    using assms(2,3,5,7) b
    by (auto simp: flush_def take_buffer_def write_data_def write_index_def written_def block_entry_def
        block_bytes_def w1 fs1 Let_def)
qed

theorem failed_write_loses_block_witness:
  "\<exists>w1 w2 fs1 fs2. flush (\<lambda>_ x. x) (IoFail 3) IoOk (fst ex_new)
       (WriteBatch (the (snd ex_new)) ex_points) = (fs1, w1) \<and>
     flush (\<lambda>_ x. x) IoOk IoOk fs1 (WriteBatch w1 ex_points) = (fs2, w2) \<and>
     length (content fs2 0) = 3 + 24 \<and> map Offset (indexes w2) = [0]"
proof -
  let ?w = "WriteBatch (the (snd ex_new)) ex_points"
  note n = NewDayWriter_Some [OF ex_new_Some fs_ok_empty]
  have c: "content (fst ex_new) (dataFile ?w) = []" "dataFile ?w = 0" "indexes ?w = []"
    and w: "buffer ?w = ex_points" "IndexInterval (config ?w) = 65536"
    by (simp_all add: ex_new_def NewDayWriter_def open_append_def lookup_def empty_fs_def ex_config_def)
  have len: "length (block_bytes (\<lambda>_ x. x) ?w ex_points) = 24"
    by (simp add: block_bytes_def dataToWrite_def dataWithCRC_def block_raw_def ex_points_def w)
  obtain fs1 w1 where f1: "flush (\<lambda>_ x. x) (IoFail 3) IoOk (fst ex_new) ?w = (fs1, w1)" by fastforce
  obtain fs2 w2 where f2: "flush (\<lambda>_ x. x) IoOk IoOk fs1 (WriteBatch w1 ex_points) = (fs2, w2)" by fastforce
  have "ex_points \<noteq> []" by (simp add: ex_points_def)
  with failed_write_loses_block [of ?w "fst ex_new" 3 "\<lambda>_ x. x" ex_points IoOk fs1 w1 fs2 w2]
  have "length (content fs2 0) = 3 + 24" "map Offset (indexes w2) = [0]"
    using f1 f2 n(2,10) c w len by (simp_all add: block_entry_def)
  with f1 f2 show ?thesis
    by (intro exI [of _ w1] exI [of _ w2] exI [of _ fs1] exI [of _ fs2]) simp
qed

end
