(* ===== verification/Day_Reader.thy ===== *)
theory Day_Reader
  imports Simple_Point Index_File Crc32 File_System
begin

text \<open>
  \<open>tffiles/reader.go\<close>: the reader of one day file. It finds the blocks that overlap a time range
  with a binary search in the index, reads, decompresses and checks each block, and parses its
  points; without an index it scans the whole file.

  The decompressor is a third-party package: \<open>zdec\<close> is \<open>DecodeAll\<close>, \<^const>\<open>None\<close> its error.
  Results are \<^typ>\<open>'a go\<close> because \<open>make\<close> panics on a bad length; inside, \<^const>\<open>None\<close> is
  the error the function returns. The messages of \<open>log.Printf\<close> are not modelled.
\<close>

type_synonym decompressor = "bytes \<Rightarrow> bytes option"

subsection \<open>State\<close>

record day_reader =
  readerFile :: nat

definition NewDayReader :: "file_system \<Rightarrow> string \<Rightarrow> day_reader option" where
  "NewDayReader fs filePath =
     (if denied fs filePath then None
      else map_option (\<lambda>f. \<lparr>readerFile = f\<rparr>) (lookup fs filePath))"

definition reader_GetFileSize :: "file_system \<Rightarrow> day_reader \<Rightarrow> nat" where
  "reader_GetFileSize fs r = length (content fs (readerFile r))"

subsection \<open>Parsing points\<close>

definition in_range :: "i64 \<Rightarrow> i64 \<Rightarrow> simple_point \<Rightarrow> bool" where
  "in_range startTime endTime p \<longleftrightarrow>
     sint startTime \<le> sint (Timestamp p) \<and> sint (Timestamp p) \<le> sint endTime"

text \<open>The loop of \<open>parsePoints\<close>, from \<open>offset\<close>, with the points collected so far.\<close>

function parse_loop ::
    "bytes \<Rightarrow> i64 \<Rightarrow> i64 \<Rightarrow> nat \<Rightarrow> simple_point list \<Rightarrow> simple_point list" where
  "parse_loop data startTime endTime offset points =
     (if offset + 10 \<le> length data then
        (let timestamp = get_le64 (sub data offset (offset + 8));
             fieldCount = unat (get_le16 (sub data (offset + 8) (offset + 10)));
             pointLen = 10 + fieldCount * 4
         in if length data < offset + pointLen then points
            else
              (let p = \<lparr>Timestamp = timestamp, Values = read_values get_le32 data (offset + 10) fieldCount\<rparr>
               in parse_loop data startTime endTime (offset + pointLen)
                    (if in_range startTime endTime p then points @ [p] else points)))
      else points)"
  by pat_completeness auto

termination
  by (relation "measure (\<lambda>(data, st, en, offset, ps). length data - offset)") auto

declare parse_loop.simps [simp del]

definition parsePoints :: "bytes \<Rightarrow> i64 \<Rightarrow> i64 \<Rightarrow> simple_point list" where
  "parsePoints data startTime endTime = parse_loop data startTime endTime 0 []"

definition parseLegacyFormat :: "bytes \<Rightarrow> i64 \<Rightarrow> i64 \<Rightarrow> simple_point list" where
  "parseLegacyFormat data startTime endTime = parse_loop data startTime endTime 0 []"

subsection \<open>Full scan\<close>

text \<open>The file is read at its size, so the read is complete. A checksum mismatch is only logged.\<close>

definition Query ::
    "decompressor \<Rightarrow> file_system \<Rightarrow> day_reader \<Rightarrow> i64 \<Rightarrow> i64 \<Rightarrow> simple_point list option" where
  "Query zdec fs r startTime endTime =
     (let data = content fs (readerFile r)
      in case zdec data of
           None \<Rightarrow> Some (parseLegacyFormat data startTime endTime)
         | Some decompressed \<Rightarrow>
             if length decompressed < 4 then Some []
             else Some (parsePoints (take (length decompressed - 4) decompressed) startTime endTime))"

subsection \<open>Binary search\<close>

text \<open>The inner loop \<open>for mid > 0 && indexes[mid-1].EndTime >= targetTime\<close>.\<close>

fun walk_back :: "index_entry list \<Rightarrow> i64 \<Rightarrow> nat \<Rightarrow> nat" where
  "walk_back idxs targetTime 0 = 0"
| "walk_back idxs targetTime (Suc m) =
     (if sint targetTime \<le> sint (EndTime (idxs ! m)) then walk_back idxs targetTime m else Suc m)"

function search_loop :: "index_entry list \<Rightarrow> i64 \<Rightarrow> int \<Rightarrow> int \<Rightarrow> int" where
  "search_loop idxs targetTime left right =
     (if left \<le> right then
        (let mid = (left + right) div 2 in
         if sint (EndTime (idxs ! nat mid)) < sint targetTime
         then search_loop idxs targetTime (mid + 1) right
         else if sint targetTime < sint (StartTime (idxs ! nat mid))
         then search_loop idxs targetTime left (mid - 1)
         else int (walk_back idxs targetTime (nat mid)))
      else left)"
  by pat_completeness auto

termination
  by (relation "measure (\<lambda>(idxs, t, left, right). nat (right + 1 - left))") auto

declare search_loop.simps [simp del]

definition binarySearchIndex :: "index_entry list \<Rightarrow> i64 \<Rightarrow> int" where
  "binarySearchIndex idxs targetTime = search_loop idxs targetTime 0 (int (length idxs) - 1)"

subsection \<open>Query with an index\<close>

text \<open>The first loop of \<open>QueryWithIndex\<close>, over \<open>indexes[startIdx:]\<close>.\<close>

fun relevant_loop :: "i64 \<Rightarrow> i64 \<Rightarrow> index_entry list \<Rightarrow> index_entry list" where
  "relevant_loop startTime endTime [] = []"
| "relevant_loop startTime endTime (idx # idxs) =
     (if sint endTime < sint (StartTime idx) then []
      else if sint (StartTime idx) \<le> sint endTime \<and> sint startTime \<le> sint (EndTime idx)
      then idx # relevant_loop startTime endTime idxs
      else relevant_loop startTime endTime idxs)"

definition relevantBlocks :: "i64 \<Rightarrow> i64 \<Rightarrow> index_entry list \<Rightarrow> index_entry list" where
  "relevantBlocks startTime endTime idxs =
     relevant_loop startTime endTime (drop (nat (binarySearchIndex idxs startTime)) idxs)"

text \<open>\<open>raw := make([]byte, n)\<close>: a negative length, or one beyond the address space of the runtime
  (\<open>2^48\<close> bytes), panics.\<close>

definition make_bytes :: "i64 \<Rightarrow> nat go" where
  "make_bytes n = (if sint n < 0 \<or> 2 ^ 48 < sint n then Inl MakeSlice else Inr (nat (sint n)))"

text \<open>\<open>file.ReadAt(raw, off)\<close>: a negative offset and a read that ends beyond the file are errors.\<close>

definition read_at :: "bytes \<Rightarrow> i64 \<Rightarrow> nat \<Rightarrow> bytes option" where
  "read_at data off n =
     (if sint off < 0 then None
      else if n = 0 then Some []
      else if nat (sint off) + n \<le> length data then Some (take n (drop (nat (sint off)) data))
      else None)"

text \<open>A decompressed block: too short or with a bad checksum, it is skipped.\<close>

definition block_points :: "i64 \<Rightarrow> i64 \<Rightarrow> bytes \<Rightarrow> simple_point list" where
  "block_points startTime endTime decompressed =
     (if length decompressed < 4 then []
      else
        (let dataLen = length decompressed - 4;
             storedCRC = get_le32 (drop dataLen decompressed);
             computedCRC = ChecksumIEEE (take dataLen decompressed)
         in if storedCRC \<noteq> computedCRC then []
            else parsePoints (take dataLen decompressed) startTime endTime))"

text \<open>The second loop. A block that does not decompress and has no checksum in its entry ends the
  whole query with the points of that block alone.\<close>

fun blocks_loop ::
    "decompressor \<Rightarrow> bytes \<Rightarrow> i64 \<Rightarrow> i64 \<Rightarrow> index_entry list \<Rightarrow> simple_point list
      \<Rightarrow> simple_point list option go" where
  "blocks_loop zdec data startTime endTime [] allPoints = Inr (Some allPoints)"
| "blocks_loop zdec data startTime endTime (block # blocks) allPoints =
     go_bind (make_bytes (Length block)) (\<lambda>n.
       case read_at data (Offset block) n of
         None \<Rightarrow> Inr None
       | Some raw \<Rightarrow>
           (case zdec raw of
              None \<Rightarrow>
                if CRC32 block = 0 then Inr (Some (parseLegacyFormat raw startTime endTime))
                else blocks_loop zdec data startTime endTime blocks
                       (allPoints @ block_points startTime endTime raw)
            | Some decompressed \<Rightarrow>
                blocks_loop zdec data startTime endTime blocks
                  (allPoints @ block_points startTime endTime decompressed)))"

definition QueryWithIndex ::
    "decompressor \<Rightarrow> file_system \<Rightarrow> day_reader \<Rightarrow> i64 \<Rightarrow> i64 \<Rightarrow> index_entry list
      \<Rightarrow> simple_point list option go" where
  "QueryWithIndex zdec fs r startTime endTime idxs =
     (let relevant = relevantBlocks startTime endTime idxs
      in if length relevant = 0 then Inr (Some [])
         else blocks_loop zdec (content fs (readerFile r)) startTime endTime relevant [])"

subsection \<open>Parsing reads back what was encoded\<close>

lemma in_range_simp [simp]:
  "in_range st en \<lparr>Timestamp = t, Values = vs\<rparr> \<longleftrightarrow> sint st \<le> sint t \<and> sint t \<le> sint en"
  by (simp add: in_range_def)

text \<open>The field count of the format has two bytes.\<close>

definition point_ok :: "simple_point \<Rightarrow> bool" where
  "point_ok p \<longleftrightarrow> length (Values p) < 65536"

lemma parse_loop_end:
  "length data < offset + 10 \<Longrightarrow> parse_loop data st en offset points = points"
  by (simp add: parse_loop.simps)

lemma parse_loop_point:
  assumes "point_ok p"
  shows "parse_loop (xs @ EncodeSimplePoint p @ ys) st en (length xs) points =
    parse_loop (xs @ EncodeSimplePoint p @ ys) st en (length xs + length (EncodeSimplePoint p))
      (if in_range st en p then points @ [p] else points)"
proof -
  let ?d = "xs @ EncodeSimplePoint p @ ys" and ?o = "length xs"
  have "unat (of_nat (length (Values p)) :: u16) = length (Values p)"
    using assms by (simp add: point_ok_def unat_of_nat16)
  then have n: "unat (get_le16 (sub ?d (?o + 8) (?o + 10))) = length (Values p)"
    using le_point.get_count [of xs p ys] by (simp add: EncodeSimplePoint_put)
  have t: "get_le64 (sub ?d ?o (?o + 8)) = Timestamp p"
    and v: "read_values get_le32 ?d (?o + 10) (length (Values p)) = Values p"
    using le_point.get_time [of xs p ys] le_point.get_values [of "length (Values p)" p xs ys]
    by (simp_all add: EncodeSimplePoint_put)
  have p: "\<lparr>Timestamp = Timestamp p, Values = Values p\<rparr> = p" by simp
  have "parse_loop ?d st en ?o points =
    (if length ?d < ?o + (10 + length (Values p) * 4) then points
     else parse_loop ?d st en (?o + (10 + length (Values p) * 4))
       (if in_range st en p then points @ [p] else points))"
    by (subst parse_loop.simps) (simp only: Let_def n t v p, simp)
  then show ?thesis by simp
qed

lemma parse_loop_prefix:
  assumes "list_all point_ok ps"
  shows "parse_loop (xs @ concat (map EncodeSimplePoint ps) @ tail) st en (length xs) points =
    parse_loop (xs @ concat (map EncodeSimplePoint ps) @ tail) st en
      (length xs + length (concat (map EncodeSimplePoint ps))) (points @ filter (in_range st en) ps)"
  using assms
proof (induction ps arbitrary: xs points)
  case (Cons p ps)
  let ?ys = "concat (map EncodeSimplePoint ps) @ tail"
  from Cons.prems parse_loop_point [of p xs ?ys st en points]
  have "parse_loop (xs @ EncodeSimplePoint p @ ?ys) st en (length xs) points =
    parse_loop ((xs @ EncodeSimplePoint p) @ ?ys) st en (length (xs @ EncodeSimplePoint p))
      (if in_range st en p then points @ [p] else points)"
    by simp
  also have "\<dots> = parse_loop ((xs @ EncodeSimplePoint p) @ ?ys) st en
      (length (xs @ EncodeSimplePoint p) + length (concat (map EncodeSimplePoint ps)))
      ((if in_range st en p then points @ [p] else points) @ filter (in_range st en) ps)"
    using Cons.prems by (intro Cons.IH) simp
  finally show ?case by (simp add: add.assoc)
qed simp

lemma parse_loop_points:
  assumes "list_all point_ok ps" and "length tail < 10"
  shows "parse_loop (xs @ concat (map EncodeSimplePoint ps) @ tail) st en (length xs) points =
    points @ filter (in_range st en) ps"
  using assms(2) by (simp add: parse_loop_prefix [OF assms(1)] parse_loop_end)

lemma parsePoints_encoded:
  "list_all point_ok ps \<Longrightarrow> length tail < 10 \<Longrightarrow>
    parsePoints (concat (map EncodeSimplePoint ps) @ tail) st en = filter (in_range st en) ps"
  using parse_loop_points [of ps tail "[]"] by (simp add: parsePoints_def)

lemma parse_loop_sound:
  "set (parse_loop data st en offset points) \<subseteq> set points \<union> {p. in_range st en p}"
proof (induction data st en offset points rule: parse_loop.induct)
  case (1 data st en offset points)
  show ?case
    using 1 by (subst parse_loop.simps) (fastforce simp: Let_def split: if_splits)
qed

subsection \<open>The binary search finds the first block that ends late enough\<close>

definition entries_sorted :: "index_entry list \<Rightarrow> bool" where
  "entries_sorted idxs \<longleftrightarrow>
     sorted (map (\<lambda>e. sint (EndTime e)) idxs) \<and> list_all (\<lambda>e. sint (StartTime e) \<le> sint (EndTime e)) idxs"

definition first_ending :: "index_entry list \<Rightarrow> i64 \<Rightarrow> nat \<Rightarrow> bool" where
  "first_ending idxs t i \<longleftrightarrow> i \<le> length idxs \<and>
     (\<forall>j < i. sint (EndTime (idxs ! j)) < sint t) \<and>
     (\<forall>j < length idxs. i \<le> j \<longrightarrow> sint t \<le> sint (EndTime (idxs ! j)))"

lemma sorted_ends:
  "entries_sorted idxs \<Longrightarrow> i \<le> j \<Longrightarrow> j < length idxs \<Longrightarrow>
    sint (EndTime (idxs ! i)) \<le> sint (EndTime (idxs ! j))"
  using sorted_nth_mono [of "map (\<lambda>e. sint (EndTime e)) idxs" i j] by (simp add: entries_sorted_def)

lemma entry_times: "entries_sorted idxs \<Longrightarrow> i < length idxs \<Longrightarrow> sint (StartTime (idxs ! i)) \<le> sint (EndTime (idxs ! i))"
  by (simp add: entries_sorted_def list_all_length)

lemma walk_back_first:
  assumes "entries_sorted idxs" and "m < length idxs" and "sint t \<le> sint (EndTime (idxs ! m))"
  shows "first_ending idxs t (walk_back idxs t m)"
  using assms(2,3)
proof (induction m)
  case 0
  then show ?case using sorted_ends [OF assms(1), of 0] by (force simp: first_ending_def)
next
  case (Suc m)
  show ?case
  proof (cases "sint t \<le> sint (EndTime (idxs ! m))")
    case True
    with Suc show ?thesis by simp
  next
    case False
    have "sint (EndTime (idxs ! j)) < sint t" if "j < Suc m" for j
      using that False Suc.prems sorted_ends [OF assms(1), of j m] by force
    moreover have "sint t \<le> sint (EndTime (idxs ! j))" if "Suc m \<le> j" "j < length idxs" for j
      using that Suc.prems sorted_ends [OF assms(1), of "Suc m" j] by force
    ultimately show ?thesis using False Suc.prems by (simp add: first_ending_def)
  qed
qed

lemma search_loop_first:
  assumes "entries_sorted idxs" and "0 \<le> left" and "left \<le> right + 1" and "right < int (length idxs)"
    and "\<forall>j < nat left. sint (EndTime (idxs ! j)) < sint t"
    and "\<forall>j < length idxs. right < int j \<longrightarrow> sint t \<le> sint (EndTime (idxs ! j))"
  shows "0 \<le> search_loop idxs t left right \<and> first_ending idxs t (nat (search_loop idxs t left right))"
  using assms
proof (induction idxs t left right rule: search_loop.induct)
  case (1 idxs t left right)
  show ?case
  proof (cases "left \<le> right")
    case False
    with 1 show ?thesis by (subst (1 2) search_loop.simps) (auto simp: first_ending_def)
  next
    case True
    define mid where "mid = (left + right) div 2"
    have mid: "left \<le> mid" "mid \<le> right" using True by (auto simp: mid_def)
    with 1 have m: "nat mid < length idxs" by simp
    note sorted = \<open>entries_sorted idxs\<close>
    consider (low) "sint (EndTime (idxs ! nat mid)) < sint t"
      | (high) "\<not> sint (EndTime (idxs ! nat mid)) < sint t" "sint t < sint (StartTime (idxs ! nat mid))"
      | (hit) "\<not> sint (EndTime (idxs ! nat mid)) < sint t" "\<not> sint t < sint (StartTime (idxs ! nat mid))"
      by blast
    then show ?thesis
    proof cases
      case low
      have "\<forall>j < nat (mid + 1). sint (EndTime (idxs ! j)) < sint t"
      proof (intro allI impI)
        fix j assume "j < nat (mid + 1)"
        then have "j \<le> nat mid" by linarith
        from sorted_ends [OF sorted this m] low
        show "sint (EndTime (idxs ! j)) < sint t" by linarith
      qed
      with 1(1) [OF True mid_def low] 1(3-8) mid
      have "0 \<le> search_loop idxs t (mid + 1) right \<and>
        first_ending idxs t (nat (search_loop idxs t (mid + 1) right))" by simp
      moreover have "search_loop idxs t left right = search_loop idxs t (mid + 1) right"
        using True low by (subst search_loop.simps) (simp add: mid_def)
      ultimately show ?thesis by simp
    next
      case high
      have "\<forall>j < length idxs. mid - 1 < int j \<longrightarrow> sint t \<le> sint (EndTime (idxs ! j))"
      proof (intro allI impI)
        fix j assume j: "j < length idxs" "mid - 1 < int j"
        then have "nat mid \<le> j" by linarith
        from sorted_ends [OF sorted this j(1)] high entry_times [OF sorted m]
        show "sint t \<le> sint (EndTime (idxs ! j))" by linarith
      qed
      with 1(2) [OF True mid_def high] 1(3-8) mid
      have "0 \<le> search_loop idxs t left (mid - 1) \<and>
        first_ending idxs t (nat (search_loop idxs t left (mid - 1)))" by simp
      moreover have "search_loop idxs t left right = search_loop idxs t left (mid - 1)"
        using True high by (subst search_loop.simps) (simp add: mid_def)
      ultimately show ?thesis by simp
    next
      case hit
      then have "search_loop idxs t left right = int (walk_back idxs t (nat mid))"
        using True by (subst search_loop.simps) (simp add: mid_def)
      with hit walk_back_first [OF sorted m] show ?thesis by simp
    qed
  qed
qed

lemma binarySearchIndex_first:
  assumes "entries_sorted idxs"
  shows "0 \<le> binarySearchIndex idxs t \<and> first_ending idxs t (nat (binarySearchIndex idxs t))"
  unfolding binarySearchIndex_def
  by (rule search_loop_first [OF assms]) auto

end
