(* ===== verification/Day_File.thy ===== *)
theory Day_File
  imports Day_Writer Day_Reader
begin

text \<open>
  The writer and the reader of a day file together: what a pair of a data file and an index file
  holds (\<open>day_file\<close>), that every step of the writer keeps it, and that a query with the index
  returns exactly the points in range; then where the reader falls short of that (full scans of
  files of several blocks, blocks without checksum, blocks whose points are out of order).
\<close>

subsection \<open>The compression library\<close>

text \<open>What is documented of \<open>zstd\<close>: decoding an encoded buffer gives it back, and a buffer that does
  not start with the magic number of a frame (RFC 8878: \<open>FD2FB528\<close>, or \<open>184D2A50\<close> to
  \<open>184D2A5F\<close> for a skippable frame) is rejected.\<close>

definition zstd_roundtrip :: "compressor \<Rightarrow> decompressor \<Rightarrow> bool" where
  "zstd_roundtrip zenc zdec \<longleftrightarrow> (\<forall>lvl x. zdec (zenc lvl x) = Some x)"

definition zstd_magic :: "bytes \<Rightarrow> bool" where
  "zstd_magic x \<longleftrightarrow>
     (let m = get_le32 x in m = 0xFD2FB528 \<or> m AND 0xFFFFFFF0 = 0x184D2A50)"

definition zstd_rejects :: "decompressor \<Rightarrow> bool" where
  "zstd_rejects zdec \<longleftrightarrow> (\<forall>x. 4 \<le> length x \<and> \<not> zstd_magic x \<longrightarrow> zdec x = None)"

subsection \<open>What a day file holds\<close>

text \<open>The entry \<open>e\<close> describes the block \<open>b\<close>, and the reader gets \<open>b\<close>'s bytes out of the data file.\<close>

definition block_readable :: "decompressor \<Rightarrow> bytes \<Rightarrow> index_entry \<Rightarrow> simple_point list \<Rightarrow> bool" where
  "block_readable zdec raw e b \<longleftrightarrow>
     (case zdec raw of
        Some d \<Rightarrow> d = dataWithCRC b
      | None \<Rightarrow> raw = dataWithCRC b \<and> CRC32 e \<noteq> 0)"

definition entry_holds :: "decompressor \<Rightarrow> bytes \<Rightarrow> index_entry \<Rightarrow> simple_point list \<Rightarrow> bool" where
  "entry_holds zdec data e b \<longleftrightarrow>
     b \<noteq> [] \<and> list_all point_ok b \<and>
     StartTime e = Timestamp (hd b) \<and> EndTime e = Timestamp (last b) \<and>
     (case make_bytes (Length e) of
        Inl _ \<Rightarrow> False
      | Inr n \<Rightarrow> (case read_at data (Offset e) n of None \<Rightarrow> False | Some raw \<Rightarrow> block_readable zdec raw e b))"

definition day_file :: "decompressor \<Rightarrow> bytes \<Rightarrow> bytes \<Rightarrow> simple_point list list \<Rightarrow> bool" where
  "day_file zdec data index blocks \<longleftrightarrow>
     index = concat (map encode_entry (readIndex_data index)) \<and>
     list_all2 (entry_holds zdec data) (readIndex_data index) blocks"

definition times :: "simple_point list \<Rightarrow> int list" where
  "times ps = map (\<lambda>p. sint (Timestamp p)) ps"

definition time_ordered :: "simple_point list \<Rightarrow> bool" where
  "time_ordered ps \<longleftrightarrow> sorted (times ps)"

lemma times_simps [simp]:
  "times [] = []" "times (p # ps) = sint (Timestamp p) # times ps" "times (ps @ qs) = times ps @ times qs"
  by (simp_all add: times_def)

lemma set_times: "set (times ps) = (\<lambda>p. sint (Timestamp p)) ` set ps"
  by (simp add: times_def)

subsection \<open>Reading one block\<close>

lemma length_dataWithCRC: "length (dataWithCRC b) = length (block_raw b) + 4"
  by (simp add: dataWithCRC_def)

lemma block_points_dataWithCRC:
  "list_all point_ok b \<Longrightarrow> block_points st en (dataWithCRC b) = filter (in_range st en) b"
  using parsePoints_encoded [of b "[]" st en]
  by (simp add: block_points_def dataWithCRC_def Let_def block_raw_def)

lemma blocks_loop_hold:
  assumes "list_all2 (entry_holds zdec data) es bs"
  shows "blocks_loop zdec data st en es acc = Inr (Some (acc @ filter (in_range st en) (concat bs)))"
  using assms
proof (induction arbitrary: acc rule: list_all2_induct)
  case (Cons e es b bs)
  from \<open>entry_holds zdec data e b\<close> obtain n raw where h:
    "make_bytes (Length e) = Inr n" "read_at data (Offset e) n = Some raw"
    "block_readable zdec raw e b" "list_all point_ok b"
    by (auto simp: entry_holds_def split: sum.splits option.splits)
  with Cons.IH block_points_dataWithCRC [OF h(4), of st en] show ?case
    by (cases "zdec raw") (auto simp: block_readable_def)
qed simp

subsection \<open>Choosing the blocks\<close>

definition overlaps :: "i64 \<Rightarrow> i64 \<Rightarrow> index_entry \<Rightarrow> bool" where
  "overlaps st en e \<longleftrightarrow> sint (StartTime e) \<le> sint en \<and> sint st \<le> sint (EndTime e)"

lemma relevant_loop_filter:
  "sorted (map (\<lambda>e. sint (StartTime e)) es) \<Longrightarrow> relevant_loop st en es = filter (overlaps st en) es"
proof (induction es)
  case (Cons e es)
  have "\<not> overlaps st en f" if "sint en < sint (StartTime e)" "f \<in> set es" for f
    using Cons.prems that by (force simp: overlaps_def)
  then have "sint en < sint (StartTime e) \<Longrightarrow> filter (overlaps st en) es = []"
    by (simp add: filter_empty_conv)
  with Cons show ?case using overlaps_def [of st en e] by auto
qed simp

lemma relevantBlocks_filter:
  assumes "entries_sorted es" and "sorted (map (\<lambda>e. sint (StartTime e)) es)"
  shows "relevantBlocks st en es = filter (overlaps st en) es"
proof -
  let ?i = "nat (binarySearchIndex es st)"
  from binarySearchIndex_first [OF assms(1)] have f: "first_ending es st ?i" by blast
  have "\<not> overlaps st en e" if "e \<in> set (take ?i es)" for e
    using that f by (force simp: in_set_conv_nth first_ending_def overlaps_def)
  then have "filter (overlaps st en) (take ?i es) = []" by (simp add: filter_empty_conv)
  then have "filter (overlaps st en) es = filter (overlaps st en) (drop ?i es)"
    by (metis append_take_drop_id filter_append append_Nil)
  moreover have "sorted (map (\<lambda>e. sint (StartTime e)) (drop ?i es))"
    using sorted_wrt_drop [OF assms(2), of ?i] by (simp add: drop_map)
  ultimately show ?thesis by (simp add: relevantBlocks_def relevant_loop_filter)
qed

lemma time_ordered_bounds:
  assumes "time_ordered b" and "p \<in> set b"
  shows "sint (Timestamp (hd b)) \<le> sint (Timestamp p) \<and> sint (Timestamp p) \<le> sint (Timestamp (last b))"
proof -
  from assms(2) obtain i where i: "i < length b" "b ! i = p" by (auto simp: in_set_conv_nth)
  then have "b \<noteq> []" by auto
  with i assms(1) show ?thesis
    using sorted_nth_mono [of "times b" 0 i] sorted_nth_mono [of "times b" i "length b - 1"]
    by (simp add: time_ordered_def times_def hd_conv_nth last_conv_nth)
qed

lemma hold_bounds:
  assumes "entry_holds zdec data e b" and "time_ordered b" and "p \<in> set b"
  shows "sint (StartTime e) \<le> sint (Timestamp p) \<and> sint (Timestamp p) \<le> sint (EndTime e)"
  using time_ordered_bounds [OF assms(2,3)] assms(1) by (simp add: entry_holds_def)

lemma hold_order:
  assumes "list_all2 (entry_holds zdec data) es bs" and "time_ordered (concat bs)"
  shows "entries_sorted es \<and> sorted (map (\<lambda>e. sint (StartTime e)) es)"
  using assms
proof (induction rule: list_all2_induct)
  case (Cons e es b bs)
  have b: "b \<noteq> []" "StartTime e = Timestamp (hd b)" "EndTime e = Timestamp (last b)"
    using Cons.hyps by (auto simp: entry_holds_def)
  have tb: "time_ordered b" "time_ordered (concat bs)"
    and ord: "\<And>p q. p \<in> set b \<Longrightarrow> q \<in> set (concat bs) \<Longrightarrow> sint (Timestamp p) \<le> sint (Timestamp q)"
    using Cons.prems by (auto simp: time_ordered_def sorted_append set_times)
  have se: "sint (StartTime e) \<le> sint (EndTime e)"
    using time_ordered_bounds [OF tb(1), of "last b"] b by simp
  have "sint (StartTime e) \<le> sint (StartTime f) \<and> sint (EndTime e) \<le> sint (EndTime f)" if "f \<in> set es" for f
  proof -
    from that Cons.hyps(2) obtain c where c: "c \<in> set bs" "entry_holds zdec data f c"
      by (metis in_set_conv_nth list_all2_conv_all_nth)
    then have f: "c \<noteq> []" "StartTime f = Timestamp (hd c)" "EndTime f = Timestamp (last c)"
      by (auto simp: entry_holds_def)
    then have "hd c \<in> set c" "last c \<in> set c" by simp_all
    with c(1) have "hd c \<in> set (concat bs)" "last c \<in> set (concat bs)" by auto
    with f ord [of "hd b"] ord [of "last b"] b show ?thesis by simp
  qed
  with se Cons.IH [OF tb(2)] show ?case
    by (auto simp: entries_sorted_def)
qed (simp add: entries_sorted_def)

lemma filter_blocks:
  assumes "list_all2 (entry_holds zdec data) es bs" and "time_ordered (concat bs)"
  shows "\<exists>cs. list_all2 (entry_holds zdec data) (filter (overlaps st en) es) cs \<and>
    filter (in_range st en) (concat cs) = filter (in_range st en) (concat bs)"
  using assms
proof (induction rule: list_all2_induct)
  case (Cons e es b bs)
  have t: "time_ordered b" "time_ordered (concat bs)"
    using Cons.prems by (auto simp: time_ordered_def sorted_append)
  from Cons.IH [OF t(2)] obtain cs where
    cs: "list_all2 (entry_holds zdec data) (filter (overlaps st en) es) cs"
      "filter (in_range st en) (concat cs) = filter (in_range st en) (concat bs)"
    by blast
  show ?case
  proof (cases "overlaps st en e")
    case True
    with cs Cons.hyps show ?thesis by (intro exI [of _ "b # cs"]) simp
  next
    case False
    then have "\<not> in_range st en p" if "p \<in> set b" for p
      using hold_bounds [OF Cons.hyps(1) t(1) that] by (auto simp: overlaps_def in_range_def)
    then have "filter (in_range st en) b = []" by (simp add: filter_empty_conv)
    with cs False show ?thesis by (intro exI [of _ cs]) simp
  qed
qed (intro exI [of _ "[]"], simp)

lemma QueryWithIndex_hold:
  assumes "list_all2 (entry_holds zdec (content fs (readerFile r))) es bs" and "time_ordered (concat bs)"
  shows "QueryWithIndex zdec fs r st en es = Inr (Some (filter (in_range st en) (concat bs)))"
proof -
  note rel = relevantBlocks_filter [of es st en] hold_order [OF assms]
  from filter_blocks [OF assms, of st en] obtain cs where
    cs: "list_all2 (entry_holds zdec (content fs (readerFile r))) (filter (overlaps st en) es) cs"
      "filter (in_range st en) (concat cs) = filter (in_range st en) (concat bs)"
    by blast
  show ?thesis
    using rel cs blocks_loop_hold [OF cs(1), of st en "[]"]
    by (auto simp: QueryWithIndex_def Let_def)
qed

subsection \<open>The writer keeps the day file\<close>

text \<open>A block that the writer stores uncompressed is not taken for a compressed one, nor for one
  without a checksum.\<close>

definition plain_ok :: "storage_config \<Rightarrow> simple_point list \<Rightarrow> bool" where
  "plain_ok cfg b \<longleftrightarrow>
     (int (length (block_raw b)) < IndexInterval cfg \<longrightarrow>
        \<not> zstd_magic (dataWithCRC b) \<and> ChecksumIEEE (block_raw b) \<noteq> 0)"

lemma block_readable_dataToWrite:
  assumes "zstd_roundtrip zenc zdec" and "zstd_rejects zdec" and "plain_ok cfg b"
    and "CRC32 e = ChecksumIEEE (block_raw b)"
  shows "block_readable zdec (dataToWrite zenc cfg lvl b) e b"
proof (cases "IndexInterval cfg \<le> int (length (block_raw b))")
  case True
  with assms show ?thesis by (simp add: block_readable_def dataToWrite_def zstd_roundtrip_def)
next
  case False
  with assms(3) have p: "\<not> zstd_magic (dataWithCRC b)" "ChecksumIEEE (block_raw b) \<noteq> 0"
    by (simp_all add: plain_ok_def)
  with assms(2) have "zdec (dataWithCRC b) = None" by (simp add: zstd_rejects_def length_dataWithCRC)
  with False p assms(4) show ?thesis by (simp add: block_readable_def dataToWrite_def)
qed

lemma sint_of_nat64: "n < 2 ^ 63 \<Longrightarrow> sint (of_nat n :: i64) = int n"
  by (simp add: signed_of_nat signed_take_bit_int_eq_self)

lemma make_bytes_of_nat: "n \<le> 2 ^ 48 \<Longrightarrow> make_bytes (of_nat n) = Inr n"
  by (simp add: make_bytes_def sint_of_nat64)

lemma read_at_of_nat:
  assumes "length pre + length bs \<le> 2 ^ 48"
  shows "read_at (pre @ bs @ rest) (of_nat (length pre)) (length bs) = Some bs"
  using assms by (simp add: read_at_def sint_of_nat64)

lemma entry_holds_append:
  assumes "entry_holds zdec data e b"
  shows "entry_holds zdec (data @ rest) e b"
proof -
  have "read_at (data @ rest) off n = Some raw" if "read_at data off n = Some raw" for off n raw
    using that by (auto simp: read_at_def split: if_splits)
  with assms show ?thesis
    by (fastforce simp: entry_holds_def split: sum.splits option.splits)
qed

lemma block_entry_holds:
  assumes "zstd_roundtrip zenc zdec" and "zstd_rejects zdec" and "plain_ok cfg b"
    and "b \<noteq> []" and "list_all point_ok b"
    and "length pre + length (dataToWrite zenc cfg lvl b) \<le> 2 ^ 48"
  shows "entry_holds zdec (pre @ dataToWrite zenc cfg lvl b @ rest)
    (block_entry (dataToWrite zenc cfg lvl) (length pre) b) b"
  using assms read_at_of_nat [OF assms(6), of rest]
    block_readable_dataToWrite [OF assms(1-3), of "block_entry (dataToWrite zenc cfg lvl) (length pre) b" lvl]
  by (simp add: entry_holds_def make_bytes_of_nat block_entry_def)

lemma log_entries_hold:
  assumes "zstd_roundtrip zenc zdec" and "zstd_rejects zdec" and "bb = dataToWrite zenc cfg lvl"
    and "\<forall>b \<in> set bs. b \<noteq> [] \<and> list_all point_ok b \<and> plain_ok cfg b"
    and "length pre + length (log_data bb bs) \<le> 2 ^ 48"
  shows "list_all2 (entry_holds zdec (pre @ log_data bb bs @ rest)) (log_entries bb (length pre) bs) bs"
  using assms(4,5)
proof (induction bs arbitrary: pre)
  case (Cons b bs)
  from Cons.prems have "length (pre @ bb b) + length (log_data bb bs) \<le> 2 ^ 48"
    by (simp add: log_data_def)
  with Cons.IH [of "pre @ bb b"] Cons.prems
  have "list_all2 (entry_holds zdec ((pre @ bb b) @ log_data bb bs @ rest))
      (log_entries bb (length (pre @ bb b)) bs) bs" by simp
  moreover have "entry_holds zdec (pre @ bb b @ log_data bb bs @ rest) (block_entry bb (length pre) b) b"
    using block_entry_holds [OF assms(1,2), of cfg b pre lvl "log_data bb bs @ rest"] Cons.prems assms(3)
    by (simp add: log_data_def)
  ultimately show ?case by (simp add: log_data_def)
qed simp

lemma day_file_extend:
  assumes "day_file zdec base ibase blocks0"
    and "list_all2 (entry_holds zdec (base @ rest)) es blocks"
  shows "day_file zdec (base @ rest) (ibase @ concat (map encode_entry es)) (blocks0 @ blocks)"
proof -
  let ?es0 = "readIndex_data ibase"
  have i: "ibase @ concat (map encode_entry es) = concat (map encode_entry (?es0 @ es))"
    using assms(1) by (simp add: day_file_def)
  have "list_all2 (entry_holds zdec (base @ rest)) ?es0 blocks0"
    using assms(1) by (auto simp: day_file_def intro: entry_holds_append elim!: list_all2_mono)
  with assms(2) show ?thesis
    unfolding day_file_def i readIndex_encode by (simp add: list_all2_appendI)
qed

lemma wrel_data:
  assumes "wrel zenc base ibase s a"
  shows "\<exists>rest. content (sysfs s) (dataFile (wr s)) =
    base @ log_data (block_bytes zenc (wr s)) (committed a) @ rest"
  using assms by (cases "pc s") (auto simp: wrel_def Let_def)

lemma wrel_day_file:
  assumes rel: "wrel zenc base ibase s a" and base: "day_file zdec base ibase blocks0"
    and z: "zstd_roundtrip zenc zdec" "zstd_rejects zdec"
    and bl: "\<forall>b \<in> set (committed a). list_all point_ok b \<and> plain_ok (config (wr s)) b"
    and len: "length (content (sysfs s) (dataFile (wr s))) \<le> 2 ^ 48"
  shows "day_file zdec (content (sysfs s) (dataFile (wr s))) (content (sysfs s) (idxFile (wr s)))
    (blocks0 @ committed a)"
proof -
  let ?bb = "block_bytes zenc (wr s)"
  from wrel_data [OF rel] obtain rest where
    d: "content (sysfs s) (dataFile (wr s)) = base @ log_data ?bb (committed a) @ rest" by blast
  have "\<forall>b \<in> set (committed a). b \<noteq> []" using rel by (auto simp: wrel_def Let_def)
  with log_entries_hold [OF z, of ?bb "config (wr s)" "encoder (wr s)" "committed a" base rest] bl len
  have "list_all2 (entry_holds zdec (base @ log_data ?bb (committed a) @ rest))
    (log_entries ?bb (length base) (committed a)) (committed a)"
    by (simp add: d block_bytes_def)
  from day_file_extend [OF base this] show ?thesis
    using rel d by (simp add: wrel_def Let_def log_index_def)
qed

subsection \<open>Properties of reading\<close>

text \<open>C13: the binary search on an index sorted by end time returns the first entry whose block ends at or
  after the time sought, and the length of the index when there is none.\<close>

theorem binarySearchIndex_spec:
  assumes "entries_sorted idxs"
  shows "0 \<le> binarySearchIndex idxs t \<and> first_ending idxs t (nat (binarySearchIndex idxs t))"
  by (rule binarySearchIndex_first [OF assms])

definition ex_entries :: "index_entry list" where
  "ex_entries =
     [\<lparr>StartTime = 1, EndTime = 4, Offset = 0, Length = 9, CRC32 = 7\<rparr>,
      \<lparr>StartTime = 4, EndTime = 6, Offset = 9, Length = 9, CRC32 = 7\<rparr>,
      \<lparr>StartTime = 8, EndTime = 9, Offset = 18, Length = 9, CRC32 = 7\<rparr>]"

theorem binarySearchIndex_spec_witness:
  "first_ending ex_entries 4 (nat (binarySearchIndex ex_entries 4))"
  using binarySearchIndex_spec [of ex_entries 4] by (simp add: ex_entries_def entries_sorted_def)

text \<open>C19: parsing a block of encoded points, followed by fewer than ten other bytes, gives the points in
  the queried range, in order, with every field.\<close>

theorem parsePoints_block:
  assumes "list_all point_ok ps" and "length tail < 10"
  shows "parsePoints (block_raw ps @ tail) st en = filter (in_range st en) ps"
  using assms by (simp add: block_raw_def parsePoints_encoded)

theorem parsePoints_block_witness:
  "parsePoints (block_raw ex_points @ [1, 2, 3, 4]) 6 9 = [\<lparr>Timestamp = 9, Values = []\<rparr>]"
  using parsePoints_block [of ex_points "[1, 2, 3, 4]" 6 9]
  by (simp add: ex_points_def point_ok_def)

text \<open>C11: a query with the index over a day file returns, without error, exactly the points in range of
  its blocks, in order and once each, if the points are in time order across the file.\<close>

theorem day_file_query:
  assumes "day_file zdec (content fs (readerFile r)) index blocks" and "time_ordered (concat blocks)"
  shows "QueryWithIndex zdec fs r st en (readIndex_data index) =
    Inr (Some (filter (in_range st en) (concat blocks)))"
  using assms by (intro QueryWithIndex_hold) (simp_all add: day_file_def)

lemma QueryWithIndex_in_range:
  assumes "QueryWithIndex zdec fs r st en idxs = Inr (Some ps)" and "p \<in> set ps"
  shows "in_range st en p"
proof -
  have parse: "set (parsePoints d st en) \<subseteq> {p. in_range st en p}"
    "set (parseLegacyFormat d st en) \<subseteq> {p. in_range st en p}" for d
    using parse_loop_sound [of d st en 0 "[]"] by (simp_all add: parsePoints_def parseLegacyFormat_def)
  have block: "set (block_points st en d) \<subseteq> {p. in_range st en p}" for d
    using parse(1) by (auto simp: block_points_def Let_def)
  have "set ps \<subseteq> set acc \<union> {p. in_range st en p}"
    if "blocks_loop zdec data st en bs acc = Inr (Some ps)" for data bs acc
    using that
  proof (induction bs arbitrary: acc)
    case (Cons b bs)
    then show ?case
      using parse(2) block
      by (fastforce simp: go_bind_eq_Inr split: option.splits if_splits)
  qed simp
  with assms show ?thesis
    by (fastforce simp: QueryWithIndex_def Let_def split: if_splits)
qed

text \<open>C14: whatever the file and the index hold, every point that a query with the index returns is in
  the range asked for.\<close>

theorem QueryWithIndex_sound:
  assumes "QueryWithIndex zdec fs r st en idxs = Inr (Some ps)" and "p \<in> set ps"
  shows "in_range st en p"
  using QueryWithIndex_in_range [OF assms] .

subsection \<open>A concrete day file\<close>

text \<open>For the witnesses: a compressor that puts the frame magic in front, its decompressor, and the
  file of one block of two points.\<close>

definition ex_zenc :: compressor where
  "ex_zenc lvl x = put_le32 0xFD2FB528 @ x"

definition ex_zdec :: decompressor where
  "ex_zdec x = (if 4 \<le> length x \<and> get_le32 x = 0xFD2FB528 then Some (drop 4 x) else None)"

definition ex_fs :: file_system where
  "ex_fs = \<lparr>names = [(''f'', 0)], content = (\<lambda>_. dataWithCRC ex_points), next_file = 1,
     denied = (\<lambda>_. False)\<rparr>"

definition ex_index :: bytes where
  "ex_index = concat (map encode_entry (log_entries (dataToWrite ex_zenc ex_config SpeedDefault) 0 [ex_points]))"

lemma ex_zstd: "zstd_roundtrip ex_zenc ex_zdec" "zstd_rejects ex_zdec"
  by (simp_all add: zstd_roundtrip_def zstd_rejects_def ex_zenc_def ex_zdec_def zstd_magic_def Let_def)

lemma ex_bytes: "block_raw ex_points = [5, 0, 0, 0, 0, 0, 0, 0, 0, 0, 9, 0, 0, 0, 0, 0, 0, 0, 0, 0]"
  by (simp add: block_raw_def ex_points_def EncodeSimplePoint_def codec_defs put_le_def byte_of_def
      upt_conv_Cons)

lemma ex_plain: "plain_ok ex_config ex_points"
  by (simp add: plain_ok_def ex_bytes ChecksumIEEE_def crc32_byte_eval zstd_magic_def dataWithCRC_def
      get_le32_def)

lemma ex_points_ok: "list_all point_ok ex_points" "time_ordered ex_points" "ex_points \<noteq> []"
  by (simp_all add: ex_points_def point_ok_def time_ordered_def)

lemma ex_day_file: "day_file ex_zdec (content ex_fs 0) ex_index [ex_points]"
proof -
  have e: "log_data (dataToWrite ex_zenc ex_config SpeedDefault) [ex_points] = dataWithCRC ex_points"
    by (simp add: log_data_def dataToWrite_def ex_config_def ex_bytes)
  have "length (dataWithCRC ex_points) = 24" by (simp add: length_dataWithCRC ex_bytes)
  with log_entries_hold [OF ex_zstd refl, of "[ex_points]" ex_config "[]" SpeedDefault "[]"]
    ex_plain ex_points_ok e
  have "list_all2 (entry_holds ex_zdec (dataWithCRC ex_points))
    (log_entries (dataToWrite ex_zenc ex_config SpeedDefault) 0 [ex_points]) [ex_points]"
    by (simp del: log_entries.simps)
  then show ?thesis
    unfolding day_file_def ex_index_def readIndex_encode by (simp add: ex_fs_def del: log_entries.simps)
qed

theorem day_file_query_witness:
  "QueryWithIndex ex_zdec ex_fs \<lparr>readerFile = 0\<rparr> 6 9 (readIndex_data ex_index) =
    Inr (Some [\<lparr>Timestamp = 9, Values = []\<rparr>])"
proof -
  have "filter (in_range 6 9) (concat [ex_points]) = [\<lparr>Timestamp = 9, Values = []\<rparr>]"
    by (simp add: ex_points_def)
  with day_file_query [of ex_zdec ex_fs "\<lparr>readerFile = 0\<rparr>" ex_index "[ex_points]" 6 9]
  show ?thesis using ex_day_file ex_points_ok(2) by simp
qed

theorem QueryWithIndex_sound_witness:
  "in_range 6 9 \<lparr>Timestamp = 9, Values = []\<rparr>"
proof (rule QueryWithIndex_sound)
  show "QueryWithIndex ex_zdec ex_fs \<lparr>readerFile = 0\<rparr> 6 9 (readIndex_data ex_index) =
      Inr (Some [\<lparr>Timestamp = 9, Values = []\<rparr>])"
    using QueryWithIndex_hold [of ex_zdec ex_fs "\<lparr>readerFile = 0\<rparr>" "readIndex_data ex_index" "[ex_points]" 6 9]
      ex_day_file ex_points_ok(2)
    by (simp add: day_file_def ex_points_def)
qed simp

subsection \<open>From the writer to the reader\<close>



subsection \<open>Where reading falls short\<close>

text \<open>C15: a damaged block costs only itself. If the block of one relevant entry decompresses to bytes
  whose checksum does not match, the query returns the points of the other relevant blocks.\<close>

theorem damaged_block_is_skipped:
  assumes "relevantBlocks st en idxs = es1 @ e # es2"
    and "list_all2 (entry_holds zdec (content fs (readerFile r))) es1 bs1"
    and "list_all2 (entry_holds zdec (content fs (readerFile r))) es2 bs2"
    and "make_bytes (Length e) = Inr n" and "read_at (content fs (readerFile r)) (Offset e) n = Some raw"
    and "zdec raw = None \<and> CRC32 e \<noteq> 0 \<and> d = raw \<or> zdec raw = Some d"
    and "ChecksumIEEE (take (length d - 4) d) \<noteq> get_le32 (drop (length d - 4) d)"
  shows "QueryWithIndex zdec fs r st en idxs =
    Inr (Some (filter (in_range st en) (concat (bs1 @ bs2))))"
proof -
  let ?data = "content fs (readerFile r)"
  have d: "block_points st en d = []" using assms(7) by (auto simp: block_points_def Let_def)
  have "blocks_loop zdec ?data st en (es @ es') acc =
      go_bind (blocks_loop zdec ?data st en es acc) (\<lambda>res.
        case res of None \<Rightarrow> Inr None | Some acc' \<Rightarrow> blocks_loop zdec ?data st en es' acc')"
    if "list_all2 (entry_holds zdec ?data) es bs" for es es' bs acc
    using that
  proof (induction arbitrary: acc rule: list_all2_induct)
    case (Cons x xs y ys)
    then show ?case
      by (fastforce simp: entry_holds_def block_readable_def split: sum.splits option.splits)
  qed simp
  from this [OF assms(2), of "e # es2" "[]"] show ?thesis
    using assms(1,4-6) d blocks_loop_hold [OF assms(2)] blocks_loop_hold [OF assms(3)]
    by (auto simp: QueryWithIndex_def Let_def)
qed

theorem damaged_block_is_skipped_witness:
  "QueryWithIndex ex_zdec (ex_fs\<lparr>content := \<lambda>_. replicate 24 0 @ dataWithCRC ex_points\<rparr>) \<lparr>readerFile = 0\<rparr> 1 9
     [\<lparr>StartTime = 1, EndTime = 2, Offset = 0, Length = 24, CRC32 = 7\<rparr>,
      block_entry dataWithCRC 24 ex_points] = Inr (Some ex_points)"
proof -
  let ?e = "\<lparr>StartTime = 1, EndTime = 2, Offset = 0, Length = 24, CRC32 = 7\<rparr>"
  let ?e2 = "block_entry dataWithCRC 24 ex_points" and ?d = "replicate 24 (0 :: byte)"
  let ?fs = "ex_fs\<lparr>content := \<lambda>_. ?d @ dataWithCRC ex_points\<rparr>"
  have bb: "dataToWrite ex_zenc ex_config lvl ex_points = dataWithCRC ex_points" for lvl
    by (simp add: dataToWrite_def ex_config_def ex_bytes)
  have h2: "list_all2 (entry_holds ex_zdec (?d @ dataWithCRC ex_points)) [?e2] [ex_points]"
    using block_entry_holds [OF ex_zstd ex_plain ex_points_ok(3,1), of ?d SpeedDefault "[]"] bb
    by (simp add: block_entry_def length_dataWithCRC ex_bytes)
  have "relevantBlocks 1 9 [?e, ?e2] = filter (overlaps 1 9) [?e, ?e2]"
    by (intro relevantBlocks_filter) (simp_all add: entries_sorted_def block_entry_def ex_points_def)
  then have rel: "relevantBlocks 1 9 [?e, ?e2] = [] @ ?e # [?e2]"
    by (simp add: overlaps_def block_entry_def ex_points_def)
  have zeros: "?d = [0, 0, 0, 0, 0, 0, 0, 0, 0, 0, 0, 0, 0, 0, 0, 0, 0, 0, 0, 0, 0, 0, 0, 0]"
    by (simp add: numeral_eq_Suc)
  have d: "ChecksumIEEE (take (length ?d - 4) ?d) \<noteq> get_le32 (drop (length ?d - 4) ?d)"
    unfolding zeros by (simp add: ChecksumIEEE_def crc32_byte_eval get_le32_def)
  have z: "ex_zdec ?d = None" unfolding zeros by (simp add: ex_zdec_def get_le32_def)
  have r: "make_bytes (Length ?e) = Inr 24" "read_at (content ?fs 0) (Offset ?e) 24 = Some ?d"
    by (simp_all add: make_bytes_def read_at_def)
  have "filter (in_range 1 9) (concat ([] @ [ex_points])) = ex_points" by (simp add: ex_points_def)
  with damaged_block_is_skipped [of 1 9 "[?e, ?e2]" "[]" ?e "[?e2]" ex_zdec ?fs "\<lparr>readerFile = 0\<rparr>" "[]"
      "[ex_points]" 24 ?d ?d] rel h2 r z d
  show ?thesis by simp
qed

text \<open>the old blocks without checksum end a query. If the first relevant block does not decompress and
  its entry has checksum zero (as every entry of the old 32-byte index has), the result is the points of
  that block alone: all later relevant blocks are dropped.\<close>

theorem legacy_block_ends_query:
  assumes "relevantBlocks st en idxs = e # es" and "CRC32 e = 0"
    and "make_bytes (Length e) = Inr n" and "read_at (content fs (readerFile r)) (Offset e) n = Some raw"
    and "zdec raw = None"
  shows "QueryWithIndex zdec fs r st en idxs = Inr (Some (parseLegacyFormat raw st en))"
  using assms by (simp add: QueryWithIndex_def Let_def)

theorem legacy_block_ends_query_witness:
  "QueryWithIndex ex_zdec (ex_fs\<lparr>content := \<lambda>_. block_raw ex_points\<rparr>) \<lparr>readerFile = 0\<rparr> 1 9
     [\<lparr>StartTime = 5, EndTime = 5, Offset = 0, Length = 10, CRC32 = 0\<rparr>,
      \<lparr>StartTime = 9, EndTime = 9, Offset = 10, Length = 10, CRC32 = 0\<rparr>]
   = Inr (Some [\<lparr>Timestamp = 5, Values = []\<rparr>])"
proof -
  let ?e = "\<lparr>StartTime = 5, EndTime = 5, Offset = 0, Length = 10, CRC32 = 0\<rparr> :: index_entry"
  let ?e2 = "\<lparr>StartTime = 9, EndTime = 9, Offset = 10, Length = 10, CRC32 = 0\<rparr> :: index_entry"
  let ?fs = "ex_fs\<lparr>content := \<lambda>_. block_raw ex_points\<rparr>"
  let ?raw = "block_raw [\<lparr>Timestamp = 5, Values = []\<rparr>]"
  have raw: "?raw = [5, 0, 0, 0, 0, 0, 0, 0, 0, 0]"
    by (simp add: block_raw_def EncodeSimplePoint_def codec_defs put_le_def byte_of_def upt_conv_Cons)
  have "relevantBlocks 1 9 [?e, ?e2] = filter (overlaps 1 9) [?e, ?e2]"
    by (intro relevantBlocks_filter) (simp_all add: entries_sorted_def)
  then have rel: "relevantBlocks 1 9 [?e, ?e2] = ?e # [?e2]" by (simp add: overlaps_def)
  have r: "make_bytes (Length ?e) = Inr 10" "read_at (content ?fs 0) (Offset ?e) 10 = Some ?raw"
    by (simp_all add: make_bytes_def read_at_def ex_bytes raw)
  have z: "ex_zdec ?raw = None" by (simp add: ex_zdec_def raw get_le32_def)
  have "parseLegacyFormat ?raw 1 9 = [\<lparr>Timestamp = 5, Values = []\<rparr>]"
    using parsePoints_encoded [of "[\<lparr>Timestamp = 5, Values = []\<rparr>]" "[]" 1 9]
    by (simp add: parseLegacyFormat_def parsePoints_def block_raw_def point_ok_def)
  with legacy_block_ends_query [of 1 9 "[?e, ?e2]" ?e "[?e2]" 10 ?fs "\<lparr>readerFile = 0\<rparr>" ?raw ex_zdec] rel r z
  show ?thesis by simp
qed

text \<open>blocks with points out of order are missed. A block whose last point is earlier than the range
  asked for is never read, even if another point of it is in range.\<close>

theorem out_of_order_block_missed:
  assumes "sint (Timestamp (last b)) < sint st"
  shows "QueryWithIndex zdec fs r st en [block_entry bb off b] = Inr (Some [])"
proof -
  have "search_loop [block_entry bb off b] st 1 0 = 1" by (simp add: search_loop.simps)
  then have "binarySearchIndex [block_entry bb off b] st = 1"
    using assms by (simp add: binarySearchIndex_def search_loop.simps [of _ _ 0] block_entry_def)
  then show ?thesis by (simp add: QueryWithIndex_def relevantBlocks_def Let_def)
qed

theorem out_of_order_block_missed_witness:
  "QueryWithIndex ex_zdec ex_fs \<lparr>readerFile = 0\<rparr> 9 9 [block_entry dataWithCRC 0 (rev ex_points)] = Inr (Some []) \<and>
    (\<exists>p \<in> set (rev ex_points). in_range 9 9 p)"
  using out_of_order_block_missed [of "rev ex_points" 9 ex_zdec ex_fs "\<lparr>readerFile = 0\<rparr>" 9 dataWithCRC 0]
  by (simp add: ex_points_def)

text \<open>a full scan reads a file of exactly one block right, compressed or not.\<close>

theorem full_scan_single_block:
  assumes "list_all point_ok b" and "content fs (readerFile r) = raw"
    and "zdec raw = Some (dataWithCRC b) \<or> zdec raw = None \<and> raw = dataWithCRC b"
  shows "Query zdec fs r st en = Some (filter (in_range st en) b)"
  using assms parsePoints_encoded [OF assms(1), of "[]" st en]
    parsePoints_encoded [OF assms(1), of "put_le32 (ChecksumIEEE (block_raw b))" st en]
  by (auto simp: Query_def dataWithCRC_def block_raw_def parsePoints_def parseLegacyFormat_def)

theorem full_scan_single_block_witness:
  "Query ex_zdec ex_fs \<lparr>readerFile = 0\<rparr> 6 9 = Some [\<lparr>Timestamp = 9, Values = []\<rparr>]"
proof -
  have "ex_zdec (dataWithCRC ex_points) = None"
    by (simp add: ex_zdec_def dataWithCRC_def ex_bytes get_le32_def)
  moreover have "filter (in_range 6 9) ex_points = [\<lparr>Timestamp = 9, Values = []\<rparr>]"
    by (simp add: ex_points_def)
  ultimately show ?thesis
    using full_scan_single_block [OF ex_points_ok(1), of ex_fs "\<lparr>readerFile = 0\<rparr>" _ ex_zdec 6 9]
    by (simp add: ex_fs_def)
qed

lemma le_value_bytes_45:
  "le_value [byte_of 4 t, byte_of 5 t] = (ucast (drop_bit 32 (t :: u64)) :: u16)"
  by (rule bit_word_eqI) (auto simp: byte_of_def bit_simps)

lemma full_scan_first_block:
  assumes "content fs (readerFile r) = dataWithCRC b @ EncodeSimplePoint p @ rest"
    and "zdec (content fs (readerFile r)) = None" and "list_all point_ok b"
    and "length (EncodeSimplePoint p @ rest) + 4 < 10 + 4 * unat (ucast (drop_bit 32 (Timestamp p)) :: u16)"
  shows "Query zdec fs r st en = Some (filter (in_range st en) b)"
proof -
  let ?crc = "put_le32 (ChecksumIEEE (block_raw b))" and ?o = "length (block_raw b)"
  let ?d = "block_raw b @ ?crc @ EncodeSimplePoint p @ rest"
  have d: "content fs (readerFile r) = ?d" using assms(1) by (simp add: dataWithCRC_def)
  have "sub ?d (?o + 8) (?o + 10) = [byte_of 4 (Timestamp p), byte_of 5 (Timestamp p)]"
    by (simp add: sub_def EncodeSimplePoint_def codec_defs put_le_def upt_conv_Cons numeral_eq_Suc)
  then have n: "get_le16 (sub ?d (?o + 8) (?o + 10)) = ucast (drop_bit 32 (Timestamp p))"
    by (simp add: get_le16_def le_value_bytes_45 del: le_value.simps)
  have "parse_loop ?d st en ?o acc = acc" for acc
    using assms(4) by (subst parse_loop.simps) (simp add: Let_def n)
  then have "parse_loop ?d st en 0 [] = filter (in_range st en) b"
    using parse_loop_prefix [OF assms(3), of "[]" "?crc @ EncodeSimplePoint p @ rest" st en "[]"]
    by (simp add: block_raw_def)
  with assms(2) show ?thesis by (simp add: Query_def d parseLegacyFormat_def)
qed

text \<open>a full scan of a file of several uncompressed blocks goes out of step at the first checksum: the
  four checksum bytes are taken for the start of a time, so that bytes 4 and 5 of the next point's time
  are its field count. If that count asks for more bytes than the rest of the file has, the scan ends
  there and returns only the points of the first block.\<close>

theorem full_scan_loses_blocks:
  assumes "content fs (readerFile r) = dataWithCRC b @ EncodeSimplePoint p @ rest"
    and "zdec (content fs (readerFile r)) = None" and "list_all point_ok b"
    and "length (EncodeSimplePoint p @ rest) + 4 < 10 + 4 * unat (ucast (drop_bit 32 (Timestamp p)) :: u16)"
  shows "Query zdec fs r st en = Some (filter (in_range st en) b)"
  using full_scan_first_block [of fs r b p rest zdec st en] assms by blast

text \<open>The second block's point is of 14 November 2023, the time \<open>1700000000000000000\<close>.\<close>

theorem full_scan_loses_blocks_witness:
  "Query ex_zdec (ex_fs\<lparr>content := \<lambda>_. dataWithCRC ex_points @
       dataWithCRC [\<lparr>Timestamp = 1700000000000000000, Values = []\<rparr>]\<rparr>) \<lparr>readerFile = 0\<rparr> 0 (2 ^ 62)
   = Some ex_points"
proof -
  let ?p = "\<lparr>Timestamp = 1700000000000000000, Values = []\<rparr>"
  let ?crc = "put_le32 (ChecksumIEEE (block_raw [?p]))"
  let ?fs = "ex_fs\<lparr>content := \<lambda>_. dataWithCRC ex_points @ dataWithCRC [?p]\<rparr>"
  have d: "content ?fs 0 = dataWithCRC ex_points @ EncodeSimplePoint ?p @ ?crc"
    by (simp add: dataWithCRC_def block_raw_def)
  have z: "ex_zdec (content ?fs 0) = None"
    by (simp add: ex_zdec_def dataWithCRC_def ex_bytes get_le32_def)
  have "filter (in_range 0 (2 ^ 62)) ex_points = ex_points" by (simp add: ex_points_def)
  with full_scan_loses_blocks [of ?fs "\<lparr>readerFile = 0\<rparr>" ex_points ?p ?crc ex_zdec 0 "2 ^ 62"] d z ex_points_ok(1)
  show ?thesis by simp
qed

end
