(* ===== verification/Decimal.thy ===== *)
theory Decimal
  imports Prelude
begin

text \<open>
  Decimal notation, as \<open>fmt\<close> and \<open>strconv\<close> write natural numbers, shared by the calendar, the storage
  engine and the SQL dialects; and reading it back.
\<close>

definition digit_char :: "int \<Rightarrow> char" where
  "digit_char d = char_of (48 + nat d)"

definition is_digit :: "char \<Rightarrow> bool" where
  "is_digit c \<longleftrightarrow> 48 \<le> (of_char c :: nat) \<and> (of_char c :: nat) \<le> 57"

text \<open>The test on the bits of a character, for evaluation.\<close>

lemma is_digit_Char [simp, code]:
  "is_digit (Char b0 b1 b2 b3 b4 b5 b6 b7) = (\<not> b7 \<and> \<not> b6 \<and> b5 \<and> b4 \<and> \<not> (b3 \<and> (b1 \<or> b2)))"
  unfolding is_digit_def of_char_Char
  by (cases b0; cases b1; cases b2; cases b3; cases b4; cases b5; cases b6; cases b7) simp_all

definition digit_val :: "char \<Rightarrow> int" where
  "digit_val c = int (of_char c) - 48"

lemma digit_char_props:
  assumes "0 \<le> d" and "d < 10"
  shows "is_digit (digit_char d)" and "digit_val (digit_char d) = d"
  using assms by (simp_all add: is_digit_def digit_val_def digit_char_def)

fun decimal :: "nat \<Rightarrow> string" where
  "decimal n = (if n < 10 then [digit_char (int n)] else decimal (n div 10) @ [digit_char (int (n mod 10))])"

declare decimal.simps [simp del]

lemma decimal_digits: "decimal n \<noteq> [] \<and> list_all is_digit (decimal n)"
  by (induction n rule: decimal.induct) (subst (1 2) decimal.simps, auto simp: digit_char_props)

definition decimal_value :: "string \<Rightarrow> int" where
  "decimal_value s = foldl (\<lambda>v c. v * 10 + digit_val c) 0 s"

lemma decimal_value_decimal: "decimal_value (decimal n) = int n"
proof (induction n rule: decimal.induct)
  case (1 n)
  show ?case
  proof (cases "n < 10")
    case True
    then show ?thesis by (subst decimal.simps) (simp add: decimal_value_def digit_char_props)
  next
    case False
    have "int (n div 10) * 10 + int (n mod 10) = int n" by presburger
    with 1 False show ?thesis
      by (subst decimal.simps) (simp add: decimal_value_def digit_char_props)
  qed
qed

lemma inj_decimal: "inj decimal"
  by (metis decimal_value_decimal injI of_nat_eq_iff)

text \<open>A signed number, as \<open>%d\<close> and \<open>strconv.Itoa\<close> write it.\<close>

definition signed_decimal :: "int \<Rightarrow> string" where
  "signed_decimal n = (if n < 0 then CHR ''-'' # decimal (nat (- n)) else decimal (nat n))"

lemma length_decimal: "0 < k \<Longrightarrow> length (decimal n) \<le> k \<longleftrightarrow> n < 10 ^ k"
proof (induction n arbitrary: k rule: decimal.induct)
  case (1 n)
  show ?case
  proof (cases "n < 10")
    case True
    have "(10 :: nat) \<le> 10 ^ k" using power_increasing [of 1 k "10 :: nat"] 1(2) by simp
    with True 1(2) show ?thesis by (subst decimal.simps) simp
  next
    case False
    have "1 \<le> length (decimal (n div 10))" using decimal_digits [of "n div 10"] by (cases "decimal (n div 10)") auto
    moreover obtain j where k: "k = Suc j" using 1(2) by (cases k) auto
    moreover have "n div 10 < 10 ^ j \<longleftrightarrow> n < 10 ^ Suc j" by (simp add: div_less_iff_less_mult mult.commute)
    ultimately show ?thesis
      using False 1(1) [OF False, of j] by (cases j) (subst decimal.simps, simp)+
  qed
qed

text \<open>\<open>strconv.Atoi\<close>: an optional sign, digits, and the range of \<open>int64\<close>.\<close>

definition Atoi :: "string \<Rightarrow> int option" where
  "Atoi s =
     (let neg = (s \<noteq> [] \<and> hd s = CHR ''-''); d = (if s \<noteq> [] \<and> (hd s = CHR ''-'' \<or> hd s = CHR ''+'') then tl s else s);
          v = (if neg then - decimal_value d else decimal_value d)
      in if d = [] \<or> \<not> list_all is_digit d then None
         else if - (2 ^ 63) \<le> v \<and> v < 2 ^ 63 then Some v else None)"

lemma Atoi_decimal: "n < 2 ^ 63 \<Longrightarrow> Atoi (decimal n) = Some (int n)"
proof -
  assume n: "n < 2 ^ 63"
  have "hd (decimal n) \<noteq> CHR ''-'' \<and> hd (decimal n) \<noteq> CHR ''+''"
    using decimal_digits [of n] by (cases "decimal n") auto
  moreover have "int n < 2 ^ 63" using n by simp
  ultimately show ?thesis
    using decimal_digits [of n] by (simp add: Atoi_def Let_def decimal_value_decimal)
qed

lemma Atoi_signed_decimal:
  assumes "- (2 ^ 63) \<le> n" and "n < 2 ^ 63"
  shows "Atoi (signed_decimal n) = Some n"
proof (cases "n < 0")
  case True
  then show ?thesis
    using assms decimal_digits [of "nat (- n)"]
    by (simp add: Atoi_def Let_def signed_decimal_def decimal_value_decimal)
next
  case False
  then have "nat n < 2 ^ 63" using assms False by (simp add: nat_less_iff)
  from Atoi_decimal [OF this] False show ?thesis by (simp add: signed_decimal_def)
qed

end
