(* ===== verification/Calendar.thy ===== *)
theory Calendar
  imports Soft_Float Decimal
begin

text \<open>
  The part of Go's \<open>time\<close> package that the storage engine uses: instants in nanoseconds since 1970,
  the civil date of a day number (the cycles of 400, 100, 4 and 1 years that the package uses), and
  \<open>Format\<close> and \<open>Parse\<close> with the layout \<open>2006-01-02\<close>. The local time zone is the parameter
  \<open>zone\<close>, its offset east of UTC in seconds; zones whose offset changes over the year are not
  modelled.
\<close>

subsection \<open>Civil dates\<close>

definition leap_year :: "int \<Rightarrow> bool" where
  "leap_year y \<longleftrightarrow> y mod 4 = 0 \<and> (y mod 100 \<noteq> 0 \<or> y mod 400 = 0)"

text \<open>Days are numbered from 1 January of the year 1.\<close>

definition days_before_year :: "int \<Rightarrow> int" where
  "days_before_year y = 365 * (y - 1) + (y - 1) div 4 - (y - 1) div 100 + (y - 1) div 400"

definition month_lengths :: "int \<Rightarrow> int list" where
  "month_lengths y = [31, if leap_year y then 29 else 28, 31, 30, 31, 30, 31, 31, 30, 31, 30, 31]"

fun find_month :: "int list \<Rightarrow> int \<Rightarrow> int \<Rightarrow> int \<times> int" where
  "find_month [] m yday = (m, yday + 1)"
| "find_month (l # ls) m yday = (if yday < l then (m, yday + 1) else find_month ls (m + 1) (yday - l))"

definition year_day :: "int \<Rightarrow> int \<times> int" where
  "year_day n =
     (let n400 = n div 146097; r400 = n mod 146097;
          n100 = min 3 (r400 div 36524); r100 = r400 - n100 * 36524;
          n4 = r100 div 1461; r4 = r100 mod 1461;
          n1 = min 3 (r4 div 365)
      in (400 * n400 + 100 * n100 + 4 * n4 + n1 + 1, r4 - n1 * 365))"

definition civil_of_day :: "int \<Rightarrow> int \<times> int \<times> int" where
  "civil_of_day n = (let (y, yday) = year_day n; (m, d) = find_month (month_lengths y) 1 yday in (y, m, d))"

definition day_of_civil :: "int \<Rightarrow> int \<Rightarrow> int \<Rightarrow> int" where
  "day_of_civil y m d = days_before_year y + sum_list (take (nat (m - 1)) (month_lengths y)) + d - 1"

lemma divmod_unique: "x = k * q + r \<Longrightarrow> 0 \<le> r \<Longrightarrow> r < k \<Longrightarrow> x div k = q \<and> x mod k = (r :: int)"
  by (simp add: int_div_pos_eq int_mod_pos_eq)

lemma mod_zero_pred:
  assumes "(0 :: int) < k"
  shows "x mod k = 0 \<longleftrightarrow> (x - 1) mod k = k - 1"
proof -
  define r where "r = (x - 1) mod k"
  have r: "0 \<le> r" "r < k" using assms by (simp_all add: r_def)
  have "x mod k = (r + 1) mod k" by (simp add: r_def mod_add_left_eq)
  also have "\<dots> = (if r = k - 1 then 0 else r + 1)" using r by simp
  finally show ?thesis using r by (simp add: r_def)
qed

lemma year_day_correct:
  assumes "year_day n = (y, yday)"
  shows "days_before_year y + yday = n \<and> 0 \<le> yday \<and> yday < (if leap_year y then 366 else 365)"
proof -
  define a where "a = n div 146097"
  define r where "r = n mod 146097"
  define b where "b = min 3 (r div 36524)"
  define s where "s = r - b * 36524"
  define c where "c = s div 1461"
  define t where "t = s mod 1461"
  define d where "d = min 3 (t div 365)"
  have y: "y = 400 * a + 100 * b + 4 * c + d + 1" "yday = t - d * 365"
    using assms unfolding year_day_def Let_def a_def b_def c_def d_def r_def s_def t_def by simp_all
  have n: "n = 146097 * a + r" "0 \<le> r" "r < 146097" by (simp_all add: a_def r_def)
  have b: "0 \<le> b" "b \<le> 3" "0 \<le> s" "s < 36524 \<or> b = 3" "s \<le> 36524"
    using n unfolding s_def b_def by linarith+
  have c: "s = 1461 * c + t" "0 \<le> t" "t < 1461" by (simp_all add: c_def t_def)
  then have c24: "0 \<le> c" "c \<le> 24" using b by linarith+
  have d: "0 \<le> d" "d \<le> 3" "d * 365 \<le> t" "t < d * 365 + 365 \<or> d = 3"
    using c unfolding d_def by linarith+
  have q4: "(y - 1) div 4 = 100 * a + 25 * b + c \<and> (y - 1) mod 4 = d"
    and q100: "(y - 1) div 100 = 4 * a + b \<and> (y - 1) mod 100 = 4 * c + d"
    and q400: "(y - 1) div 400 = a \<and> (y - 1) mod 400 = 100 * b + 4 * c + d"
    by - (rule divmod_unique; use y(1) b(1,2) c24 d(1,2) in simp)+
  then have div: "(y - 1) div 4 = 100 * a + 25 * b + c" "(y - 1) div 100 = 4 * a + b" "(y - 1) div 400 = a"
    by simp_all
  have "days_before_year y + yday = n"
    unfolding days_before_year_def div using y n(1) c(1) unfolding s_def by simp
  moreover have "leap_year y \<longleftrightarrow> d = 3 \<and> (c < 24 \<or> b = 3)"
  proof -
    have "y mod 4 = 0 \<longleftrightarrow> d = 3" using q4 by (simp add: mod_zero_pred)
    moreover have "y mod 100 = 0 \<longleftrightarrow> d = 3 \<and> c = 24" using q100 c24 d by (simp add: mod_zero_pred) linarith
    moreover have "y mod 400 = 0 \<longleftrightarrow> d = 3 \<and> c = 24 \<and> b = 3"
      using q400 b c24 d by (simp add: mod_zero_pred) linarith
    ultimately show ?thesis using c24 unfolding leap_year_def by auto
  qed
  moreover have "yday < 365 \<or> yday < 366 \<and> d = 3 \<and> (c < 24 \<or> b = 3)"
    using y b c c24 d by linarith
  moreover have "0 \<le> yday" using y d by simp
  ultimately show ?thesis by auto
qed

lemma find_month_correct:
  assumes "find_month ls m yday = (m', d)" and "0 \<le> yday" and "yday < sum_list ls"
  shows "m \<le> m' \<and> m' < m + int (length ls) \<and> 1 \<le> d \<and> d \<le> ls ! nat (m' - m) \<and>
    sum_list (take (nat (m' - m)) ls) + d - 1 = yday"
  using assms
proof (induction ls m yday rule: find_month.induct)
  case (2 l ls m yday)
  show ?case
  proof (cases "yday < l")
    case True
    with 2 show ?thesis by auto
  next
    case False
    with 2 have IH: "m + 1 \<le> m' \<and> m' < m + 1 + int (length ls) \<and> 1 \<le> d \<and> d \<le> ls ! nat (m' - (m + 1)) \<and>
      sum_list (take (nat (m' - (m + 1))) ls) + d - 1 = yday - l" by simp
    then have "nat (m' - m) = Suc (nat (m' - (m + 1)))" by linarith
    with IH show ?thesis by simp
  qed
qed simp

lemma sum_month_lengths: "sum_list (month_lengths y) = (if leap_year y then 366 else 365)"
  by (simp add: month_lengths_def)

definition valid_civil :: "int \<Rightarrow> int \<Rightarrow> int \<Rightarrow> bool" where
  "valid_civil y m d \<longleftrightarrow> 1 \<le> m \<and> m \<le> 12 \<and> 1 \<le> d \<and> d \<le> month_lengths y ! nat (m - 1)"

lemma civil_of_day_correct:
  assumes "civil_of_day n = (y, m, d)"
  shows "day_of_civil y m d = n \<and> valid_civil y m d"
proof -
  obtain yday where yd: "year_day n = (y, yday)" and fm: "find_month (month_lengths y) 1 yday = (m, d)"
    using assms by (auto simp: civil_of_day_def split: prod.splits)
  note yd' = year_day_correct [OF yd]
  with find_month_correct [OF fm] show ?thesis
    by (auto simp: day_of_civil_def valid_civil_def sum_month_lengths month_lengths_def)
qed

subsection \<open>Format and Parse\<close>

text \<open>Days since 1970, the day number of 1970-01-01 being 719162.\<close>

definition two_digits :: "int \<Rightarrow> string" where
  "two_digits n = [digit_char (n div 10), digit_char (n mod 10)]"

text \<open>\<open>Format("2006-01-02")\<close>, for the years 0 to 9999 (an \<open>int64\<close> of nanoseconds is within the years
  1677 to 2262).\<close>

definition format_day :: "int \<Rightarrow> string" where
  "format_day n =
     (let (y, m, d) = civil_of_day (n + 719162)
      in two_digits (y div 100) @ two_digits (y mod 100) @ ''-'' @ two_digits m @ ''-'' @ two_digits d)"

text \<open>\<open>time.Parse("2006-01-02", s)\<close>, as the day number: four digits, two digits, two digits, nothing
  else, and a month and a day that exist.\<close>

fun parse_day :: "string \<Rightarrow> int option" where
  "parse_day [y1, y2, y3, y4, s1, m1, m2, s2, d1, d2] =
     (if list_all is_digit [y1, y2, y3, y4, m1, m2, d1, d2] \<and> s1 = CHR ''-'' \<and> s2 = CHR ''-''
      then
        (let y = digit_val y1 * 1000 + digit_val y2 * 100 + digit_val y3 * 10 + digit_val y4;
             m = digit_val m1 * 10 + digit_val m2;
             d = digit_val d1 * 10 + digit_val d2
         in if valid_civil y m d then Some (day_of_civil y m d - 719162) else None)
      else None)"
| "parse_day _ = None"

lemma length_format_day [simp]: "length (format_day n) = 10"
  by (simp add: format_day_def two_digits_def split: prod.split)

text \<open>The days of the years 1 to 9999, less the last four years.\<close>

definition day_ok :: "int \<Rightarrow> bool" where
  "day_ok n \<longleftrightarrow> - 719162 \<le> n \<and> n < 2930473"

lemma civil_year_range:
  assumes "civil_of_day n = (y, m, d)" and "0 \<le> n" and "n < 3649635"
  shows "1 \<le> y \<and> y \<le> 9999"
proof -
  obtain yday where yd: "year_day n = (y, yday)"
    using assms(1) by (auto simp: civil_of_day_def split: prod.splits)
  from year_day_correct [OF yd] have n: "days_before_year y + yday = n" "0 \<le> yday" "yday < 366"
    by (auto split: if_splits)
  define k where "k = y - 1"
  have e: "days_before_year y = 365 * k + k div 4 - k div 100 + k div 400"
    by (simp add: days_before_year_def k_def)
  have "0 \<le> k"
  proof (rule ccontr)
    assume "\<not> 0 \<le> k"
    then have "365 * k \<le> - 365" "k div 4 \<le> k div 100" "k div 400 \<le> - 1" by linarith+
    with n e assms(2) show False by linarith
  qed
  moreover have "k \<le> 9998"
  proof (rule ccontr)
    assume "\<not> k \<le> 9998"
    then have "3649635 \<le> 365 * k" "k div 100 \<le> k div 4" "0 \<le> k div 400" by linarith+
    with n e assms(3) show False by linarith
  qed
  ultimately show ?thesis by (simp add: k_def)
qed

lemma parse_format_day:
  assumes "day_ok n"
  shows "parse_day (format_day n) = Some n"
proof -
  obtain y m d where c: "civil_of_day (n + 719162) = (y, m, d)" by (cases "civil_of_day (n + 719162)")
  from civil_of_day_correct [OF c] have v: "day_of_civil y m d = n + 719162" "valid_civil y m d" by simp_all
  have y: "1 \<le> y" "y \<le> 9999" using civil_year_range [OF c] assms by (simp_all add: day_ok_def)
  have "month_lengths y ! nat (m - 1) \<le> 31" if "1 \<le> m" "m \<le> 12"
  proof -
    have "nat (m - 1) < length (month_lengths y)" using that by (simp add: month_lengths_def)
    moreover have "list_all (\<lambda>l. l \<le> 31) (month_lengths y)" by (simp add: month_lengths_def)
    ultimately show ?thesis by (simp add: list_all_length)
  qed
  with v(2) have md: "1 \<le> m" "m \<le> 12" "1 \<le> d" "d \<le> 31" by (auto simp: valid_civil_def)
  define y1 y2 y3 y4 where "y1 = y div 100 div 10" and "y2 = y div 100 mod 10"
    and "y3 = y mod 100 div 10" and "y4 = y mod 100 mod 10"
  define m1 m2 d1 d2 where "m1 = m div 10" and "m2 = m mod 10" and "d1 = d div 10" and "d2 = d mod 10"
  note defs = y1_def y2_def y3_def y4_def m1_def m2_def d1_def d2_def
  have f: "format_day n =
    [digit_char y1, digit_char y2, digit_char y3, digit_char y4, CHR ''-'', digit_char m1, digit_char m2,
     CHR ''-'', digit_char d1, digit_char d2]"
    unfolding format_day_def c two_digits_def defs Let_def prod.case by (simp only: append.simps)
  have y4: "y1 * 1000 + y2 * 100 + y3 * 10 + y4 = y" and m2: "m1 * 10 + m2 = m" and d2: "d1 * 10 + d2 = d"
  proof -
    have "y = 100 * (y div 100) + y mod 100" "y div 100 = 10 * y1 + y2" "y mod 100 = 10 * y3 + y4"
      by (simp_all only: defs mult_div_mod_eq)
    then show "y1 * 1000 + y2 * 100 + y3 * 10 + y4 = y" by linarith
  qed (simp_all only: defs div_mult_mod_eq)
  have "0 \<le> y div 100" "y div 100 < 100" "0 \<le> y mod 100" "y mod 100 < 100" using y by linarith+
  then have "0 \<le> y1" "y1 < 10" "0 \<le> y2" "y2 < 10" "0 \<le> y3" "y3 < 10" "0 \<le> y4" "y4 < 10"
    and "0 \<le> m1" "m1 < 10" "0 \<le> m2" "m2 < 10" "0 \<le> d1" "d1 < 10" "0 \<le> d2" "d2 < 10"
    using md unfolding defs by linarith+
  note dig = digit_char_props [OF this(1,2)] digit_char_props [OF this(3,4)] digit_char_props [OF this(5,6)]
    digit_char_props [OF this(7,8)] digit_char_props [OF this(9,10)] digit_char_props [OF this(11,12)]
    digit_char_props [OF this(13,14)] digit_char_props [OF this(15,16)]
  show ?thesis
    unfolding f parse_day.simps dig Let_def y4 m2 d2 using v dig by simp
qed

subsection \<open>Instants\<close>

text \<open>An instant is a number of nanoseconds since 1970, \<open>time.Unix(0, ns)\<close> for an \<open>int64\<close> \<open>ns\<close>.\<close>

definition ns_per_sec :: int where "ns_per_sec = 1000000000"
definition ns_per_day :: int where "ns_per_day = 86400000000000"

definition local_day :: "int \<Rightarrow> int \<Rightarrow> int" where
  "local_day zone t = (t + zone * ns_per_sec) div ns_per_day"

text \<open>\<open>t.Format("2006-01-02")\<close> in the local zone.\<close>

definition format_local :: "int \<Rightarrow> int \<Rightarrow> string" where
  "format_local zone t = format_day (local_day zone t)"

text \<open>\<open>t.AddDate(0, 0, -days)\<close> in a zone of constant offset.\<close>

definition add_days :: "int \<Rightarrow> int \<Rightarrow> int" where
  "add_days t days = t + days * ns_per_day"

text \<open>\<open>now.Sub(t)\<close>, which saturates at the ends of an \<open>int64\<close>, and \<open>Duration.Hours\<close>: the hours and the
  rest, each truncated toward zero, added as \<open>float64\<close>.\<close>

definition time_sub :: "int \<Rightarrow> int \<Rightarrow> int" where
  "time_sub t u = max (- (2 ^ 63)) (min (2 ^ 63 - 1) (t - u))"

definition duration_hours :: "int \<Rightarrow> f64" where
  "duration_hours d =
     (let hour = sgn d * (\<bar>d\<bar> div 3600000000000); nsec = sgn d * (\<bar>d\<bar> mod 3600000000000)
      in f64_add (f64_of_int hour) (f64_div (f64_of_int nsec) (f64_of_int 3600000000000)))"

definition f64_is_nan :: "f64 \<Rightarrow> bool" where
  "f64_is_nan x \<longleftrightarrow> 0x7FF * 2 ^ 52 < unat x mod 2 ^ 63"

definition f64_order :: "f64 \<Rightarrow> int" where
  "f64_order x = (if 2 ^ 63 \<le> unat x then - int (unat x mod 2 ^ 63) else int (unat x))"

definition f64_less :: "f64 \<Rightarrow> f64 \<Rightarrow> bool" where
  "f64_less x y \<longleftrightarrow> \<not> f64_is_nan x \<and> \<not> f64_is_nan y \<and> f64_order x < f64_order y"

end
