(* ===== verification/Paths.thy ===== *)
theory Paths
  imports Main
begin

text \<open>
  \<open>path/filepath\<close> on Unix, as far as the storage engine uses it: \<open>Join\<close> and the lexical cleaning it
  does. Device identifiers come from the network and become path elements, so what cleaning makes
  of \<open>..\<close> matters.
\<close>

fun split_path :: "string \<Rightarrow> string list" where
  "split_path [] = [[]]"
| "split_path (c # cs) =
     (if c = CHR ''/'' then [] # split_path cs
      else case split_path cs of [] \<Rightarrow> [[c]] | e # es \<Rightarrow> (c # e) # es)"

fun join_path :: "string list \<Rightarrow> string" where
  "join_path [] = []"
| "join_path [x] = x"
| "join_path (x # xs) = x @ CHR ''/'' # join_path xs"

text \<open>One element of \<open>filepath.Clean\<close>, on the stack of the elements kept so far.\<close>

definition clean_step :: "bool \<Rightarrow> string list \<Rightarrow> string \<Rightarrow> string list" where
  "clean_step rooted stack e =
     (if e = [] \<or> e = ''.'' then stack
      else if e = ''..'' then
        (case stack of
           [] \<Rightarrow> if rooted then [] else [''..'']
         | s # ss \<Rightarrow> if s = ''..'' then ''..'' # stack else ss)
      else e # stack)"

definition rooted :: "string \<Rightarrow> bool" where
  "rooted p \<longleftrightarrow> (case p of [] \<Rightarrow> False | c # _ \<Rightarrow> c = CHR ''/'')"

definition clean_elems :: "string \<Rightarrow> string list" where
  "clean_elems p = rev (foldl (clean_step (rooted p)) [] (split_path p))"

definition render :: "bool \<Rightarrow> string list \<Rightarrow> string" where
  "render r es = (let p = (if r then CHR ''/'' # join_path es else join_path es) in if p = [] then ''.'' else p)"

definition Clean :: "string \<Rightarrow> string" where
  "Clean p = render (rooted p) (clean_elems p)"

definition Join :: "string list \<Rightarrow> string" where
  "Join elems = (case dropWhile (\<lambda>e. e = []) elems of [] \<Rightarrow> [] | es \<Rightarrow> Clean (join_path es))"

subsection \<open>Splitting and joining\<close>

definition no_slash :: "string \<Rightarrow> bool" where
  "no_slash e \<longleftrightarrow> CHR ''/'' \<notin> set e"

text \<open>The elements that cleaning keeps as they are.\<close>

definition plain_elem :: "string \<Rightarrow> bool" where
  "plain_elem e \<longleftrightarrow> no_slash e \<and> e \<noteq> [] \<and> e \<noteq> ''.'' \<and> e \<noteq> ''..''"

lemma split_path_nonempty [simp]: "split_path p \<noteq> []"
  by (induction p) (auto split: list.split)

lemma split_no_slash: "no_slash e \<Longrightarrow> split_path e = [e]"
  by (induction e) (auto simp: no_slash_def)

lemma split_append_slash: "split_path (p @ CHR ''/'' # q) = split_path p @ split_path q"
proof (induction p)
  case (Cons c p)
  then show ?case by (cases "split_path p") auto
qed simp

lemma join_Cons: "xs \<noteq> [] \<Longrightarrow> join_path (x # xs) = x @ CHR ''/'' # join_path xs"
  by (cases xs) auto

lemma split_join: "xs \<noteq> [] \<Longrightarrow> list_all no_slash xs \<Longrightarrow> split_path (join_path xs) = xs"
proof (induction xs rule: join_path.induct)
  case (3 x y ys)
  then show ?case by (simp only: join_path.simps split_append_slash) (simp add: split_no_slash)
qed (simp_all add: split_no_slash)

lemma set_split_no_slash: "e \<in> set (split_path p) \<Longrightarrow> no_slash e"
proof (induction p arbitrary: e)
  case (Cons c p)
  then show ?case
    by (cases "split_path p") (auto simp: no_slash_def split: if_splits)
qed (simp add: no_slash_def)

subsection \<open>Cleaned elements\<close>

text \<open>What cleaning leaves: plain elements after some \<open>..\<close>, none of these in a rooted path. The stack
  has the last element first.\<close>

fun clean_stack :: "bool \<Rightarrow> string list \<Rightarrow> bool" where
  "clean_stack r [] = True"
| "clean_stack r (e # es) =
     (no_slash e \<and> e \<noteq> [] \<and> e \<noteq> ''.'' \<and> clean_stack r es \<and>
      (e = ''..'' \<longrightarrow> \<not> r \<and> list_all (\<lambda>f. f = ''..'') es))"

lemma clean_step_stack:
  "clean_stack r stack \<Longrightarrow> no_slash e \<Longrightarrow> clean_stack r (clean_step r stack e)"
  by (cases stack) (auto simp: clean_step_def no_slash_def)

lemma foldl_clean_stack:
  "clean_stack r stack \<Longrightarrow> list_all no_slash es \<Longrightarrow> clean_stack r (foldl (clean_step r) stack es)"
  by (induction es arbitrary: stack) (simp_all add: clean_step_stack)

lemma clean_elems_stack: "clean_stack (rooted p) (rev (clean_elems p))"
  unfolding clean_elems_def rev_rev_ident
  by (rule foldl_clean_stack) (auto simp: list_all_iff intro: set_split_no_slash)

lemma clean_stack_no_slash: "clean_stack r es \<Longrightarrow> list_all no_slash es"
  by (induction es) auto

lemma foldl_clean_plain:
  "list_all plain_elem es \<Longrightarrow> foldl (clean_step r) stack es = rev es @ stack"
  by (induction es arbitrary: stack) (auto simp: clean_step_def plain_elem_def)

lemma foldl_clean_again: "clean_stack r es \<Longrightarrow> foldl (clean_step r) [] (rev es) = es"
proof (induction es)
  case (Cons e es)
  then show ?case by (cases es) (auto simp: clean_step_def)
qed simp

lemma rooted_append [simp]: "p \<noteq> [] \<Longrightarrow> rooted (p @ q) = rooted p"
  by (cases p) (auto simp: rooted_def)

lemma join_path_Nil: "list_all (\<lambda>e. e \<noteq> []) es \<Longrightarrow> join_path es = [] \<longleftrightarrow> es = []"
  by (induction es rule: join_path.induct) auto

lemma rooted_join: "es \<noteq> [] \<Longrightarrow> list_all (\<lambda>e. e \<noteq> []) es \<Longrightarrow> list_all no_slash es \<Longrightarrow> \<not> rooted (join_path es)"
proof (cases es)
  case (Cons e fs)
  assume "list_all (\<lambda>e. e \<noteq> []) es" "list_all no_slash es"
  with Cons show ?thesis
    by (cases e; cases fs) (auto simp: rooted_def no_slash_def)
qed simp

lemma clean_stack_nonempty: "clean_stack r es \<Longrightarrow> list_all (\<lambda>e. e \<noteq> []) es"
  by (induction es) auto

lemma render_parts:
  assumes "clean_stack r (rev es)" and "es \<noteq> []"
  shows "rooted (render r es) = r" and "clean_elems (render r es) = es" and "render r es \<noteq> []"
proof -
  have ne: "list_all (\<lambda>e. e \<noteq> []) es" and ns: "list_all no_slash es"
    using clean_stack_nonempty [OF assms(1)] clean_stack_no_slash [OF assms(1)]
    by (simp_all add: list_all_rev)
  have j: "join_path es \<noteq> []" using join_path_Nil [OF ne] assms(2) by simp
  then have r: "render r es = (if r then CHR ''/'' # join_path es else join_path es)"
    by (simp add: render_def)
  then show ro: "rooted (render r es) = r"
    using rooted_join [OF assms(2) ne ns] by (auto simp: rooted_def)
  have "split_path (render r es) = (if r then [] # es else es)"
    using split_join [OF assms(2) ns] by (simp add: r)
  then show "clean_elems (render r es) = es"
    unfolding clean_elems_def ro using foldl_clean_again [OF assms(1)]
    by (auto simp: clean_step_def)
  show "render r es \<noteq> []" using j by (simp add: r)
qed

lemma clean_stack_plain: "list_all plain_elem es \<Longrightarrow> clean_stack r st \<Longrightarrow> clean_stack r (rev es @ st)"
  by (induction es arbitrary: st) (auto simp: plain_elem_def)

lemma Join_plain:
  assumes "D \<noteq> []" and "list_all plain_elem es" and "es \<noteq> []"
  shows "Join (D # es) = render (rooted D) (clean_elems D @ es)"
proof -
  have j: "join_path (D # es) = D @ CHR ''/'' # join_path es" by (rule join_Cons [OF assms(3)])
  have "split_path (join_path (D # es)) = split_path D @ es"
    unfolding j split_append_slash using assms(2,3) split_join [of es]
    by (simp add: list_all_iff plain_elem_def)
  then have "clean_elems (join_path (D # es)) = clean_elems D @ es"
    unfolding clean_elems_def j rooted_append [OF assms(1)]
    by (simp add: foldl_clean_plain [OF assms(2)])
  moreover have "rooted (join_path (D # es)) = rooted D" unfolding j using assms(1) by simp
  ultimately show ?thesis using assms(1) by (simp add: Join_def Clean_def)
qed

lemma plain_stack: "list_all plain_elem es \<Longrightarrow> clean_stack (rooted D) (rev (clean_elems D @ es))"
  using clean_stack_plain [OF _ clean_elems_stack] by simp

text \<open>Plain elements are told apart by the path, and a path can be extended in two steps.\<close>

lemma Join_inject:
  assumes "D \<noteq> []" and "list_all plain_elem es" and "es \<noteq> []" and "list_all plain_elem fs" and "fs \<noteq> []"
  shows "Join (D # es) = Join (D # fs) \<longleftrightarrow> es = fs"
  using render_parts(2) [OF plain_stack [OF assms(2), of D]]
    render_parts(2) [OF plain_stack [OF assms(4), of D]] assms
  by (metis Join_plain append_is_Nil_conv same_append_eq)

lemma Join_Join:
  assumes "D \<noteq> []" and "list_all plain_elem es" and "es \<noteq> []" and "list_all plain_elem fs" and "fs \<noteq> []"
  shows "Join (Join (D # es) # fs) = Join (D # es @ fs)"
proof -
  have c: "clean_elems D @ es \<noteq> []" using assms(3) by simp
  note p = render_parts [OF plain_stack [OF assms(2), of D] c]
  have "Join (D # es) = render (rooted D) (clean_elems D @ es)" by (rule Join_plain [OF assms(1-3)])
  with p Join_plain [OF p(3) assms(4,5)] Join_plain [OF assms(1), of "es @ fs"] assms
  show ?thesis by simp
qed

text \<open>A joined path below a joined directory.\<close>

lemma join_path_snoc: "es \<noteq> [] \<Longrightarrow> join_path (es @ [e]) = join_path es @ CHR ''/'' # e"
proof (induction es)
  case (Cons x xs)
  then show ?case by (cases xs) simp_all
qed simp

lemma Join_snoc:
  assumes "D \<noteq> []" and "list_all plain_elem es" and "es \<noteq> []" and "plain_elem e"
  shows "Join (D # es @ [e]) = Join (D # es) @ CHR ''/'' # e"
proof -
  let ?cs = "clean_elems D @ es"
  have j: "join_path (?cs @ [e]) = join_path ?cs @ CHR ''/'' # e"
    using assms(3) by (intro join_path_snoc) simp
  have "list_all (\<lambda>e. e \<noteq> []) (rev ?cs)" by (rule clean_stack_nonempty [OF plain_stack [OF assms(2)]])
  then have "join_path ?cs \<noteq> []" using join_path_Nil [of ?cs] assms(3) by (simp add: list_all_rev)
  then have "render (rooted D) (?cs @ [e]) = render (rooted D) ?cs @ CHR ''/'' # e"
    by (simp add: render_def j del: append_assoc)
  with Join_plain [OF assms(1), of "es @ [e]"] Join_plain [OF assms(1-3)] assms show ?thesis by simp
qed

end
