(* ===== verification/Storage.thy ===== *)
theory Storage
  imports Day_File Calendar Paths "HOL-Library.AList" "HOL-Library.List_Lexorder" "HOL-Library.Char_ord"
begin

text \<open>
  \<open>tffiles/storage.go\<close>: the storage engine. It keeps one day writer per device and day, groups
  incoming points by local day, answers range queries from the hot and the cold file of every day
  in the range, and has two background jobs: deleting expired files and moving old files to the
  cold tier. Flushing a writer is one step here; its interleavings are in \<open>Day_Writer\<close>.

  What the engine gets from its surroundings is in one record: the time zone, the compression
  library, the orders in which Go iterates over a map and in which concurrent goroutines finish,
  and the outcome of the writes. Paths are strings; directories exist as far as files are in them.
\<close>

subsection \<open>State\<close>

record environment =
  zone :: int
  compress :: compressor
  decompress :: decompressor
  map_order :: "(string \<times> simple_point list) list \<Rightarrow> (string \<times> simple_point list) list"
  sched :: "int list \<Rightarrow> int list"
  io_data :: io_result
  io_index :: io_result

record storage =
  sconfig :: storage_config
  disk :: file_system
  writers :: "(string \<times> day_writer) list"
  deviceSchemas :: "(string \<times> string list) list"

datatype storage_error = MkdirError string | OpenError string

definition DefaultConfig :: "string \<Rightarrow> storage_config" where
  "DefaultConfig dataDir =
     \<lparr>DataDir = dataDir, HotDays = 3, RetentionDays = 30, CompressLevel = 6,
      IndexInterval = 64 * 1024, MaxMemoryMB = 512\<rparr>"

text \<open>\<open>os.MkdirAll\<close> fails on a path that the system denies.\<close>

definition NewStorage :: "file_system \<Rightarrow> storage_config \<Rightarrow> storage option" where
  "NewStorage fs cfg =
     (if denied fs (DataDir cfg) then None
      else if denied fs (Join [DataDir cfg, ''hot'']) then None
      else if denied fs (Join [DataDir cfg, ''cold'']) then None
      else Some \<lparr>sconfig = cfg, disk = fs, writers = [], deviceSchemas = []\<rparr>)"

subsection \<open>Device schemas\<close>

definition field_names :: "nat \<Rightarrow> string list" where
  "field_names fieldCount = map (\<lambda>i. ''field_'' @ decimal i) [0..<fieldCount]"

definition registerSchema :: "storage \<Rightarrow> string \<Rightarrow> nat \<Rightarrow> storage" where
  "registerSchema s dev fieldCount =
     (if map_of (deviceSchemas s) dev \<noteq> None then s
      else s\<lparr>deviceSchemas := (dev, field_names fieldCount) # deviceSchemas s\<rparr>)"

definition GetDeviceSchema :: "storage \<Rightarrow> string \<Rightarrow> string list option" where
  "GetDeviceSchema s dev = map_of (deviceSchemas s) dev"

subsection \<open>Writers\<close>

text \<open>A writer is a pointer in the code; here it is known by its key in the map.\<close>

definition writer_key :: "string \<Rightarrow> int \<Rightarrow> string" where
  "writer_key dev t = dev @ ''_'' @ format_local 0 t"

definition tier_of :: "int \<Rightarrow> storage_config \<Rightarrow> int \<Rightarrow> string" where
  "tier_of now cfg t =
     (if f64_less (f64_of_int (HotDays cfg * 24)) (duration_hours (time_sub now t))
      then ''cold'' else ''hot'')"

definition getOrCreateWriter ::
    "int \<Rightarrow> storage \<Rightarrow> string \<Rightarrow> int \<Rightarrow> storage \<times> (storage_error + string)" where
  "getOrCreateWriter now s dev t =
     (let key = writer_key dev t
      in if map_of (writers s) key \<noteq> None then (s, Inr key)
         else
           (let tier = tier_of now (sconfig s) t;
                dir = Join [DataDir (sconfig s), tier, dev]
            in if denied (disk s) dir then (s, Inl (MkdirError dir))
               else
                 (let filePath = Join [dir, format_local 0 t @ ''.tsdb'']
                  in case NewDayWriter (disk s) filePath (sconfig s) dev t of
                       (fs, None) \<Rightarrow> (s\<lparr>disk := fs\<rparr>, Inl (OpenError filePath))
                     | (fs, Some w) \<Rightarrow>
                         (s\<lparr>disk := fs, writers := AList.update key w (writers s)\<rparr>, Inr key))))"

subsection \<open>WriteBatch\<close>

fun add_group :: "(string \<times> simple_point list) list \<Rightarrow> string \<Rightarrow> simple_point \<Rightarrow> (string \<times> simple_point list) list" where
  "add_group [] k p = [(k, [p])]"
| "add_group ((k', ps) # gs) k p =
     (if k' = k then (k', ps @ [p]) # gs else (k', ps) # add_group gs k p)"

definition group_points :: "int \<Rightarrow> simple_point list \<Rightarrow> (string \<times> simple_point list) list" where
  "group_points z points =
     foldl (\<lambda>groups p. add_group groups (format_local z (sint (Timestamp p))) p) [] points"

text \<open>The error of \<open>time.Parse\<close> is dropped by the code; the time is then Go's zero time.\<close>

definition key_time :: "string \<Rightarrow> int" where
  "key_time dateKey = (case parse_day dateKey of Some n \<Rightarrow> n | None \<Rightarrow> - 719162) * ns_per_day"

definition writer_append :: "string \<Rightarrow> simple_point list \<Rightarrow> storage \<Rightarrow> storage" where
  "writer_append key points s =
     (case map_of (writers s) key of
        None \<Rightarrow> s
      | Some w \<Rightarrow> s\<lparr>writers := AList.update key (Day_Writer.WriteBatch w points) (writers s)\<rparr>)"

fun write_groups ::
    "int \<Rightarrow> string \<Rightarrow> (string \<times> simple_point list) list \<Rightarrow> storage \<Rightarrow> storage \<times> storage_error option" where
  "write_groups now dev [] s = (s, None)"
| "write_groups now dev ((dateKey, groupPoints) # gs) s =
     (case getOrCreateWriter now s dev (key_time dateKey) of
        (s1, Inl e) \<Rightarrow> (s1, Some e)
      | (s1, Inr key) \<Rightarrow> write_groups now dev gs (writer_append key groupPoints s1))"

definition Storage_WriteBatch ::
    "environment \<Rightarrow> int \<Rightarrow> storage \<Rightarrow> string \<Rightarrow> simple_point list \<Rightarrow> storage \<times> storage_error option" where
  "Storage_WriteBatch env now s dev points =
     (if length points = 0 then (s, None)
      else write_groups now dev (map_order env (group_points (zone env) points))
             (registerSchema s dev (length (Values (points ! 0)))))"

text \<open>The flush of one writer by its goroutine.\<close>

definition flush_writer :: "environment \<Rightarrow> string \<Rightarrow> storage \<Rightarrow> storage" where
  "flush_writer env key s =
     (case map_of (writers s) key of
        None \<Rightarrow> s
      | Some w \<Rightarrow>
          (case flush (compress env) (io_data env) (io_index env) (disk s) w of
             (fs, w') \<Rightarrow> s\<lparr>disk := fs, writers := AList.update key w' (writers s)\<rparr>))"

subsection \<open>Query\<close>

definition readIndex :: "file_system \<Rightarrow> string \<Rightarrow> index_entry list option" where
  "readIndex fs idxPath = map_option readIndex_data (read_file fs idxPath)"

definition fullScan :: "environment \<Rightarrow> file_system \<Rightarrow> string \<Rightarrow> i64 \<Rightarrow> i64 \<Rightarrow> simple_point list option" where
  "fullScan env fs filePath startTime endTime =
     (case NewDayReader fs filePath of
        None \<Rightarrow> None
      | Some r \<Rightarrow> Day_Reader.Query (decompress env) fs r startTime endTime)"

definition queryFile ::
    "environment \<Rightarrow> file_system \<Rightarrow> string \<Rightarrow> i64 \<Rightarrow> i64 \<Rightarrow> simple_point list option go" where
  "queryFile env fs filePath startTime endTime =
     (if lookup fs filePath = None then Inr (Some [])
      else case readIndex fs (filePath @ ''.idx'') of
             None \<Rightarrow> Inr (fullScan env fs filePath startTime endTime)
           | Some idxs \<Rightarrow>
               (case NewDayReader fs filePath of
                  None \<Rightarrow> Inr None
                | Some r \<Rightarrow> QueryWithIndex (decompress env) fs r startTime endTime idxs))"

function query_days :: "int \<Rightarrow> int \<Rightarrow> int list" where
  "query_days d endDate =
     (if d < endDate + ns_per_day then d # query_days (d + ns_per_day) endDate else [])"
  by pat_completeness auto

termination
  by (relation "measure (\<lambda>(d, e). nat (e + ns_per_day - d))") (auto simp: ns_per_day_def)

declare query_days.simps [simp del]

definition day_path :: "storage_config \<Rightarrow> string \<Rightarrow> string \<Rightarrow> string \<Rightarrow> string" where
  "day_path cfg tier dev day = Join [DataDir cfg, tier, dev, day @ ''.tsdb'']"

text \<open>The goroutine of one day; the errors of the two files are dropped by the code.\<close>

definition query_day ::
    "environment \<Rightarrow> storage \<Rightarrow> string \<Rightarrow> i64 \<Rightarrow> i64 \<Rightarrow> int \<Rightarrow> simple_point list go" where
  "query_day env s dev startTime endTime d =
     (let day = format_local (zone env) d in
      go_bind (queryFile env (disk s) (day_path (sconfig s) ''hot'' dev day) startTime endTime) (\<lambda>points.
      go_bind (queryFile env (disk s) (day_path (sconfig s) ''cold'' dev day) startTime endTime) (\<lambda>coldPoints.
      Inr (case_option [] id points @ case_option [] id coldPoints))))"

definition Storage_Query ::
    "environment \<Rightarrow> storage \<Rightarrow> string \<Rightarrow> i64 \<Rightarrow> i64 \<Rightarrow> simple_point list go" where
  "Storage_Query env s dev startTime endTime =
     go_fold (\<lambda>d allPoints.
         go_bind (query_day env s dev startTime endTime d) (\<lambda>points. Inr (allPoints @ points)))
       (sched env (query_days (sint startTime) (sint endTime))) []"

end
