(* ===== verification/Maintenance.thy ===== *)
theory Maintenance
  imports Storage
begin

text \<open>
  The background jobs of \<open>tffiles/storage.go\<close> and its shutdown: \<open>cleanupExpiredData\<close> and
  \<open>moveColdData\<close> with \<open>recompressCold\<close>, \<open>GetStats\<close> and \<open>Close\<close>. Both jobs slice the first ten
  bytes off every file name, which panics on a shorter one.
\<close>

subsection \<open>Directories\<close>

text \<open>\<open>os.ReadDir\<close>: the names in a directory, sorted, each with \<open>IsDir\<close>. An error gives no entries.\<close>

definition dir_entry :: "string \<Rightarrow> string \<Rightarrow> (string \<times> bool) option" where
  "dir_entry dir p =
     (let pre = dir @ ''/'' in
      if take (length pre) p = pre
      then (let rest = drop (length pre) p in Some (takeWhile (\<lambda>c. c \<noteq> CHR ''/'') rest, CHR ''/'' \<in> set rest))
      else None)"

definition read_dir :: "file_system \<Rightarrow> string \<Rightarrow> (string \<times> bool) list" where
  "read_dir fs dir =
     (if denied fs dir then []
      else sort_key fst (remdups (List.map_filter (\<lambda>(p, _). dir_entry dir p) (names fs))))"

subsection \<open>Cleanup\<close>

text \<open>\<open>time.Parse("2006-01-02", file.Name()[:10])\<close>: a panic, or the time if it parses.\<close>

definition file_date :: "string \<Rightarrow> int option go" where
  "file_date name =
     (if length name < 10 then Inl SliceBounds
      else Inr (map_option (\<lambda>n. n * ns_per_day) (parse_day (take 10 name))))"

definition cleanup_file ::
    "storage_config \<Rightarrow> int \<Rightarrow> string \<Rightarrow> string \<Rightarrow> string \<times> bool \<Rightarrow> file_system \<Rightarrow> file_system go" where
  "cleanup_file cfg cutoff tier device = (\<lambda>(name, isDir) fs.
     if isDir then Inr fs
     else go_bind (file_date name) (\<lambda>fileDate.
       case fileDate of
         None \<Rightarrow> Inr fs
       | Some t \<Rightarrow>
           if t < cutoff then
             Inr (remove_all (remove_all fs (Join [DataDir cfg, tier, device, name]))
                   (Join [DataDir cfg, tier, device, name @ ''.idx'']))
           else Inr fs))"

definition cleanup_device ::
    "storage_config \<Rightarrow> int \<Rightarrow> string \<Rightarrow> string \<times> bool \<Rightarrow> file_system \<Rightarrow> file_system go" where
  "cleanup_device cfg cutoff tier = (\<lambda>(device, isDir) fs.
     if \<not> isDir then Inr fs
     else go_fold (cleanup_file cfg cutoff tier device) (read_dir fs (Join [DataDir cfg, tier, device])) fs)"

definition cleanup_tier :: "storage_config \<Rightarrow> int \<Rightarrow> string \<Rightarrow> file_system \<Rightarrow> file_system go" where
  "cleanup_tier cfg cutoff tier fs =
     go_fold (cleanup_device cfg cutoff tier) (read_dir fs (Join [DataDir cfg, tier])) fs"

definition cleanupExpiredData :: "int \<Rightarrow> storage \<Rightarrow> storage go" where
  "cleanupExpiredData now s =
     go_bind (go_fold (cleanup_tier (sconfig s) (add_days now (- RetentionDays (sconfig s)))) [''hot'', ''cold''] (disk s))
       (\<lambda>fs. Inr (s\<lparr>disk := fs\<rparr>))"

subsection \<open>Moving to the cold tier\<close>

text \<open>The flag says that it returned no error. The deferred \<open>Close\<close> flushes the writer.\<close>

definition recompressCold ::
    "environment \<Rightarrow> storage_config \<Rightarrow> file_system \<Rightarrow> string \<Rightarrow> string \<Rightarrow> (file_system \<times> bool) go" where
  "recompressCold env cfg fs srcPath dstPath =
     (case NewDayReader fs srcPath of
        None \<Rightarrow> Inr (fs, False)
      | Some r \<Rightarrow>
          (case Day_Reader.Query (decompress env) fs r 0 (2 ^ 62) of
             None \<Rightarrow> Inr (fs, False)
           | Some points \<Rightarrow>
               (case NewDayWriter fs dstPath (cfg\<lparr>CompressLevel := 9\<rparr>) [] (- 719162 * ns_per_day) of
                  (fs1, None) \<Rightarrow> Inr (fs1, False)
                | (fs1, Some w) \<Rightarrow>
                    go_bind (Day_Writer.Close (compress env) (io_data env) (io_index env) fs1 (Day_Writer.WriteBatch w points))
                      (\<lambda>(fs2, _). Inr (fs2, True)))))"

definition finish_move :: "file_system \<Rightarrow> string \<Rightarrow> string \<Rightarrow> file_system" where
  "finish_move fs srcPath dstPath =
     (let fs1 = (case read_file fs (srcPath @ ''.idx'') of
                   None \<Rightarrow> fs
                 | Some idxData \<Rightarrow>
                     (case write_file fs (dstPath @ ''.idx'') idxData of None \<Rightarrow> fs | Some fs' \<Rightarrow> fs'))
      in fst (remove_file (fst (remove_file fs1 srcPath)) (srcPath @ ''.idx'')))"

definition move_file ::
    "environment \<Rightarrow> storage_config \<Rightarrow> int \<Rightarrow> string \<Rightarrow> string \<times> bool \<Rightarrow> file_system \<Rightarrow> file_system go" where
  "move_file env cfg cutoff device = (\<lambda>(name, isDir) fs.
     if isDir then Inr fs
     else go_bind (file_date name) (\<lambda>fileDate.
       case fileDate of
         None \<Rightarrow> Inr fs
       | Some t \<Rightarrow>
           if t < cutoff then
             (let srcPath = Join [Join [DataDir cfg, ''hot''], device, name];
                  dstDir = Join [Join [DataDir cfg, ''cold''], device];
                  tmpPath = Join [dstDir, name @ ''.tmp''];
                  dstPath = Join [dstDir, name]
              in if denied fs dstDir then Inr fs
                 else go_bind (recompressCold env cfg fs srcPath tmpPath) (\<lambda>(fs1, ok).
                   if \<not> ok then Inr (fst (remove_file fs1 tmpPath))
                   else case rename_file fs1 tmpPath dstPath of
                          (fs2, False) \<Rightarrow> Inr (fst (remove_file fs2 tmpPath))
                        | (fs2, True) \<Rightarrow> Inr (finish_move fs2 srcPath dstPath)))
           else Inr fs))"

definition move_device ::
    "environment \<Rightarrow> storage_config \<Rightarrow> int \<Rightarrow> string \<times> bool \<Rightarrow> file_system \<Rightarrow> file_system go" where
  "move_device env cfg cutoff = (\<lambda>(device, isDir) fs.
     if \<not> isDir then Inr fs
     else go_fold (move_file env cfg cutoff device) (read_dir fs (Join [Join [DataDir cfg, ''hot''], device])) fs)"

definition moveColdData :: "environment \<Rightarrow> int \<Rightarrow> storage \<Rightarrow> storage go" where
  "moveColdData env now s =
     go_bind (go_fold (move_device env (sconfig s) (add_days now (- HotDays (sconfig s))))
                (read_dir (disk s) (Join [DataDir (sconfig s), ''hot''])) (disk s))
       (\<lambda>fs. Inr (s\<lparr>disk := fs\<rparr>))"

subsection \<open>Statistics and shutdown\<close>

record storage_stats =
  active_writers :: nat
  device_count :: nat
  stats_config :: storage_config

definition Storage_GetStats :: "storage \<Rightarrow> storage_stats" where
  "Storage_GetStats s =
     \<lparr>active_writers = length (writers s), device_count = length (deviceSchemas s), stats_config = sconfig s\<rparr>"

text \<open>\<open>GetStats\<close> of a writer, in \<open>writer.go\<close>; the date is a time in the zone it was made in.\<close>

record writer_stats =
  stats_device :: string
  stats_date :: string
  buffer_size :: nat
  index_count :: nat
  current_offset :: i64

definition DayWriter_GetStats :: "int \<Rightarrow> day_writer \<Rightarrow> writer_stats" where
  "DayWriter_GetStats z w =
     \<lparr>stats_device = deviceID w, stats_date = format_local z (date w), buffer_size = GetBufferSize w,
      index_count = GetIndexCount w, current_offset = currentOffset w\<rparr>"

text \<open>The writers are closed one by one and stay in the map. The error that the code returns at the end is
  that of syncing or closing a file and is left out.\<close>

definition close_writer :: "environment \<Rightarrow> string \<Rightarrow> storage \<Rightarrow> storage go" where
  "close_writer env key s =
     (case map_of (writers s) key of
        None \<Rightarrow> Inr s
      | Some w \<Rightarrow>
          go_bind (Day_Writer.Close (compress env) (io_data env) (io_index env) (disk s) w)
            (\<lambda>(fs, w'). Inr (s\<lparr>disk := fs, writers := AList.update key w' (writers s)\<rparr>)))"

definition Storage_Close :: "environment \<Rightarrow> storage \<Rightarrow> storage go" where
  "Storage_Close env s = go_fold (close_writer env) (map fst (writers s)) s"

end
