(* ===== verification/Engine_Files.thy ===== *)
theory Engine_Files
  imports Engine
begin

text \<open>
  The invariant of the storage engine under writes and flushes: every file on disk belongs to one
  writer, and every writer's two files are the log of the points it was given (\<open>wrel\<close> of
  \<open>Day_Writer\<close>). With it, a query over any range returns what was written, in the end-to-end
  property at the end.
\<close>

subsection \<open>Keys and paths\<close>

definition day_key :: "string \<Rightarrow> int \<Rightarrow> string" where
  "day_key dev day = dev @ ''_'' @ format_day day"

definition file_path :: "storage_config \<Rightarrow> string \<Rightarrow> string \<Rightarrow> int \<Rightarrow> string" where
  "file_path cfg tier dev day = day_path cfg tier dev (format_day day)"

lemma local_day_midnight [simp]: "local_day 0 (day * ns_per_day) = day"
  by (simp add: local_day_def ns_per_day_def)

lemma writer_key_day: "writer_key dev (day * ns_per_day) = day_key dev day"
  by (simp add: writer_key_def day_key_def format_local_def)

lemma format_day_inject: "day_ok a \<Longrightarrow> day_ok b \<Longrightarrow> format_day a = format_day b \<longleftrightarrow> a = b"
  by (metis option.inject parse_format_day)

lemma day_key_inject:
  "day_ok a \<Longrightarrow> day_ok b \<Longrightarrow> day_key dev a = day_key dev' b \<longleftrightarrow> dev = dev' \<and> a = b"
  using append_eq_append_conv [of dev dev' "''_'' @ format_day a" "''_'' @ format_day b"]
  by (simp add: day_key_def format_day_inject)

lemma slash_no_digit [simp]: "\<not> is_digit (CHR ''/'')"
  by (auto simp: is_digit_def)

lemma parse_day_no_slash: "parse_day s = Some n \<Longrightarrow> no_slash s"
  by (induction s rule: parse_day.induct)
    (auto simp: no_slash_def Let_def split: if_splits)

lemma plain_day_file: "day_ok day \<Longrightarrow> plain_elem (format_day day @ ''.tsdb'')"
  using parse_day_no_slash [OF parse_format_day, of day] length_format_day [of day]
  by (auto simp: plain_elem_def no_slash_def simp del: length_format_day)

definition tier_ok :: "string \<Rightarrow> bool" where
  "tier_ok tier \<longleftrightarrow> tier = ''hot'' \<or> tier = ''cold''"

lemma plain_tier: "tier_ok tier \<Longrightarrow> plain_elem tier"
  by (auto simp: tier_ok_def plain_elem_def no_slash_def)

lemma tier_of_ok: "tier_ok (tier_of now cfg t)"
  by (simp add: tier_of_def tier_ok_def)

lemma file_path_plain:
  assumes "plain_elem dev" and "day_ok day" and "tier_ok tier"
  shows "list_all plain_elem [tier, dev, format_day day @ ''.tsdb'']"
  using assms plain_day_file plain_tier by simp

lemma file_path_inject:
  assumes "DataDir cfg \<noteq> []" and "plain_elem dev" "day_ok day" "tier_ok tier"
    and "plain_elem dev'" "day_ok day'" "tier_ok tier'"
  shows "file_path cfg tier dev day = file_path cfg tier' dev' day' \<longleftrightarrow> tier = tier' \<and> dev = dev' \<and> day = day'"
  using Join_inject [OF assms(1) file_path_plain [OF assms(2-4)] _ file_path_plain [OF assms(5-7)]]
    format_day_inject [OF assms(3,6)]
  by (simp add: file_path_def day_path_def)

lemma join_path_suffix: "join_path (es @ [x @ y]) = join_path (es @ [x]) @ y"
proof (induction es)
  case (Cons e es)
  then show ?case by (cases es) simp_all
qed simp

lemma file_path_suffix:
  assumes "DataDir cfg \<noteq> []" and "plain_elem dev" "day_ok day" "tier_ok tier"
  shows "\<exists>x. file_path cfg tier dev day = x @ ''.tsdb''"
proof -
  let ?es = "clean_elems (DataDir cfg) @ [tier, dev]"
  have "join_path (?es @ [format_day day @ ''.tsdb'']) = join_path (?es @ [format_day day]) @ ''.tsdb''"
    by (rule join_path_suffix)
  then have "render r (?es @ [format_day day @ ''.tsdb'']) =
      (if r then CHR ''/'' # join_path (?es @ [format_day day]) else join_path (?es @ [format_day day])) @ ''.tsdb''" for r
    by (simp add: render_def)
  then show ?thesis
    using Join_plain [OF assms(1) file_path_plain [OF assms(2-4)]]
    by (auto simp: file_path_def day_path_def)
qed

lemma file_path_not_index:
  assumes "DataDir cfg \<noteq> []" and "plain_elem dev" "day_ok day" "tier_ok tier"
    and "plain_elem dev'" "day_ok day'" "tier_ok tier'"
  shows "file_path cfg tier dev day \<noteq> file_path cfg tier' dev' day' @ ''.idx''"
proof
  assume "file_path cfg tier dev day = file_path cfg tier' dev' day' @ ''.idx''"
  then have "last (file_path cfg tier dev day) = CHR ''x''" by simp
  with file_path_suffix [OF assms(1-4)] show False by auto
qed

lemma writer_file_path:
  assumes "DataDir cfg \<noteq> []" and "plain_elem dev" "day_ok day" "tier_ok tier"
  shows "Join [Join [DataDir cfg, tier, dev], format_local 0 (day * ns_per_day) @ ''.tsdb''] = file_path cfg tier dev day"
  using Join_Join [OF assms(1), of "[tier, dev]" "[format_day day @ ''.tsdb'']"] file_path_plain [OF assms(2-4)]
  by (simp add: file_path_def day_path_def format_local_def)

subsection \<open>What a flush leaves alone\<close>

lemma flush_frame:
  assumes "flush zenc rd ri fs w = (fs', w')"
  shows "lookup fs' = lookup fs \<and> denied fs' = denied fs \<and> fs_ok fs' = fs_ok fs \<and>
    (\<forall>f. f \<noteq> dataFile w \<and> f \<noteq> idxFile w \<longrightarrow> content fs' f = content fs f) \<and>
    dataFile w' = dataFile w \<and> idxFile w' = idxFile w \<and> config w' = config w \<and> closeChan w' = closeChan w"
  using assms
  by (auto simp: flush_def take_buffer_def write_data_def write_index_def Let_def
      split: option.splits if_splits io_result.splits prod.splits)

lemma wrel_cong:
  assumes "content fs' (dataFile w) = content fs (dataFile w)" and "content fs' (idxFile w) = content fs (idxFile w)"
  shows "wrel zenc base ibase \<lparr>sysfs = fs', wr = w, pc = p\<rparr> a = wrel zenc base ibase \<lparr>sysfs = fs, wr = w, pc = p\<rparr> a"
  using assms by (simp add: wrel_def Let_def)

lemma WriteBatch_rel:
  "wrel zenc base ibase \<lparr>sysfs = fs, wr = w, pc = Selecting\<rparr> a \<Longrightarrow>
   wrel zenc base ibase \<lparr>sysfs = fs, wr = Day_Writer.WriteBatch w ps, pc = Selecting\<rparr> (astep a (Batch ps))"
  using wstep_rel [OF wstep.batch [of zenc "\<lparr>sysfs = fs, wr = w, pc = Selecting\<rparr>" ps]] by simp

definition flush_log :: "alog \<Rightarrow> alog" where
  "flush_log a = (if pending a = [] then a else a\<lparr>committed := committed a @ [pending a], pending := []\<rparr>)"

subsection \<open>The invariant\<close>

definition handles :: "day_writer \<Rightarrow> nat set" where
  "handles w = {dataFile w, idxFile w}"

definition writer_at :: "storage \<Rightarrow> string \<Rightarrow> day_writer \<Rightarrow> bool" where
  "writer_at s key w \<longleftrightarrow>
     (\<exists>dev day tier. plain_elem dev \<and> day_ok day \<and> tier_ok tier \<and> key = day_key dev day \<and>
        lookup (disk s) (file_path (sconfig s) tier dev day) = Some (dataFile w) \<and>
        lookup (disk s) (file_path (sconfig s) tier dev day @ ''.idx'') = Some (idxFile w) \<and>
        config w = sconfig s)"

definition files_inv :: "storage \<Rightarrow> bool" where
  "files_inv s \<longleftrightarrow>
     DataDir (sconfig s) \<noteq> [] \<and> fs_ok (disk s) \<and> (\<forall>p. \<not> denied (disk s) p) \<and>
     (\<forall>key w. map_of (writers s) key = Some w \<longrightarrow> writer_at s key w) \<and>
     (\<forall>p f. lookup (disk s) p = Some f \<longrightarrow> (\<exists>key w. map_of (writers s) key = Some w \<and> f \<in> handles w))"

definition log_of :: "environment \<Rightarrow> storage \<Rightarrow> day_writer \<Rightarrow> alog \<Rightarrow> bool" where
  "log_of env s w a \<longleftrightarrow> wrel (compress env) [] [] \<lparr>sysfs = disk s, wr = w, pc = Selecting\<rparr> a"

definition engine_inv :: "environment \<Rightarrow> storage \<Rightarrow> (string \<Rightarrow> alog) \<Rightarrow> bool" where
  "engine_inv env s A \<longleftrightarrow>
     files_inv s \<and>
     (\<forall>key. case map_of (writers s) key of None \<Rightarrow> A key = empty_log | Some w \<Rightarrow> log_of env s w (A key))"

lemma files_inv_basic:
  "files_inv s \<Longrightarrow> DataDir (sconfig s) \<noteq> [] \<and> fs_ok (disk s) \<and> \<not> denied (disk s) p"
  by (simp add: files_inv_def)

lemma files_inv_writer: "files_inv s \<Longrightarrow> map_of (writers s) key = Some w \<Longrightarrow> writer_at s key w"
  unfolding files_inv_def by blast

lemma files_inv_owner:
  "files_inv s \<Longrightarrow> lookup (disk s) p = Some f \<Longrightarrow> \<exists>key w. map_of (writers s) key = Some w \<and> f \<in> handles w"
  unfolding files_inv_def by blast

lemma engine_inv_files: "engine_inv env s A \<Longrightarrow> files_inv s"
  by (simp add: engine_inv_def)

lemma engine_inv_log: "engine_inv env s A \<Longrightarrow> map_of (writers s) key = Some w \<Longrightarrow> log_of env s w (A key)"
  unfolding engine_inv_def by (metis option.simps(5))

lemma engine_inv_none: "engine_inv env s A \<Longrightarrow> map_of (writers s) key = None \<Longrightarrow> A key = empty_log"
  unfolding engine_inv_def by (metis option.simps(4))

lemma handles_disjoint:
  assumes "files_inv s" and "map_of (writers s) k = Some w" and "map_of (writers s) k' = Some w'" and "k \<noteq> k'"
  shows "handles w \<inter> handles w' = {}"
proof -
  have D: "DataDir (sconfig s) \<noteq> []" and ok: "fs_ok (disk s)" using assms(1) by (auto simp: files_inv_def)
  obtain dev day tier where a: "plain_elem dev" "day_ok day" "tier_ok tier" "k = day_key dev day"
    "lookup (disk s) (file_path (sconfig s) tier dev day) = Some (dataFile w)"
    "lookup (disk s) (file_path (sconfig s) tier dev day @ ''.idx'') = Some (idxFile w)"
    using files_inv_writer [OF assms(1,2)] by (auto simp: writer_at_def)
  obtain dev' day' tier' where b: "plain_elem dev'" "day_ok day'" "tier_ok tier'" "k' = day_key dev' day'"
    "lookup (disk s) (file_path (sconfig s) tier' dev' day') = Some (dataFile w')"
    "lookup (disk s) (file_path (sconfig s) tier' dev' day' @ ''.idx'') = Some (idxFile w')"
    using files_inv_writer [OF assms(1,3)] by (auto simp: writer_at_def)
  have ne: "file_path (sconfig s) tier dev day \<noteq> file_path (sconfig s) tier' dev' day'"
    using assms(4) a b file_path_inject [OF D a(1-3) b(1-3)] by auto
  note ni = file_path_not_index [OF D a(1-3) b(1-3)] file_path_not_index [OF D b(1-3) a(1-3)]
  have "dataFile w \<noteq> dataFile w'" using lookup_inj [OF ok a(5)] b(5) ne by metis
  moreover have "dataFile w \<noteq> idxFile w'" using lookup_inj [OF ok a(5)] b(6) ni by metis
  moreover have "idxFile w \<noteq> dataFile w'" using lookup_inj [OF ok a(6)] b(5) ni by metis
  moreover have "idxFile w \<noteq> idxFile w'" using lookup_inj [OF ok a(6)] b(6) ne by (metis append_same_eq)
  ultimately show ?thesis by (auto simp: handles_def)
qed

lemma writer_at_update:
  assumes "lookup (disk s') = lookup (disk s)" and "sconfig s' = sconfig s"
    and "dataFile w' = dataFile w" "idxFile w' = idxFile w" "config w' = config w"
  shows "writer_at s' key w' = writer_at s key w"
  using assms by (simp add: writer_at_def)

text \<open>Replacing one writer by a new state of it, while only its own files change.\<close>

lemma engine_inv_update:
  assumes inv: "engine_inv env s A" and key: "map_of (writers s) key = Some w"
    and w': "dataFile w' = dataFile w" "idxFile w' = idxFile w" "config w' = config w"
    and s': "s' = s\<lparr>disk := fs, writers := AList.update key w' (writers s)\<rparr>"
    and fs: "lookup fs = lookup (disk s)" "denied fs = denied (disk s)" "fs_ok fs = fs_ok (disk s)"
      "\<forall>f. f \<notin> handles w \<longrightarrow> content fs f = content (disk s) f"
    and rel: "log_of env s' w' a"
  shows "engine_inv env s' (A(key := a))"
proof -
  have fi: "files_inv s" using inv by (simp add: engine_inv_def)
  have m: "map_of (writers s') = (map_of (writers s))(key \<mapsto> w')" by (simp add: s' update_conv')
  have wa: "writer_at s' k v = writer_at s k v" for k v
    by (rule writer_at_update) (simp_all add: s' fs)
  have wk: "writer_at s' key w'"
    using files_inv_writer [OF fi key] w' writer_at_update [of s' s w' w key] by (simp add: s' fs)
  have "handles w' = handles w" by (simp add: handles_def w')
  have at: "writer_at s' k v" if "map_of (writers s') k = Some v" for k v
    using that files_inv_writer [OF fi] wa wk by (auto simp: m split: if_splits)
  have owner: "\<exists>k v. map_of (writers s') k = Some v \<and> f \<in> handles v" if f: "lookup (disk s') p = Some f" for p f
  proof -
    from f files_inv_owner [OF fi, of p f] obtain k v where "map_of (writers s) k = Some v" "f \<in> handles v"
      by (auto simp: s' fs)
    with key \<open>handles w' = handles w\<close> show ?thesis
      by (cases "k = key") (auto simp: m intro: exI [of _ k] exI [of _ key])
  qed
  have "files_inv s'"
    using files_inv_basic [OF fi] at owner by (auto simp: files_inv_def s' fs)
  moreover have "log_of env s' v (A k)" if "map_of (writers s) k = Some v" "k \<noteq> key" for k v
  proof -
    have "handles v \<inter> handles w = {}" by (rule handles_disjoint [OF fi that(1) key that(2)])
    then have "content fs (dataFile v) = content (disk s) (dataFile v)"
      "content fs (idxFile v) = content (disk s) (idxFile v)"
      using fs(4) by (auto simp: handles_def)
    moreover have "log_of env s v (A k)" by (rule engine_inv_log [OF inv that(1)])
    ultimately show ?thesis by (simp add: log_of_def s' wrel_cong [of fs v "disk s"])
  qed
  ultimately show ?thesis
    using engine_inv_none [OF inv] rel by (auto simp: engine_inv_def m split: option.split)
qed

lemma writer_append_inv:
  assumes "engine_inv env s A" and "map_of (writers s) key = Some w"
  shows "engine_inv env (writer_append key ps s) (A(key := astep (A key) (Batch ps)))"
proof (rule engine_inv_update [OF assms, of "Day_Writer.WriteBatch w ps" _ "disk s"])
  show "writer_append key ps s = s\<lparr>disk := disk s, writers := AList.update key (Day_Writer.WriteBatch w ps) (writers s)\<rparr>"
    using assms(2) by (simp add: writer_append_def)
  show "log_of env (writer_append key ps s) (Day_Writer.WriteBatch w ps) (astep (A key) (Batch ps))"
    using engine_inv_log [OF assms] assms(2) WriteBatch_rel
    by (simp add: log_of_def writer_append_def del: astep.simps)
qed simp_all

lemma flush_writer_inv:
  assumes "engine_inv env s A" and "io_data env = IoOk" and "io_index env = IoOk"
  shows "engine_inv env (flush_writer env key s) (A(key := flush_log (A key)))"
proof (cases "map_of (writers s) key")
  case None
  then have "A key = empty_log" by (rule engine_inv_none [OF assms(1)])
  with None assms(1) show ?thesis by (simp add: flush_writer_def flush_log_def empty_log_def fun_upd_idem)
next
  case (Some w)
  obtain fs w' where f: "flush (compress env) (io_data env) (io_index env) (disk s) w = (fs, w')" by fastforce
  note fr = flush_frame [OF f]
  from engine_inv_log [OF assms(1) Some] flush_rel [of "compress env" "[]" "[]" "disk s" w "A key" fs w'] f assms(2,3)
  have "wrel (compress env) [] [] \<lparr>sysfs = fs, wr = w', pc = Selecting\<rparr> (flush_log (A key))"
    by (simp add: log_of_def flush_log_def)
  with fr show ?thesis
    using Some f
    by (intro engine_inv_update [OF assms(1) Some, of w' _ fs])
      (auto simp: flush_writer_def log_of_def handles_def)
qed

end
