(* ===== verification/Engine_Run.thy ===== *)
theory Engine_Run
  imports Engine_Files
begin

text \<open>
  Runs of the storage engine: creating writers, writing batches and closing keep the invariant of
  \<open>Engine_Files\<close>, and the abstract logs follow the points that were written.
\<close>

subsection \<open>Creating a writer\<close>

lemma open_append_ok:
  assumes "open_append fs p = Some (fs', f)"
  shows "denied fs' = denied fs"
  using assms by (auto simp: open_append_def split: option.splits if_splits)

lemma NewDayWriter_fresh:
  assumes ok: "fs_ok fs" and nd: "\<And>q. \<not> denied fs q" and fresh: "lookup fs p = None" "lookup fs (p @ ''.idx'') = None"
  obtains fs' w where "NewDayWriter fs p cfg dev dt = (fs', Some w)" and "fs_ok fs'" and "denied fs' = denied fs"
    and "\<And>q. lookup fs' q = (if q = p then Some (dataFile w) else if q = p @ ''.idx'' then Some (idxFile w) else lookup fs q)"
    and "\<And>q f. lookup fs q = Some f \<Longrightarrow> content fs' f = content fs f \<and> f \<notin> handles w"
    and "content fs' (dataFile w) = []" and "content fs' (idxFile w) = []" and "config w = cfg"
proof -
  obtain fs1 f where o1: "open_append fs p = Some (fs1, f)"
    using nd fresh by (auto simp: open_append_def)
  note ok1 = fs_ok_open_append [OF ok o1]
  have l1: "lookup fs1 q = (if q = p then Some f else lookup fs q)" for q
    by (rule open_append_lookup [OF o1])
  obtain fs2 g where o2: "open_append fs1 (p @ ''.idx'') = Some (fs2, g)"
    using nd fresh l1 open_append_ok [OF o1] by (auto simp: open_append_def)
  obtain w where n: "NewDayWriter fs p cfg dev dt = (fs2, Some w)" and w: "dataFile w = f" "idxFile w = g" "config w = cfg"
    using o1 o2 by (simp add: NewDayWriter_def)
  have fg: "f = next_file fs" "g = next_file fs1" "next_file fs1 = Suc (next_file fs)"
    "content fs1 = (content fs)(f := [])" "content fs2 = (content fs1)(g := [])"
    using o1 o2 nd fresh l1 open_append_ok [OF o1] by (auto simp: open_append_def)
  show ?thesis
  proof (rule that [OF n])
    show "fs_ok fs2" using fs_ok_open_append [OF conjunct1 [OF ok1] o2] by simp
    show "denied fs2 = denied fs" using open_append_ok [OF o1] open_append_ok [OF o2] by simp
    show "lookup fs2 q = (if q = p then Some (dataFile w) else if q = p @ ''.idx'' then Some (idxFile w) else lookup fs q)" for q
      using open_append_lookup [OF o2, of q] l1 w by auto
    show "content fs2 h = content fs h \<and> h \<notin> handles w" if "lookup fs q = Some h" for q h
      using lookup_less [OF ok that] fg w by (auto simp: handles_def)
    show "content fs2 (dataFile w) = []" "content fs2 (idxFile w) = []" using fg w by simp_all
    show "config w = cfg" by (rule w)
  qed
qed

lemma path_owner:
  assumes inv: "files_inv s" and d: "plain_elem dev" "day_ok day" "tier_ok tier"
    and q: "lookup (disk s) q = Some f"
      "q = file_path (sconfig s) tier dev day \<or> q = file_path (sconfig s) tier dev day @ ''.idx''"
  shows "\<exists>w. map_of (writers s) (day_key dev day) = Some w \<and>
    lookup (disk s) (file_path (sconfig s) tier dev day) = Some (dataFile w) \<and>
    lookup (disk s) (file_path (sconfig s) tier dev day @ ''.idx'') = Some (idxFile w)"
proof -
  let ?p = "file_path (sconfig s) tier dev day"
  have D: "DataDir (sconfig s) \<noteq> []" and ok: "fs_ok (disk s)" using files_inv_basic [OF inv] by auto
  from files_inv_owner [OF inv q(1)] obtain k w where k: "map_of (writers s) k = Some w" "f \<in> handles w" by blast
  from files_inv_writer [OF inv k(1)] obtain dev' day' tier' where b: "plain_elem dev'" "day_ok day'" "tier_ok tier'"
    "k = day_key dev' day'" "lookup (disk s) (file_path (sconfig s) tier' dev' day') = Some (dataFile w)"
    "lookup (disk s) (file_path (sconfig s) tier' dev' day' @ ''.idx'') = Some (idxFile w)"
    by (auto simp: writer_at_def)
  let ?p' = "file_path (sconfig s) tier' dev' day'"
  from k(2) b(5,6) q(1) have "q = ?p' \<or> q = ?p' @ ''.idx''"
    using lookup_inj [OF ok q(1), of ?p'] lookup_inj [OF ok q(1), of "?p' @ ''.idx''"] by (auto simp: handles_def)
  with q(2) file_path_not_index [OF D d b(1-3)] file_path_not_index [OF D b(1-3) d]
  have "?p = ?p'" by auto
  then have "tier = tier' \<and> dev = dev' \<and> day = day'" using file_path_inject [OF D d b(1-3)] by simp
  with k(1) b show ?thesis by auto
qed

lemma no_file_without_writer:
  assumes "files_inv s" and "map_of (writers s) (day_key dev day) = None"
    and "plain_elem dev" "day_ok day" "tier_ok tier"
  shows "lookup (disk s) (file_path (sconfig s) tier dev day) = None"
    and "lookup (disk s) (file_path (sconfig s) tier dev day @ ''.idx'') = None"
proof -
  have "lookup (disk s) q = None"
    if "q = file_path (sconfig s) tier dev day \<or> q = file_path (sconfig s) tier dev day @ ''.idx''" for q
    using path_owner [OF assms(1,3-5) _ that] assms(2) by (cases "lookup (disk s) q") auto
  then show "lookup (disk s) (file_path (sconfig s) tier dev day) = None"
    "lookup (disk s) (file_path (sconfig s) tier dev day @ ''.idx'') = None" by simp_all
qed

lemma getOrCreateWriter_inv:
  assumes inv: "engine_inv env s A" and d: "plain_elem dev" "day_ok day"
  obtains s' w where "getOrCreateWriter now s dev (day * ns_per_day) = (s', Inr (day_key dev day))"
    and "engine_inv env s' A" and "map_of (writers s') (day_key dev day) = Some w" and "sconfig s' = sconfig s"
    and "deviceSchemas s' = deviceSchemas s"
    and "\<And>k. k \<noteq> day_key dev day \<Longrightarrow> map_of (writers s') k = map_of (writers s) k"
proof (cases "map_of (writers s) (day_key dev day)")
  case (Some w)
  show ?thesis by (rule that [of s w]) (use inv Some in \<open>simp_all add: getOrCreateWriter_def writer_key_day\<close>)
next
  case None
  let ?key = "day_key dev day" and ?t = "day * ns_per_day"
  define tier where "tier = tier_of now (sconfig s) ?t"
  have tok: "tier_ok tier" unfolding tier_def by (rule tier_of_ok)
  have fi: "files_inv s" by (rule engine_inv_files [OF inv])
  note basic = files_inv_basic [OF fi]
  have D: "DataDir (sconfig s) \<noteq> []" and ok: "fs_ok (disk s)" and nd: "\<And>q. \<not> denied (disk s) q" using basic by auto
  let ?p = "file_path (sconfig s) tier dev day"
  obtain fs w where new: "NewDayWriter (disk s) ?p (sconfig s) dev ?t = (fs, Some w)" and fok: "fs_ok fs"
    and fd: "denied fs = denied (disk s)"
    and fl: "\<And>q. lookup fs q = (if q = ?p then Some (dataFile w) else if q = ?p @ ''.idx'' then Some (idxFile w) else lookup (disk s) q)"
    and fc: "\<And>q f. lookup (disk s) q = Some f \<Longrightarrow> content fs f = content (disk s) f \<and> f \<notin> handles w"
    and e: "content fs (dataFile w) = []" "content fs (idxFile w) = []" and cw: "config w = sconfig s"
    using NewDayWriter_fresh [OF ok nd no_file_without_writer [OF fi None d tok]] by blast
  define s' where "s' = s\<lparr>disk := fs, writers := AList.update ?key w (writers s)\<rparr>"
  have m: "map_of (writers s') = (map_of (writers s))(?key \<mapsto> w)" by (simp add: s'_def update_conv')
  have g: "getOrCreateWriter now s dev ?t = (s', Inr ?key)"
    using None nd new writer_file_path [OF D d tok]
    by (simp add: getOrCreateWriter_def writer_key_day Let_def tier_def s'_def)
  have at: "writer_at s' k v" if "map_of (writers s') k = Some v" for k v
  proof (cases "k = ?key")
    case True
    with that have "v = w" by (simp add: m)
    with True show ?thesis using d tok cw fl by (auto simp: writer_at_def s'_def)
  next
    case False
    with that have v: "map_of (writers s) k = Some v" by (simp add: m)
    from files_inv_writer [OF fi v] no_file_without_writer [OF fi None d tok]
    show ?thesis by (fastforce simp: writer_at_def s'_def fl)
  qed
  have owner: "\<exists>k v. map_of (writers s') k = Some v \<and> f \<in> handles v" if f: "lookup (disk s') q = Some f" for q f
  proof (cases "q = ?p \<or> q = ?p @ ''.idx''")
    case True
    with f have "f \<in> handles w" by (auto simp: s'_def fl handles_def split: if_splits)
    then show ?thesis by (auto simp: m intro: exI [of _ ?key])
  next
    case False
    with f have "lookup (disk s) q = Some f" by (auto simp: s'_def fl)
    from files_inv_owner [OF fi this] obtain k v where "map_of (writers s) k = Some v" "f \<in> handles v" by blast
    with None show ?thesis by (intro exI [of _ k] exI [of _ v]) (auto simp: m)
  qed
  have fi': "files_inv s'"
    using basic fok fd at owner by (auto simp: files_inv_def s'_def)
  have new_rel: "log_of env s' w empty_log"
    using NewDayWriter_rel [OF new ok, of "compress env"] by (simp add: log_of_def s'_def new_sys_def e)
  have old_rel: "log_of env s' v (A k)" if v: "map_of (writers s) k = Some v" for k v
  proof -
    from files_inv_writer [OF fi v] fc have "content fs (dataFile v) = content (disk s) (dataFile v)"
      "content fs (idxFile v) = content (disk s) (idxFile v)" by (auto simp: writer_at_def)
    with engine_inv_log [OF inv v] show ?thesis by (simp add: log_of_def s'_def wrel_cong [of fs v "disk s"])
  qed
  have "engine_inv env s' A"
    using fi' new_rel old_rel None engine_inv_none [OF inv] by (auto simp: engine_inv_def m split: option.split)
  with g m show ?thesis by (intro that [of s' w]) (simp_all add: s'_def)
qed

subsection \<open>Writing a batch\<close>

definition log_batch :: "string \<Rightarrow> string \<times> simple_point list \<Rightarrow> (string \<Rightarrow> alog) \<Rightarrow> (string \<Rightarrow> alog)" where
  "log_batch dev g A =
     (let key = dev @ ''_'' @ fst g in A(key := astep (A key) (Batch (snd g))))"

lemma write_groups_inv:
  assumes "engine_inv env s A" and "plain_elem dev" and "\<forall>g \<in> set gs. \<exists>day. day_ok day \<and> fst g = format_day day"
  shows "\<exists>s'. write_groups now dev gs s = (s', None) \<and> engine_inv env s' (fold (log_batch dev) gs A) \<and>
    sconfig s' = sconfig s \<and> deviceSchemas s' = deviceSchemas s"
  using assms
proof (induction gs arbitrary: s A)
  case (Cons g gs)
  obtain ps where g: "g = (fst g, ps)" by (cases g) simp
  from Cons.prems(3) obtain day where day: "day_ok day" "fst g = format_day day" by auto
  have kt: "key_time (fst g) = day * ns_per_day" by (simp add: key_time_def day parse_format_day)
  from getOrCreateWriter_inv [OF Cons.prems(1,2) day(1)] obtain s1 w where
    s1: "getOrCreateWriter now s dev (key_time (fst g)) = (s1, Inr (day_key dev day))"
      "engine_inv env s1 A" "map_of (writers s1) (day_key dev day) = Some w" "sconfig s1 = sconfig s"
      "deviceSchemas s1 = deviceSchemas s"
    unfolding kt by metis
  let ?s2 = "writer_append (day_key dev day) ps s1"
  have "engine_inv env ?s2 (log_batch dev g A)"
    using writer_append_inv [OF s1(2,3), of ps] g day(2) by (simp add: log_batch_def day_key_def Let_def)
  from Cons.IH [OF this Cons.prems(2)] Cons.prems(3) obtain s' where
    "write_groups now dev gs ?s2 = (s', None)" "engine_inv env s' (fold (log_batch dev) gs (log_batch dev g A))"
    "sconfig s' = sconfig ?s2" "deviceSchemas s' = deviceSchemas ?s2" by auto
  moreover have "sconfig ?s2 = sconfig s" "deviceSchemas ?s2 = deviceSchemas s"
    by (simp_all add: writer_append_def s1 split: option.split)
  moreover have "write_groups now dev (g # gs) s = write_groups now dev gs ?s2"
    by (subst g) (simp add: s1(1))
  ultimately show ?case by (intro exI [of _ s']) simp
qed simp

subsection \<open>Queries under the invariant\<close>

definition log_ok :: "storage_config \<Rightarrow> alog \<Rightarrow> bool" where
  "log_ok cfg a \<longleftrightarrow>
     list_all (\<lambda>b. list_all point_ok b \<and> plain_ok cfg b) (committed a) \<and> time_ordered (concat (committed a))"

definition disk_small :: "storage \<Rightarrow> bool" where
  "disk_small s \<longleftrightarrow> (\<forall>(p, f) \<in> set (names (disk s)). length (content (disk s) f) \<le> 2 ^ 48)"

lemma disk_small_lookup: "disk_small s \<Longrightarrow> lookup (disk s) p = Some f \<Longrightarrow> length (content (disk s) f) \<le> 2 ^ 48"
  by (auto simp: disk_small_def lookup_def dest!: map_of_SomeD)

lemma queryFile_writer:
  assumes inv: "engine_inv env s A" and d: "plain_elem dev" "day_ok day" "tier_ok tier"
    and z: "zstd_roundtrip (compress env) (decompress env)" "zstd_rejects (decompress env)"
    and log: "log_ok (sconfig s) (A (day_key dev day))" and small: "disk_small s"
    and f: "lookup (disk s) (file_path (sconfig s) tier dev day) = Some f"
  shows "queryFile env (disk s) (file_path (sconfig s) tier dev day) st en =
    Inr (Some (filter (in_range st en) (concat (committed (A (day_key dev day))))))"
proof -
  have fi: "files_inv s" by (rule engine_inv_files [OF inv])
  from path_owner [OF fi d f] obtain w where w: "map_of (writers s) (day_key dev day) = Some w"
    "lookup (disk s) (file_path (sconfig s) tier dev day) = Some (dataFile w)"
    "lookup (disk s) (file_path (sconfig s) tier dev day @ ''.idx'') = Some (idxFile w)" by auto
  have cw: "config w = sconfig s" using files_inv_writer [OF fi w(1)] by (auto simp: writer_at_def)
  let ?a = "A (day_key dev day)"
  have "day_file (decompress env) [] [] []" by (simp add: day_file_def readIndex_data_def Let_def)
  with wrel_day_file [of "compress env" "[]" "[]" "\<lparr>sysfs = disk s, wr = w, pc = Selecting\<rparr>" ?a "decompress env" "[]"]
  have df: "day_file (decompress env) (content (disk s) (dataFile w)) (content (disk s) (idxFile w)) (committed ?a)"
    using engine_inv_log [OF inv w(1)] z log disk_small_lookup [OF small w(2)]
    by (simp add: log_of_def log_ok_def cw list_all_iff)
  have nd: "\<not> denied (disk s) q" for q using files_inv_basic [OF fi] by blast
  have "QueryWithIndex (decompress env) (disk s) \<lparr>readerFile = dataFile w\<rparr> st en
      (readIndex_data (content (disk s) (idxFile w))) = Inr (Some (filter (in_range st en) (concat (committed ?a))))"
    using df log by (intro QueryWithIndex_hold) (simp_all add: day_file_def log_ok_def)
  then show ?thesis
    using w nd by (simp add: queryFile_def readIndex_def read_file_def NewDayReader_def)
qed

lemma query_day_inv:
  assumes inv: "engine_inv env s A" and d: "plain_elem dev" "day_ok (local_day (zone env) d)"
    and z: "zstd_roundtrip (compress env) (decompress env)" "zstd_rejects (decompress env)"
    and log: "log_ok (sconfig s) (A (day_key dev (local_day (zone env) d)))" and small: "disk_small s"
  shows "query_day env s dev st en d =
    Inr (filter (in_range st en) (concat (committed (A (day_key dev (local_day (zone env) d))))))"
proof -
  let ?day = "local_day (zone env) d"
  let ?key = "day_key dev ?day" and ?hot = "file_path (sconfig s) ''hot'' dev ?day"
    and ?cold = "file_path (sconfig s) ''cold'' dev ?day"
  have fi: "files_inv s" by (rule engine_inv_files [OF inv])
  have ok: "fs_ok (disk s)" and D: "DataDir (sconfig s) \<noteq> []" using files_inv_basic [OF fi] by auto
  have t: "tier_ok ''hot''" "tier_ok ''cold''" by (simp_all add: tier_ok_def)
  have q: "queryFile env (disk s) (file_path (sconfig s) tier dev ?day) st en =
      (if lookup (disk s) (file_path (sconfig s) tier dev ?day) = None then Inr (Some [])
       else Inr (Some (filter (in_range st en) (concat (committed (A ?key))))))" if "tier_ok tier" for tier
    using queryFile_writer [OF inv d that z log small] by (auto simp: queryFile_def)
  have qd: "query_day env s dev st en d =
      go_bind (queryFile env (disk s) ?hot st en) (\<lambda>ps. go_bind (queryFile env (disk s) ?cold st en)
        (\<lambda>cs. Inr (case_option [] id ps @ case_option [] id cs)))"
    by (simp add: query_day_def file_path_def format_local_def Let_def)
  show ?thesis
  proof (cases "map_of (writers s) ?key")
    case None
    with no_file_without_writer [OF fi None d] t engine_inv_none [OF inv None] show ?thesis
      by (simp add: qd q empty_log_def)
  next
    case (Some w)
    from files_inv_writer [OF fi Some] obtain dev' day' tier where b: "day_ok day'" "tier_ok tier" "?key = day_key dev' day'"
      "lookup (disk s) (file_path (sconfig s) tier dev' day') = Some (dataFile w)" by (auto simp: writer_at_def)
    then have e: "lookup (disk s) (file_path (sconfig s) tier dev ?day) = Some (dataFile w)"
      using day_key_inject [OF d(2) b(1), of dev dev'] by simp
    have one: "lookup (disk s) (file_path (sconfig s) tier' dev ?day) = None" if "tier_ok tier'" "tier' \<noteq> tier" for tier'
    proof (cases "lookup (disk s) (file_path (sconfig s) tier' dev ?day)")
      case f: (Some f)
      with path_owner [OF fi d that(1) f] Some
      have "lookup (disk s) (file_path (sconfig s) tier' dev ?day) = Some (dataFile w)" by auto
      from lookup_inj [OF ok this e] have "tier' = tier"
        using file_path_inject [OF D d that(1) d b(2)] by simp
      with that show ?thesis by simp
    qed simp
    from b(2) have "tier = ''hot'' \<or> tier = ''cold''" by (simp add: tier_ok_def)
    then show ?thesis
      using e one [OF t(1)] one [OF t(2)] by (auto simp: qd q t)
  qed
qed

lemma Storage_Query_days:
  assumes "\<And>d. d \<in> set (sched env (query_days (sint st) (sint en))) \<Longrightarrow> query_day env s dev st en d = Inr (g d)"
  shows "Storage_Query env s dev st en = Inr (concat (map g (sched env (query_days (sint st) (sint en)))))"
proof -
  have "go_fold (\<lambda>d allPoints. go_bind (query_day env s dev st en d) (\<lambda>points. Inr (allPoints @ points))) ds acc =
      Inr (acc @ concat (map g ds))" if "\<And>d. d \<in> set ds \<Longrightarrow> query_day env s dev st en d = Inr (g d)" for ds acc
    using that by (induction ds arbitrary: acc) simp_all
  from this [of _ "[]"] assms show ?thesis by (simp add: Storage_Query_def)
qed

end
