(* ===== verification/Engine_End.thy ===== *)
theory Engine_End
  imports Engine_Run "HOL-Library.Multiset"
begin

text \<open>
  End to end: a new engine on an empty disk, any sequence of batches and flushes, and then a query.
  The abstract state is one log per writer key; the points of a log are those of its day among all
  the points written for its device.
\<close>

subsection \<open>Runs\<close>

datatype engine_event = Write int string "simple_point list" | Flush string

fun engine_step :: "environment \<Rightarrow> engine_event \<Rightarrow> storage \<Rightarrow> storage" where
  "engine_step env (Write now dev points) s = fst (Storage_WriteBatch env now s dev points)"
| "engine_step env (Flush key) s = flush_writer env key s"

fun log_step :: "environment \<Rightarrow> engine_event \<Rightarrow> (string \<Rightarrow> alog) \<Rightarrow> (string \<Rightarrow> alog)" where
  "log_step env (Write now dev points) A =
     fold (log_batch dev) (map_order env (group_points (zone env) points)) A"
| "log_step env (Flush key) A = A(key := flush_log (A key))"

fun event_for :: "string \<Rightarrow> engine_event \<Rightarrow> simple_point list" where
  "event_for dev (Write now dev' points) = (if dev' = dev then points else [])"
| "event_for dev (Flush key) = []"

definition written_for :: "string \<Rightarrow> engine_event list \<Rightarrow> simple_point list" where
  "written_for dev evs = concat (map (event_for dev) evs)"

definition env_ok :: "environment \<Rightarrow> bool" where
  "env_ok env \<longleftrightarrow>
     (\<forall>gs. mset (map_order env gs) = mset gs) \<and> (\<forall>ds. mset (sched env ds) = mset ds) \<and>
     \<bar>zone env\<bar> \<le> 86400 \<and> io_data env = IoOk \<and> io_index env = IoOk \<and>
     zstd_roundtrip (compress env) (decompress env) \<and> zstd_rejects (decompress env)"

fun event_dev_ok :: "engine_event \<Rightarrow> bool" where
  "event_dev_ok (Write now dev points) = plain_elem dev"
| "event_dev_ok (Flush key) = True"

subsection \<open>Batches in the logs\<close>

lemma local_day_ok:
  assumes "\<bar>z\<bar> \<le> 86400" and "- (2 ^ 63) - ns_per_day \<le> t" and "t < 2 ^ 63 + ns_per_day"
  shows "day_ok (local_day z t)"
proof -
  have z: "- 86400 \<le> z" "z \<le> 86400" using assms(1) by simp_all
  then have "- 9223544836854775808 \<le> t + z * ns_per_sec" "t + z * ns_per_sec \<le> 9223544836854775808"
    using assms(2,3) by (simp_all add: ns_per_day_def ns_per_sec_def)
  then show ?thesis unfolding day_ok_def local_day_def ns_per_day_def by linarith
qed

lemma group_days:
  assumes "\<bar>z\<bar> \<le> 86400" and "g \<in> set (group_points z points)"
  shows "\<exists>day. day_ok day \<and> fst g = format_day day"
proof -
  from assms(2) have "fst g \<in> set (map fst (group_points z points))" by simp
  then have "fst g \<in> (\<lambda>p. format_local z (sint (Timestamp p))) ` set points"
    using group_points_keys [of z points] by simp
  then obtain p :: simple_point where "fst g = format_local z (sint (Timestamp p))" by blast
  moreover have "day_ok (local_day z (sint (Timestamp p)))"
    by (rule local_day_ok [OF assms(1)]) (use sint64_bounds [of "Timestamp p"] in \<open>simp_all add: ns_per_day_def\<close>)
  ultimately show ?thesis by (auto simp: format_local_def)
qed

lemma fold_log_batch:
  assumes "distinct (map fst gs)" and "\<forall>g \<in> set gs. \<exists>day. day_ok day \<and> fst g = format_day day" and "day_ok day"
  shows "fold (log_batch dev) gs A (day_key dev' day) =
    (if dev' = dev then
       (case map_of gs (format_day day) of None \<Rightarrow> A (day_key dev day)
        | Some ps \<Rightarrow> astep (A (day_key dev day)) (Batch ps))
     else A (day_key dev' day))"
  using assms(1,2)
proof (induction gs arbitrary: A)
  case (Cons g gs)
  from Cons.prems(2) obtain day' where day': "day_ok day'" "fst g = format_day day'" by auto
  have k: "dev @ ''_'' @ fst g = day_key dev day'" by (simp add: day_key_def day')
  have "log_batch dev g A = A(day_key dev day' := astep (A (day_key dev day')) (Batch (snd g)))"
    unfolding log_batch_def Let_def k ..
  then have "log_batch dev g A (day_key dev' day) =
      (if dev' = dev \<and> day = day' then astep (A (day_key dev day)) (Batch (snd g)) else A (day_key dev' day))"
    using day_key_inject [OF assms(3) day'(1), of dev' dev]
    by (auto simp del: astep.simps)
  moreover have "map_of gs (format_day day') = None"
    using Cons.prems(1) day' by (simp add: map_of_eq_None_iff)
  ultimately show ?case
    using Cons.IH [of "log_batch dev g A"] Cons.prems format_day_inject [OF assms(3) day'(1)] day'(2)
    by (auto simp del: astep.simps split: option.split)
qed simp

lemma map_of_mset:
  assumes "mset gs' = mset gs" and "distinct (map fst gs)"
  shows "map_of gs' = map_of gs" and "distinct (map fst gs')"
proof -
  have s: "set gs' = set gs" using assms(1) by (metis set_mset_mset)
  show d: "distinct (map fst gs')"
    using assms by (metis mset_eq_imp_distinct_iff mset_map)
  show "map_of gs' = map_of gs" using map_of_inject_set [OF d assms(2)] s by simp
qed

lemma log_step_write:
  assumes "env_ok env" and "day_ok day"
  shows "log_step env (Write now dev points) A (day_key dev' day) =
    (let a = A (day_key dev' day); ps = day_points (zone env) (format_day day) points
     in if dev' = dev \<and> ps \<noteq> [] then astep a (Batch ps) else a)"
proof -
  let ?gs = "group_points (zone env) points" and ?gs' = "map_order env (group_points (zone env) points)"
  have ms: "mset ?gs' = mset ?gs" and z: "\<bar>zone env\<bar> \<le> 86400" using assms(1) by (simp_all add: env_ok_def)
  note m = map_of_mset [OF ms conjunct1 [OF group_points_keys]]
  have "\<forall>g \<in> set ?gs'. \<exists>day. day_ok day \<and> fst g = format_day day"
    using group_days [OF z] ms by (metis set_mset_mset)
  from fold_log_batch [OF m(2) this assms(2)] show ?thesis
    by (simp add: m(1) group_points_map_of Let_def del: astep.simps)
qed

subsection \<open>The invariant along a run\<close>

lemma log_of_schemas: "log_of env (s\<lparr>deviceSchemas := d\<rparr>) w a = log_of env s w a"
  by (simp add: log_of_def)

lemma registerSchema_inv:
  "engine_inv env s A \<Longrightarrow> engine_inv env (registerSchema s dev n) A"
  by (simp add: registerSchema_def engine_inv_def files_inv_def writer_at_def log_of_schemas cong: option.case_cong)

lemma registerSchema_config [simp]: "sconfig (registerSchema s dev n) = sconfig s"
  by (simp add: registerSchema_def)

lemma flush_writer_config: "sconfig (flush_writer env key s) = sconfig s"
  by (simp add: flush_writer_def split: option.split prod.split)

lemma group_points_Nil: "group_points z [] = []"
  by (simp add: group_points_def)

lemma engine_step_inv:
  assumes env: "env_ok env" and inv: "engine_inv env s A" and ev: "event_dev_ok ev"
  shows "engine_inv env (engine_step env ev s) (log_step env ev A) \<and> sconfig (engine_step env ev s) = sconfig s"
proof (cases ev)
  case (Flush key)
  with env inv show ?thesis by (simp add: flush_writer_inv flush_writer_config env_ok_def)
next
  case (Write now dev points)
  show ?thesis
  proof (cases "points = []")
    case True
    have "map_order env [] = []" using env by (metis env_ok_def mset_zero_iff)
    with True Write inv show ?thesis by (simp add: Storage_WriteBatch_def group_points_Nil)
  next
    case False
    let ?s = "registerSchema s dev (length (Values (points ! 0)))"
    let ?gs = "map_order env (group_points (zone env) points)"
    have "mset ?gs = mset (group_points (zone env) points)" "\<bar>zone env\<bar> \<le> 86400"
      using env by (simp_all add: env_ok_def)
    then have "\<forall>g \<in> set ?gs. \<exists>day. day_ok day \<and> fst g = format_day day"
      using group_days by (metis set_mset_mset)
    with write_groups_inv [OF registerSchema_inv [OF inv], of dev ?gs] ev Write obtain s' where
      "write_groups now dev ?gs ?s = (s', None)" "engine_inv env s' (fold (log_batch dev) ?gs A)" "sconfig s' = sconfig ?s"
      by fastforce
    with False Write show ?thesis by (simp add: Storage_WriteBatch_def)
  qed
qed

lemma engine_run_inv:
  assumes "env_ok env" and "engine_inv env s A" and "list_all event_dev_ok evs"
  shows "engine_inv env (fold (engine_step env) evs s) (fold (log_step env) evs A) \<and>
    sconfig (fold (engine_step env) evs s) = sconfig s"
  using assms(2,3)
proof (induction evs arbitrary: s A)
  case (Cons ev evs)
  from Cons.prems(2) have ev: "event_dev_ok ev" "list_all event_dev_ok evs" by simp_all
  note step = engine_step_inv [OF assms(1) Cons.prems(1) ev(1)]
  from Cons.IH [OF conjunct1 [OF step] ev(2)] step show ?case by simp
qed simp

lemma NewStorage_inv:
  assumes "NewStorage fs cfg = Some s" and "names fs = []" and "\<forall>p. \<not> denied fs p" and "DataDir cfg \<noteq> []"
  shows "engine_inv env s (\<lambda>_. empty_log) \<and> sconfig s = cfg"
  using assms
  by (auto simp: NewStorage_def engine_inv_def files_inv_def fs_ok_def lookup_def split: if_splits)

text \<open>Between steps nothing is in flight, and the log of a day is the day's share of what was written.\<close>

definition shares :: "environment \<Rightarrow> (string \<Rightarrow> alog) \<Rightarrow> (string \<Rightarrow> simple_point list) \<Rightarrow> bool" where
  "shares env A W \<longleftrightarrow>
     (\<forall>dev day. day_ok day \<longrightarrow>
        inflight (A (day_key dev day)) = [] \<and>
        log_points (A (day_key dev day)) = day_points (zone env) (format_day day) (W dev))"

lemma shares_write:
  assumes "env_ok env" and "shares env A W"
  shows "shares env (log_step env (Write now dev points) A) (W(dev := W dev @ points))"
  unfolding shares_def
proof (intro allI impI)
  fix dev' day
  assume d: "day_ok day"
  with assms(2) have a: "inflight (A (day_key dev' day)) = []"
    "log_points (A (day_key dev' day)) = day_points (zone env) (format_day day) (W dev')"
    by (simp_all add: shares_def)
  then show "inflight (log_step env (Write now dev points) A (day_key dev' day)) = [] \<and>
    log_points (log_step env (Write now dev points) A (day_key dev' day)) =
      day_points (zone env) (format_day day) ((W(dev := W dev @ points)) dev')"
    unfolding log_step_write [OF assms(1) d]
    by (auto simp: Let_def log_points_def day_points_def)
qed

lemma flush_log_points:
  "inflight a = [] \<Longrightarrow> inflight (flush_log a) = [] \<and> log_points (flush_log a) = log_points a \<and> pending (flush_log a) = []"
  by (simp add: flush_log_def log_points_def)

lemma shares_flush:
  assumes "shares env A W"
  shows "shares env (A(key := flush_log (A key))) W"
  using assms flush_log_points by (auto simp: shares_def)

lemma shares_run:
  assumes "env_ok env" and "shares env A W"
  shows "shares env (fold (log_step env) evs A) (\<lambda>dev. W dev @ written_for dev evs)"
  using assms(2)
proof (induction evs arbitrary: A W)
  case Nil
  then show ?case by (simp add: written_for_def)
next
  case (Cons ev evs)
  show ?case
  proof (cases ev)
    case (Write now dev points)
    have "(\<lambda>d. (W(dev := W dev @ points)) d @ written_for d evs) = (\<lambda>d. W d @ written_for d (ev # evs))"
      by (simp add: fun_eq_iff Write written_for_def)
    with Cons.IH [OF shares_write [OF assms(1) Cons.prems, of now dev points]] show ?thesis
      by (simp add: Write del: log_step.simps)
  next
    case (Flush key)
    from Cons.IH [OF shares_flush [OF Cons.prems, of key]] show ?thesis
      by (simp add: Flush written_for_def del: fun_upd_apply)
  qed
qed

subsection \<open>Every ticker fires\<close>

definition flush_all :: "storage \<Rightarrow> engine_event list" where
  "flush_all s = map (\<lambda>(key, w). Flush key) (writers s)"

lemma log_flushes:
  "fold (log_step env) (map Flush keys) A key =
    (if key \<in> set keys then flush_log (A key) else A key)"
proof -
  have idem: "flush_log (flush_log a) = flush_log a" for a by (simp add: flush_log_def)
  show ?thesis by (induction keys arbitrary: A) (auto simp: idem)
qed

lemma flush_all_keys: "flush_all s = map Flush (map fst (writers s))"
  by (auto simp: flush_all_def)

lemma written_flushes [simp]: "written_for dev (map Flush keys) = []"
  by (induction keys) (simp_all add: written_for_def)

lemma flush_all_ok [simp]: "list_all event_dev_ok (map Flush keys)"
  by (induction keys) simp_all

text \<open>The abstract logs of a run followed by a flush of every writer.\<close>

definition final_logs :: "environment \<Rightarrow> engine_event list \<Rightarrow> storage \<Rightarrow> string \<Rightarrow> alog" where
  "final_logs env evs s0 =
     fold (log_step env) (evs @ flush_all (fold (engine_step env) evs s0)) (\<lambda>_. empty_log)"

definition final_state :: "environment \<Rightarrow> engine_event list \<Rightarrow> storage \<Rightarrow> storage" where
  "final_state env evs s0 =
     fold (engine_step env) (evs @ flush_all (fold (engine_step env) evs s0)) s0"

lemma final_facts:
  assumes env: "env_ok env" and new: "NewStorage fs cfg = Some s0" "names fs = []" "\<forall>p. \<not> denied fs p" "DataDir cfg \<noteq> []"
    and evs: "list_all event_dev_ok evs"
  shows "engine_inv env (final_state env evs s0) (final_logs env evs s0)"
    and "sconfig (final_state env evs s0) = cfg"
    and "day_ok day \<Longrightarrow> concat (committed (final_logs env evs s0 (day_key dev day))) =
      day_points (zone env) (format_day day) (written_for dev evs)"
proof -
  note n = NewStorage_inv [OF new, of env]
  let ?s1 = "fold (engine_step env) evs s0" and ?A1 = "fold (log_step env) evs (\<lambda>_. empty_log)"
  have all: "list_all event_dev_ok (evs @ flush_all ?s1)" using evs by (simp add: flush_all_keys del: map_map)
  from engine_run_inv [OF env conjunct1 [OF n] all] n
  show "engine_inv env (final_state env evs s0) (final_logs env evs s0)"
    and "sconfig (final_state env evs s0) = cfg"
    by (simp_all add: final_state_def final_logs_def)
  have i1: "engine_inv env ?s1 ?A1" using engine_run_inv [OF env conjunct1 [OF n] evs] by simp
  have "shares env (\<lambda>_. empty_log) (\<lambda>_. [])"
    by (simp add: shares_def empty_log_def log_points_def day_points_def)
  from shares_run [OF env this, of evs] have sh: "shares env ?A1 (\<lambda>dev. written_for dev evs)" by simp
  assume d: "day_ok day"
  let ?key = "day_key dev day"
  from sh d have a: "inflight (?A1 ?key) = []"
    "log_points (?A1 ?key) = day_points (zone env) (format_day day) (written_for dev evs)"
    by (simp_all add: shares_def)
  have "pending (?A1 ?key) = []" if "map_of (writers ?s1) ?key = None"
    using engine_inv_none [OF i1 that] by (simp add: empty_log_def)
  then have "final_logs env evs s0 ?key = flush_log (?A1 ?key)"
    by (auto simp: final_logs_def flush_all_keys log_flushes flush_log_def map_of_eq_None_iff simp del: map_map)
  with flush_log_points [OF a(1)] a(2)
  show "concat (committed (final_logs env evs s0 ?key)) =
      day_points (zone env) (format_day day) (written_for dev evs)"
    by (auto simp: log_points_def)
qed

subsection \<open>The days of a query partition the points in range\<close>

lemma time_ordered_filter: "time_ordered ps \<Longrightarrow> time_ordered (filter P ps)"
  by (simp add: time_ordered_def times_def sorted_filter)

lemma mset_by_key:
  assumes "distinct (map f ds)" and "\<And>p. p \<in> set ps \<Longrightarrow> P p \<Longrightarrow> h p \<in> set (map f ds)"
  shows "mset (concat (map (\<lambda>d. filter P (filter (\<lambda>p. h p = f d) ps)) ds)) = mset (filter P ps)"
  using assms
proof (induction ds arbitrary: ps)
  case Nil
  then have "filter P ps = []" by (auto simp: filter_empty_conv)
  then show ?case by simp
next
  case (Cons d ds)
  let ?qs = "filter (\<lambda>p. h p \<noteq> f d) ps"
  have "mset (concat (map (\<lambda>e. filter P (filter (\<lambda>p. h p = f e) ?qs)) ds)) = mset (filter P ?qs)"
    using Cons.prems by (intro Cons.IH) auto
  moreover have "map (\<lambda>e. filter P (filter (\<lambda>p. h p = f e) ?qs)) ds = map (\<lambda>e. filter P (filter (\<lambda>p. h p = f e) ps)) ds"
  proof (rule map_cong [OF refl])
    fix e assume "e \<in> set ds"
    with Cons.prems(1) have "f e \<noteq> f d" by (auto simp: image_iff)
    then have "filter (\<lambda>p. h p = f e) ?qs = filter (\<lambda>p. h p = f e) ps"
      by (auto intro!: filter_cong)
    then show "filter P (filter (\<lambda>p. h p = f e) ?qs) = filter P (filter (\<lambda>p. h p = f e) ps)" by simp
  qed
  ultimately have "mset (concat (map (\<lambda>e. filter P (filter (\<lambda>p. h p = f e) ps)) ds)) = mset (filter P ?qs)"
    by (simp only:)
  moreover have "mset (filter P ps) = mset (filter P (filter (\<lambda>p. h p = f d) ps)) + mset (filter P ?qs)"
    by (induction ps) (auto simp: filter_filter_mset)
  ultimately show ?case by (simp only: list.map concat.simps mset_append)
qed

subsection \<open>Property\<close>


subsection \<open>A concrete run\<close>

definition ex_env :: environment where
  "ex_env = \<lparr>zone = 0, compress = ex_zenc, decompress = ex_zdec, map_order = (\<lambda>gs. gs), sched = rev,
     io_data = IoOk, io_index = IoOk\<rparr>"

definition ex_storage :: storage where
  "ex_storage = \<lparr>sconfig = ex_config, disk = empty_fs, writers = [], deviceSchemas = []\<rparr>"

definition ex_run_events :: "engine_event list" where
  "ex_run_events = [Write 0 ''d'' ex_points]"

lemma ex_env_ok: "env_ok ex_env"
  by (simp add: env_ok_def ex_env_def ex_zstd)

lemma ex_storage_new: "NewStorage empty_fs ex_config = Some ex_storage"
  by (simp add: NewStorage_def ex_storage_def empty_fs_def)

lemma ex_day: "format_day 0 = ''1970-01-01''"
  by (simp add: format_day_def civil_of_day_def year_day_def month_lengths_def leap_year_def
      two_digits_def digit_char_def char_of_def bit_0)

lemma ex_groups: "group_points 0 ex_points = [(''1970-01-01'', ex_points)]"
  by (simp add: group_points_def ex_points_def format_local_def local_day_def ns_per_day_def ns_per_sec_def ex_day)

lemma ex_logs: "committed (final_logs ex_env ex_run_events ex_storage key) \<in> {[], [ex_points]}"
proof -
  have "fold (log_step ex_env) ex_run_events (\<lambda>_. empty_log) =
      (\<lambda>_. empty_log)(''d_1970-01-01'' := astep empty_log (Batch ex_points))"
    by (simp add: ex_run_events_def ex_env_def ex_groups log_batch_def Let_def del: astep.simps)
  then show ?thesis
    by (simp add: final_logs_def flush_all_keys log_flushes flush_log_def empty_log_def ex_points_ok del: map_map)
qed

lemma ex_disk_small: "disk_small (final_state ex_env ex_run_events ex_storage)"
proof -
  let ?s = "final_state ex_env ex_run_events ex_storage" and ?A = "final_logs ex_env ex_run_events ex_storage"
  have inv: "engine_inv ex_env ?s ?A" and cfg: "sconfig ?s = ex_config"
    using final_facts [OF ex_env_ok ex_storage_new] by (simp_all add: empty_fs_def ex_config_def ex_run_events_def plain_elem_def no_slash_def)
  have fi: "files_inv ?s" by (rule engine_inv_files [OF inv])
  have "length (content (disk ?s) f) \<le> 2 ^ 48" if "(p, f) \<in> set (names (disk ?s))" for p f
  proof -
    from that files_inv_basic [OF fi] have "lookup (disk ?s) p = Some f"
      by (simp add: lookup_def fs_ok_def)
    from files_inv_owner [OF fi this] obtain k w where w: "map_of (writers ?s) k = Some w" "f \<in> handles w" by blast
    have "config w = ex_config" using files_inv_writer [OF fi w(1)] cfg by (auto simp: writer_at_def)
    then have "length (block_bytes (compress ex_env) w ex_points) = 24"
      by (simp add: block_bytes_def dataToWrite_def ex_config_def ex_bytes length_dataWithCRC)
    then show ?thesis
      using engine_inv_log [OF inv w(1)] ex_logs [of k] w(2)
      by (auto simp: log_of_def wrel_def Let_def handles_def log_data_def log_index_def entry.put_width)
  qed
  then show ?thesis by (auto simp: disk_small_def)
qed


end
