(* ===== verification/Tiering.thy ===== *)
theory Tiering
  imports Engine_Run Maintenance_Facts
begin

text \<open>
  Moving a day file to the cold tier (\<open>moveColdData\<close> with \<open>recompressCold\<close>): what is on disk
  afterwards, when a query still finds the points, and when points are lost.
\<close>

subsection \<open>The paths involved\<close>

lemma Join_file_suffix:
  assumes "D \<noteq> []" and "list_all plain_elem es" and "es \<noteq> []" and "plain_elem e" and "plain_elem (e @ x)"
  shows "Join (D # es @ [e]) @ x = Join (D # es @ [e @ x])"
  using Join_snoc [OF assms(1-4)] Join_snoc [OF assms(1-3,5)] by simp

lemma plain_elem_append: "plain_elem e \<Longrightarrow> no_slash x \<Longrightarrow> 3 \<le> length x \<Longrightarrow> plain_elem (e @ x)"
  by (cases e; cases x; cases "tl x") (auto simp: plain_elem_def no_slash_def)

text \<open>Source, temporary and final file, each with its index, are six different paths.\<close>

definition move_paths :: "storage_config \<Rightarrow> string \<Rightarrow> string \<Rightarrow> string list" where
  "move_paths cfg device name =
     (let src = Join [Join [DataDir cfg, ''hot''], device, name];
          dstDir = Join [Join [DataDir cfg, ''cold''], device];
          tmp = Join [dstDir, name @ ''.tmp''];
          dst = Join [dstDir, name]
      in [src, src @ ''.idx'', tmp, tmp @ ''.idx'', dst, dst @ ''.idx''])"

lemma move_paths_eq:
  assumes D: "DataDir cfg \<noteq> []" and pl: "plain_elem dev" "plain_elem name"
  shows "move_paths cfg dev name =
    (let p = (\<lambda>tier x. Join [DataDir cfg, tier, dev, name @ x])
     in [p ''hot'' [], p ''hot'' ''.idx'', p ''cold'' ''.tmp'', p ''cold'' ''.tmp.idx'', p ''cold'' [], p ''cold'' ''.idx''])"
proof -
  have t: "plain_elem ''hot''" "plain_elem ''cold''" by (simp_all add: plain_elem_def no_slash_def)
  have x: "plain_elem (name @ ''.tmp'')" "plain_elem (name @ ''.idx'')" "plain_elem (name @ ''.tmp.idx'')"
    by (rule plain_elem_append [OF pl(2)]; simp add: no_slash_def)+
  have j: "Join [Join [DataDir cfg, ''hot''], dev, name] = Join [DataDir cfg, ''hot'', dev, name]"
    "Join [Join [DataDir cfg, ''cold''], dev] = Join [DataDir cfg, ''cold'', dev]"
    "Join [Join [DataDir cfg, ''cold'', dev], name] = Join [DataDir cfg, ''cold'', dev, name]"
    "Join [Join [DataDir cfg, ''cold'', dev], name @ ''.tmp''] = Join [DataDir cfg, ''cold'', dev, name @ ''.tmp'']"
    using Join_Join [OF D, of "[''hot'']" "[dev, name]"] Join_Join [OF D, of "[''cold'']" "[dev]"]
      Join_Join [OF D, of "[''cold'', dev]" "[name]"] Join_Join [OF D, of "[''cold'', dev]" "[name @ ''.tmp'']"] t pl x
    by simp_all
  have s: "Join [DataDir cfg, ''hot'', dev, name] @ ''.idx'' = Join [DataDir cfg, ''hot'', dev, name @ ''.idx'']"
    "Join [DataDir cfg, ''cold'', dev, name] @ ''.idx'' = Join [DataDir cfg, ''cold'', dev, name @ ''.idx'']"
    "Join [DataDir cfg, ''cold'', dev, name @ ''.tmp''] @ ''.idx'' = Join [DataDir cfg, ''cold'', dev, name @ ''.tmp.idx'']"
    using Join_file_suffix [OF D, of "[''hot'', dev]" name "''.idx''"] Join_file_suffix [OF D, of "[''cold'', dev]" name "''.idx''"]
      Join_file_suffix [OF D, of "[''cold'', dev]" "name @ ''.tmp''" "''.idx''"] t pl x
    by simp_all
  show ?thesis unfolding move_paths_def Let_def j s by simp
qed

lemma move_paths_distinct:
  assumes D: "DataDir cfg \<noteq> []" and pl: "plain_elem dev" "plain_elem name"
  shows "distinct (move_paths cfg dev name)"
proof -
  have t: "plain_elem ''hot''" "plain_elem ''cold''" by (simp_all add: plain_elem_def no_slash_def)
  have x: "plain_elem (name @ ''.tmp'')" "plain_elem (name @ ''.idx'')" "plain_elem (name @ ''.tmp.idx'')"
    by (rule plain_elem_append [OF pl(2)]; simp add: no_slash_def)+
  have "Join [DataDir cfg, a, dev, u] = Join [DataDir cfg, b, dev, v] \<longleftrightarrow> a = b \<and> u = v"
    if "plain_elem a" "plain_elem b" "plain_elem u" "plain_elem v" for a b u v
    using Join_inject [OF D, of "[a, dev, u]" "[b, dev, v]"] that pl by simp
  then show ?thesis using t pl x by (simp add: move_paths_eq [OF D pl] Let_def)
qed

subsection \<open>One file\<close>

text \<open>The contents of the new data file for the points that the full scan of the old one yields.\<close>

definition cold_data :: "environment \<Rightarrow> storage_config \<Rightarrow> simple_point list \<Rightarrow> bytes" where
  "cold_data env cfg points =
     (if points = [] then [] else dataToWrite (compress env) cfg SpeedBestCompression points)"

lemma flush_data:
  assumes "flush z IoOk IoOk fs w = (fs', w')" and "dataFile w \<noteq> idxFile w"
  shows "content fs' (dataFile w) = content fs (dataFile w) @
    (if buffer w = [] then [] else dataToWrite z (config w) (encoder w) (buffer w))"
  using assms
  by (auto simp: flush_def take_buffer_def write_data_def write_index_def written_def Let_def)

lemma recompressCold_result:
  assumes ok: "fs_ok fs" and nd: "\<And>q. \<not> denied fs q" and fresh: "lookup fs p = None" "lookup fs (p @ ''.idx'') = None"
    and src: "lookup fs src = Some f" and io: "io_data env = IoOk" "io_index env = IoOk"
    and q: "Day_Reader.Query (decompress env) fs \<lparr>readerFile = f\<rparr> 0 (2 ^ 62) = Some ps"
  obtains fs' h k where "recompressCold env cfg fs src p = Inr (fs', True)" and "fs_ok fs'" and "denied fs' = denied fs"
    and "\<And>x. lookup fs' x = (if x = p then Some h else if x = p @ ''.idx'' then Some k else lookup fs x)"
    and "\<And>x g. lookup fs x = Some g \<Longrightarrow> content fs' g = content fs g"
    and "content fs' h = cold_data env cfg ps"
proof -
  let ?cfg = "cfg\<lparr>CompressLevel := 9\<rparr>"
  obtain fs1 w where new: "NewDayWriter fs p ?cfg [] (- 719162 * ns_per_day) = (fs1, Some w)" and ok1: "fs_ok fs1"
    and d1: "denied fs1 = denied fs"
    and l1: "\<And>q. lookup fs1 q = (if q = p then Some (dataFile w) else if q = p @ ''.idx'' then Some (idxFile w) else lookup fs q)"
    and c1: "\<And>q f. lookup fs q = Some f \<Longrightarrow> content fs1 f = content fs f \<and> f \<notin> handles w"
    and e1: "content fs1 (dataFile w) = []" "content fs1 (idxFile w) = []" and cfg: "config w = ?cfg"
    by (rule NewDayWriter_fresh [OF ok nd fresh, where cfg = ?cfg and dev = "[]" and dt = "- 719162 * ns_per_day"])
      (rule that; assumption)
  note n = NewDayWriter_Some [OF new ok]
  have lvl: "encoder_level 9 = SpeedBestCompression" by (simp add: encoder_level_def)
  let ?w = "(Day_Writer.WriteBatch w ps)\<lparr>closeChan := True\<rparr>"
  obtain fs2 w2 where fl: "flush (compress env) IoOk IoOk fs1 ?w = (fs2, w2)" by fastforce
  have buf: "buffer ?w = ps" by (simp add: n(7))
  have dw: "dataToWrite (compress env) ?cfg SpeedBestCompression ps = dataToWrite (compress env) cfg SpeedBestCompression ps"
    by (simp add: dataToWrite_def)
  have data: "content fs2 (dataFile w) = cold_data env cfg ps"
    using flush_data [OF fl] n(2,7) e1 by (simp add: cold_data_def cfg n(6) lvl dw)
  note fr = flush_frame [OF fl]
  have "recompressCold env cfg fs src p = Inr (fs2, True)"
    using src nd q new fl io n(9) by (simp add: recompressCold_def NewDayReader_def Day_Writer.Close_def)
  moreover have "content fs2 g = content fs g" if "lookup fs x = Some g" for x g
    using fr c1 [OF that] by (auto simp: handles_def)
  ultimately show ?thesis
    using that [of fs2 "dataFile w" "idxFile w"] fr ok1 d1 l1 data by simp
qed

lemma read_rename:
  assumes "rename_file fs a b = (fs', True)"
  shows "lookup fs' x = (if x = b then lookup fs a else if x = a then None else lookup fs x)"
    and "content fs' = content fs" and "denied fs' = denied fs" and "lookup fs a \<noteq> None"
proof -
  obtain f where f: "lookup fs a = Some f" using assms by (auto simp: rename_file_def split: option.splits)
  then show "lookup fs' x = (if x = b then lookup fs a else if x = a then None else lookup fs x)"
    using lookup_rename_file [OF f, of b x] assms by simp
  show "content fs' = content fs" using content_rename_file [of fs a b] assms by simp
  show "denied fs' = denied fs" using assms f by (auto simp: rename_file_def)
  show "lookup fs a \<noteq> None" using f by simp
qed

text \<open>The whole move of one file: the index is copied as it is, the data file is written anew.\<close>

lemma move_file_result:
  assumes ok: "fs_ok fs" and nd: "\<And>q. \<not> denied fs q" and D: "DataDir cfg \<noteq> []"
    and pl: "plain_elem dev" "plain_elem name" and len: "10 \<le> length name" and exp: "expired cutoff name"
    and paths: "move_paths cfg dev name = [src, srcIdx, tmp, tmpIdx, dst, dstIdx]"
    and here: "lookup fs src = Some f" "lookup fs srcIdx = Some g" "lookup fs tmp = None" "lookup fs tmpIdx = None"
    and io: "io_data env = IoOk" "io_index env = IoOk"
    and q: "Day_Reader.Query (decompress env) fs \<lparr>readerFile = f\<rparr> 0 (2 ^ 62) = Some ps"
  obtains fs' where "move_file env cfg cutoff dev (name, False) fs = Inr fs'"
    and "lookup fs' src = None" and "lookup fs' srcIdx = None"
    and "read_file fs' dst = Some (cold_data env cfg ps)" and "read_file fs' dstIdx = Some (content fs g)"
    and "\<And>x. \<not> denied fs' x"
proof -
  have p: "Join [Join [DataDir cfg, ''hot''], dev, name] = src" "src @ ''.idx'' = srcIdx"
    "Join [Join [Join [DataDir cfg, ''cold''], dev], name @ ''.tmp''] = tmp" "tmp @ ''.idx'' = tmpIdx"
    "Join [Join [Join [DataDir cfg, ''cold''], dev], name] = dst" "dst @ ''.idx'' = dstIdx"
    using paths by (auto simp: move_paths_def Let_def)
  have dis: "distinct [src, srcIdx, tmp, tmpIdx, dst, dstIdx]"
    using move_paths_distinct [OF D pl] paths by simp
  obtain fs1 h k where rc: "recompressCold env cfg fs src tmp = Inr (fs1, True)" and ok1: "fs_ok fs1" and d1: "denied fs1 = denied fs"
    and l1: "\<And>x. lookup fs1 x = (if x = tmp then Some h else if x = tmp @ ''.idx'' then Some k else lookup fs x)"
    and c1: "\<And>x g. lookup fs x = Some g \<Longrightarrow> content fs1 g = content fs g"
    and data: "content fs1 h = cold_data env cfg ps"
    by (rule recompressCold_result [OF ok nd here(3) here(4) [folded p(4)] here(1) io q, where cfg = cfg])
      (rule that; assumption)
  obtain fs2 where rn: "rename_file fs1 tmp dst = (fs2, True)"
    by (simp add: rename_file_def l1)
  note r = read_rename [OF rn]
  have l2: "lookup fs2 dst = Some h" "lookup fs2 src = Some f" "lookup fs2 srcIdx = Some g"
    using dis here p by (auto simp: r(1) l1)
  have c2: "content fs2 h = cold_data env cfg ps" "content fs2 g = content fs g" and d2: "\<And>x. \<not> denied fs2 x"
    using data c1 [OF here(2)] nd d1 by (simp_all add: r)
  have "open_append fs2 dstIdx \<noteq> None"
    using d2 by (simp add: open_append_def split: option.split)
  then obtain fs3 m where oa: "open_append fs2 dstIdx = Some (fs3, m)" by auto
  have wf: "write_file fs2 dstIdx (content fs g) = Some (fs3\<lparr>content := (content fs3)(m := content fs g)\<rparr>)"
    by (simp add: write_file_def oa)
  note l3 = open_append_lookup [OF oa]
  have mh: "m \<noteq> h"
  proof -
    have ok2: "fs_ok fs2" using fs_ok_rename_file [OF ok1, of tmp dst] rn by simp
    show ?thesis
    proof (cases "lookup fs2 dstIdx")
      case None
      then show ?thesis using oa lookup_less [OF ok2 l2(1)] by (auto simp: open_append_def split: if_splits)
    next
      case (Some x)
      then show ?thesis using oa lookup_inj [OF ok2 l2(1), of dstIdx] dis by (auto simp: open_append_def split: if_splits)
    qed
  qed
  have c3: "content fs3 h = content fs2 h"
    using open_append_content [OF oa] mh by auto
  have d3: "denied fs3 = denied fs2" by (rule open_append_ok [OF oa])
  let ?fs4 = "fs3\<lparr>content := (content fs3)(m := content fs g)\<rparr>"
  let ?fs' = "fst (remove_file (fst (remove_file ?fs4 src)) srcIdx)"
  have "finish_move fs2 src dst = ?fs'"
    using d2 l2(3) c2(2) wf by (simp add: finish_move_def p read_file_def)
  then have mv: "move_file env cfg cutoff dev (name, False) fs = Inr ?fs'"
    using exp len nd rc rn by (auto simp: move_file_def file_date_def expired_def p split: option.splits)
  have l4: "lookup ?fs4 x = lookup fs3 x" for x by (simp add: lookup_def)
  have ne: "dst \<noteq> src" "dst \<noteq> srcIdx" "dst \<noteq> dstIdx" "dstIdx \<noteq> src" "dstIdx \<noteq> srcIdx" using dis by auto
  have dd: "denied ?fs' = denied fs2" using d3 by (simp add: remove_file_def)
  show ?thesis
  proof (rule that [OF mv])
    show "lookup ?fs' src = None" "lookup ?fs' srcIdx = None" by (simp_all add: lookup_remove_file)
    show "read_file ?fs' dst = Some (cold_data env cfg ps)"
      using ne l2 c2 c3 mh d2 dd by (simp add: read_file_def lookup_remove_file l4 l3)
    show "read_file ?fs' dstIdx = Some (content fs g)"
      using ne d2 dd by (simp add: read_file_def lookup_remove_file l4 l3)
    show "\<not> denied ?fs' x" for x using d2 dd by simp
  qed
qed

subsection \<open>Properties\<close>

text \<open>The situation of a move: a hot file of some old day with its index, no leftover temporary files.\<close>

definition movable :: "environment \<Rightarrow> storage_config \<Rightarrow> int \<Rightarrow> string \<Rightarrow> string \<Rightarrow> file_system \<Rightarrow> bytes \<Rightarrow> bytes \<Rightarrow> bool" where
  "movable env cfg cutoff dev name fs data index \<longleftrightarrow>
     fs_ok fs \<and> (\<forall>q. \<not> denied fs q) \<and> DataDir cfg \<noteq> [] \<and> plain_elem dev \<and> plain_elem name \<and>
     10 \<le> length name \<and> expired cutoff name \<and> io_data env = IoOk \<and> io_index env = IoOk \<and>
     (case move_paths cfg dev name of
        [src, srcIdx, tmp, tmpIdx, dst, dstIdx] \<Rightarrow>
          lookup fs tmp = None \<and> lookup fs tmpIdx = None \<and>
          read_file fs src = Some data \<and> read_file fs srcIdx = Some index
      | _ \<Rightarrow> False)"

lemma movable_result:
  assumes m: "movable env cfg cutoff dev name fs data index"
    and q: "\<And>f. content fs (readerFile f) = data \<Longrightarrow>
      Day_Reader.Query (decompress env) fs (f :: day_reader) 0 (2 ^ 62) = Some ps"
  obtains fs' where "move_file env cfg cutoff dev (name, False) fs = Inr fs'"
    and "lookup fs' (Join [DataDir cfg, ''hot'', dev, name]) = None"
    and "read_file fs' (Join [DataDir cfg, ''cold'', dev, name]) = Some (cold_data env cfg ps)"
    and "read_file fs' (Join [DataDir cfg, ''cold'', dev, name] @ ''.idx'') = Some index"
    and "\<And>x. \<not> denied fs' x"
proof -
  have h: "fs_ok fs" "\<And>q. \<not> denied fs q" "DataDir cfg \<noteq> []" "plain_elem dev" "plain_elem name" "10 \<le> length name"
    "expired cutoff name" "io_data env = IoOk" "io_index env = IoOk" using m by (simp_all add: movable_def)
  obtain src srcIdx tmp tmpIdx dst dstIdx where mp: "move_paths cfg dev name = [src, srcIdx, tmp, tmpIdx, dst, dstIdx]"
    by (auto simp: move_paths_def Let_def)
  note e = move_paths_eq [OF h(3-5)]
  have p: "src = Join [DataDir cfg, ''hot'', dev, name]" "dst = Join [DataDir cfg, ''cold'', dev, name]"
    using e mp by (simp_all add: Let_def)
  have di: "dst @ ''.idx'' = dstIdx" using mp by (auto simp: move_paths_def Let_def)
  from m mp h(2) obtain f g where fg: "lookup fs src = Some f" "content fs f = data" "lookup fs srcIdx = Some g"
    "content fs g = index" "lookup fs tmp = None" "lookup fs tmpIdx = None"
    by (auto simp: movable_def read_file_def)
  have "Day_Reader.Query (decompress env) fs \<lparr>readerFile = f\<rparr> 0 (2 ^ 62) = Some ps" using q [of "\<lparr>readerFile = f\<rparr>"] fg(2) by simp
  from move_file_result [OF h(1-7) mp fg(1,3,5,6) h(8,9) this] obtain fs' where
    "move_file env cfg cutoff dev (name, False) fs = Inr fs'" "lookup fs' src = None"
    "read_file fs' dst = Some (cold_data env cfg ps)" "read_file fs' dstIdx = Some (content fs g)"
    "\<And>x. \<not> denied fs' x" by blast
  with that [of fs'] p di fg(4) show ?thesis by simp
qed

lemma queryFile_pair:
  assumes "read_file fs p = Some data" and "read_file fs (p @ ''.idx'') = Some index"
  obtains r where "content fs (readerFile (r :: day_reader)) = data"
    and "queryFile env fs p st en = QueryWithIndex (decompress env) fs r st en (readIndex_data index)"
proof -
  from assms(1) obtain f where f: "lookup fs p = Some f" "\<not> denied fs p" "content fs f = data"
    by (auto simp: read_file_def split: if_splits)
  then show ?thesis
    by (intro that [of "\<lparr>readerFile = f\<rparr>"])
      (simp_all add: queryFile_def readIndex_def assms(2) NewDayReader_def)
qed

text \<open>moving a day file of one uncompressed block keeps it readable. The full scan reads it right, the
  recompressed block has the same bytes, and the copied index still fits: a query of the cold file
  returns the same points, if their times are not negative (the scan asks for 0 to \<open>2^62\<close>).\<close>

theorem move_keeps_single_block:
  assumes m: "movable env cfg cutoff dev name fs (dataWithCRC b) index"
    and b: "list_all point_ok b" "b \<noteq> []" "time_ordered b" "\<forall>p \<in> set b. in_range 0 (2 ^ 62) p"
    and plain: "int (length (block_raw b)) < IndexInterval cfg" "decompress env (dataWithCRC b) = None"
    and df: "day_file (decompress env) (dataWithCRC b) index [b]"
  shows "\<exists>fs'. move_file env cfg cutoff dev (name, False) fs = Inr fs' \<and>
    lookup fs' (Join [DataDir cfg, ''hot'', dev, name]) = None \<and>
    queryFile env fs' (Join [DataDir cfg, ''cold'', dev, name]) st en = Inr (Some (filter (in_range st en) b))"
proof -
  have q: "Day_Reader.Query (decompress env) fs r 0 (2 ^ 62) = Some b"
    if "content fs (readerFile (r :: day_reader)) = dataWithCRC b" for r
  proof -
    have "filter (in_range 0 (2 ^ 62)) b = b" using b(4) by simp
    moreover have "parsePoints (dataWithCRC b) 0 (2 ^ 62) = filter (in_range 0 (2 ^ 62)) b"
      using parsePoints_encoded [OF b(1), of "put_le32 (ChecksumIEEE (block_raw b))"]
      by (simp add: dataWithCRC_def block_raw_def)
    ultimately show ?thesis using that plain(2) by (simp add: Query_def parseLegacyFormat_def parsePoints_def)
  qed
  have c: "cold_data env cfg b = dataWithCRC b" using b(2) plain(1) by (simp add: cold_data_def dataToWrite_def)
  obtain fs' where mv: "move_file env cfg cutoff dev (name, False) fs = Inr fs'"
    "lookup fs' (Join [DataDir cfg, ''hot'', dev, name]) = None"
    "read_file fs' (Join [DataDir cfg, ''cold'', dev, name]) = Some (dataWithCRC b)"
    "read_file fs' (Join [DataDir cfg, ''cold'', dev, name] @ ''.idx'') = Some index"
    using movable_result [OF m q] unfolding c by metis
  obtain r :: day_reader where r: "content fs' (readerFile r) = dataWithCRC b"
    "queryFile env fs' (Join [DataDir cfg, ''cold'', dev, name]) st en =
      QueryWithIndex (decompress env) fs' r st en (readIndex_data index)"
    by (rule queryFile_pair [OF mv(3,4)])
  have "QueryWithIndex (decompress env) fs' r st en (readIndex_data index) = Inr (Some (filter (in_range st en) (concat [b])))"
    using df b(3) r(1) by (intro QueryWithIndex_hold) (simp_all add: day_file_def)
  with mv r show ?thesis by auto
qed

definition ex_move_env :: environment where
  "ex_move_env = \<lparr>zone = 0, compress = ex_zenc, decompress = ex_zdec, map_order = (\<lambda>gs. gs),
     sched = (\<lambda>ds. ds), io_data = IoOk, io_index = IoOk\<rparr>"

definition ex_hot :: "bytes \<Rightarrow> bytes \<Rightarrow> file_system" where
  "ex_hot data index =
     \<lparr>names = [(''data/hot/d/1970-01-01.tsdb'', 0), (''data/hot/d/1970-01-01.tsdb.idx'', 1)],
      content = (\<lambda>f. if f = 0 then data else index), next_file = 2, denied = (\<lambda>_. False)\<rparr>"

lemma ex_cold_join:
  "Join [''data'', ''cold'', ''d'', ''1970-01-01.tsdb''] = ''data/cold/d/1970-01-01.tsdb''"
  "Join [''data'', ''cold'', ''d'', ''1970-01-01.tsdb.idx''] = ''data/cold/d/1970-01-01.tsdb.idx''"
  "Join [''data'', ''cold'', ''d'', ''1970-01-01.tsdb.tmp''] = ''data/cold/d/1970-01-01.tsdb.tmp''"
  "Join [''data'', ''cold'', ''d'', ''1970-01-01.tsdb.tmp.idx''] = ''data/cold/d/1970-01-01.tsdb.tmp.idx''"
  by (simp_all add: Join_def Clean_def render_def clean_elems_def rooted_def clean_step_def)

lemma ex_movable:
  "movable ex_move_env ex_config (70 * ns_per_day) ''d'' ''1970-01-01.tsdb'' (ex_hot data index) data index"
proof -
  have pl: "plain_elem ''d''" "plain_elem ''1970-01-01.tsdb''" by (simp_all add: plain_elem_def no_slash_def)
  have D: "DataDir ex_config \<noteq> []" by (simp add: ex_config_def)
  have "expired (70 * ns_per_day) ''1970-01-01.tsdb''"
    by (simp add: expired_def ex_parse ns_per_day_def del: parse_day.simps)
  moreover have "move_paths ex_config ''d'' ''1970-01-01.tsdb'' =
      [''data/hot/d/1970-01-01.tsdb'', ''data/hot/d/1970-01-01.tsdb.idx'', ''data/cold/d/1970-01-01.tsdb.tmp'',
       ''data/cold/d/1970-01-01.tsdb.tmp.idx'', ''data/cold/d/1970-01-01.tsdb'', ''data/cold/d/1970-01-01.tsdb.idx'']"
    unfolding move_paths_eq [OF D pl] by (simp add: Let_def ex_config_def ex_join ex_cold_join)
  ultimately show ?thesis
    using pl D by (simp add: movable_def ex_move_env_def ex_hot_def fs_ok_def lookup_def read_file_def)
qed

theorem move_keeps_single_block_witness:
  "\<exists>fs'. move_file ex_move_env ex_config (70 * ns_per_day) ''d'' (''1970-01-01.tsdb'', False)
      (ex_hot (dataWithCRC ex_points) ex_index) = Inr fs' \<and>
    queryFile ex_move_env fs' (Join [DataDir ex_config, ''cold'', ''d'', ''1970-01-01.tsdb'']) 6 9 =
      Inr (Some [\<lparr>Timestamp = 9, Values = []\<rparr>])"
proof -
  have z: "decompress ex_move_env = ex_zdec" by (simp add: ex_move_env_def)
  have "ex_zdec (dataWithCRC ex_points) = None"
    by (simp add: ex_zdec_def dataWithCRC_def ex_bytes get_le32_def)
  moreover have "day_file ex_zdec (dataWithCRC ex_points) ex_index [ex_points]"
    using ex_day_file by (simp add: ex_fs_def)
  moreover have "int (length (block_raw ex_points)) < IndexInterval ex_config"
    by (simp add: ex_bytes ex_config_def)
  moreover have "\<forall>p \<in> set ex_points. in_range 0 (2 ^ 62) p" by (simp add: ex_points_def)
  moreover have "filter (in_range 6 9) ex_points = [\<lparr>Timestamp = 9, Values = []\<rparr>]" by (simp add: ex_points_def)
  ultimately show ?thesis
    using move_keeps_single_block [OF ex_movable ex_points_ok(1,3,2), of ex_index 6 9] by (auto simp: z)
qed

text \<open>C18: moving a day file of several uncompressed blocks destroys data. The full scan stops at the second
  block (its first point's time asks for more fields than the file has bytes); only the points of the
  first block are written to the cold file, and the hot file is deleted.\<close>

theorem move_loses_blocks:
  assumes m: "movable env cfg cutoff dev name fs (dataWithCRC b @ EncodeSimplePoint p @ rest) index"
    and b: "list_all point_ok b" "b \<noteq> []" "\<forall>q \<in> set b. in_range 0 (2 ^ 62) q"
    and plain: "int (length (block_raw b)) < IndexInterval cfg"
      "decompress env (dataWithCRC b @ EncodeSimplePoint p @ rest) = None"
    and big: "length (EncodeSimplePoint p @ rest) + 4 < 10 + 4 * unat (ucast (drop_bit 32 (Timestamp p)) :: u16)"
  shows "\<exists>fs'. move_file env cfg cutoff dev (name, False) fs = Inr fs' \<and>
    lookup fs' (Join [DataDir cfg, ''hot'', dev, name]) = None \<and>
    read_file fs' (Join [DataDir cfg, ''cold'', dev, name]) = Some (dataWithCRC b)"
proof -
  have q: "Day_Reader.Query (decompress env) fs r 0 (2 ^ 62) = Some b"
    if r: "content fs (readerFile (r :: day_reader)) = dataWithCRC b @ EncodeSimplePoint p @ rest" for r
  proof -
    have "filter (in_range 0 (2 ^ 62)) b = b" using b(3) by simp
    with full_scan_first_block [of fs r b p rest "decompress env" 0 "2 ^ 62"] b(1) big plain(2) r show ?thesis by simp
  qed
  have c: "cold_data env cfg b = dataWithCRC b" using b(2) plain(1) by (simp add: cold_data_def dataToWrite_def)
  show ?thesis using movable_result [OF m q] unfolding c by metis
qed

theorem move_loses_blocks_witness:
  "\<exists>fs'. move_file ex_move_env ex_config (70 * ns_per_day) ''d'' (''1970-01-01.tsdb'', False)
      (ex_hot (dataWithCRC ex_points @ dataWithCRC [\<lparr>Timestamp = 1700000000000000000, Values = []\<rparr>]) []) = Inr fs' \<and>
    lookup fs' (Join [DataDir ex_config, ''hot'', ''d'', ''1970-01-01.tsdb'']) = None \<and>
    read_file fs' (Join [DataDir ex_config, ''cold'', ''d'', ''1970-01-01.tsdb'']) = Some (dataWithCRC ex_points)"
proof -
  let ?p = "\<lparr>Timestamp = 1700000000000000000, Values = []\<rparr>"
  let ?crc = "put_le32 (ChecksumIEEE (block_raw [?p]))"
  have d: "dataWithCRC ex_points @ dataWithCRC [?p] = dataWithCRC ex_points @ EncodeSimplePoint ?p @ ?crc"
    by (simp add: dataWithCRC_def block_raw_def)
  have z: "decompress ex_move_env (dataWithCRC ex_points @ EncodeSimplePoint ?p @ ?crc) = None"
    by (simp add: ex_move_env_def ex_zdec_def dataWithCRC_def ex_bytes get_le32_def)
  have i: "int (length (block_raw ex_points)) < IndexInterval ex_config"
    by (simp add: ex_bytes ex_config_def)
  have r: "\<forall>p \<in> set ex_points. in_range 0 (2 ^ 62) p" by (simp add: ex_points_def)
  have big: "length (EncodeSimplePoint ?p @ ?crc) + 4 < 10 + 4 * unat (ucast (drop_bit 32 (Timestamp ?p)) :: u16)"
    by simp
  show ?thesis unfolding d using move_loses_blocks [OF ex_movable ex_points_ok(1,3) r i z big] by simp
qed

end
