(* ===== verification/Tcp_Server.thy ===== *)
theory Tcp_Server
  imports Maintenance
begin

text \<open>
  \<open>tffiles/tcp_server.go\<close>: the binary protocol. A connection is a loop that reads a message, handles
  it on the storage engine and writes a response. Lengths inside a message are \<open>uint16\<close> in the code
  and stay words here, since their sums wrap; a slice expression whose bounds came from them may
  panic, which ends the process.

  The surroundings of a connection are parameters: the bytes the peer sends, whether the connection
  still takes responses, the clock, and the text of a storage error (made by the operating system).
\<close>

subsection \<open>Constants\<close>

definition MsgTypeWrite :: byte where "MsgTypeWrite = 0x01"
definition MsgTypeQuery :: byte where "MsgTypeQuery = 0x02"
definition MsgTypePong :: byte where "MsgTypePong = 0x03"
definition RespSuccess :: byte where "RespSuccess = 0x00"
definition RespError :: byte where "RespError = 0x01"
definition MaxMessageSize :: nat where "MaxMessageSize = 10 * 1024 * 1024"

lemmas msg_defs = MsgTypeWrite_def MsgTypeQuery_def MsgTypePong_def RespSuccess_def RespError_def

text \<open>The error texts, in UTF-8.\<close>

definition msg_format_error :: bytes where
  "msg_format_error =
     [0xE6, 0xB6, 0x88, 0xE6, 0x81, 0xAF, 0xE6, 0xA0, 0xBC, 0xE5, 0xBC, 0x8F,
      0xE9, 0x94, 0x99, 0xE8, 0xAF, 0xAF]"

definition string_bytes :: "string \<Rightarrow> bytes" where
  "string_bytes s = map of_char s"

definition bytes_string :: "bytes \<Rightarrow> string" where
  "bytes_string bs = map (\<lambda>b. char_of (unat b)) bs"

definition point_prefix :: "nat \<Rightarrow> bytes" where
  "point_prefix i = [0xE6, 0x95, 0xB0, 0xE6, 0x8D, 0xAE, 0xE7, 0x82, 0xB9] @ string_bytes (decimal i) @
     [0xE8, 0xA7, 0xA3, 0xE6, 0x9E, 0x90, 0xE9, 0x94, 0x99, 0xE8, 0xAF, 0xAF, 0x3A, 0x20]"

definition msg_too_short :: "nat \<Rightarrow> bytes" where
  "msg_too_short i = point_prefix i @ [0xE6, 0x95, 0xB0, 0xE6, 0x8D, 0xAE, 0xE4, 0xB8, 0x8D, 0xE8, 0xB6, 0xB3]"

definition msg_fields :: "nat \<Rightarrow> nat \<Rightarrow> bytes" where
  "msg_fields i n = point_prefix i @ [0xE5, 0xAD, 0x97, 0xE6, 0xAE, 0xB5, 0xE6, 0x95, 0xB0]
     @ string_bytes (decimal n) @ [0xE8, 0xB6, 0x85, 0xE5, 0x87, 0xBA, 0xE8, 0x8C, 0x83, 0xE5, 0x9B, 0xB4]"

subsection \<open>State\<close>

text \<open>\<open>responses\<close> are the bytes written to the connection; \<open>conn_ok\<close> says that writes to it succeed.\<close>

record tcp_server =
  engine :: storage
  activeConns :: i64
  totalWrites :: i64
  totalQueries :: i64
  bytesReceived :: i64
  bytesSent :: i64
  responses :: bytes
  conn_ok :: bool

definition NewTCPServer :: "storage \<Rightarrow> tcp_server" where
  "NewTCPServer s =
     \<lparr>engine = s, activeConns = 0, totalWrites = 0, totalQueries = 0, bytesReceived = 0, bytesSent = 0,
      responses = [], conn_ok = True\<rparr>"

subsection \<open>Responses\<close>

definition transmit :: "bytes \<Rightarrow> tcp_server \<Rightarrow> tcp_server" where
  "transmit response c =
     (if conn_ok c
      then c\<lparr>responses := responses c @ response, bytesSent := bytesSent c + of_nat (length response)\<rparr>
      else c)"

definition sendResponse :: "byte \<Rightarrow> byte \<Rightarrow> bytes \<Rightarrow> tcp_server \<Rightarrow> tcp_server" where
  "sendResponse msgType code data =
     transmit
       (if length data = 0 then put_be32 1 @ [msgType, code]
        else put_be32 (of_nat (1 + length data)) @ [msgType, code] @ data)"

definition sendErrorWithType :: "byte \<Rightarrow> bytes \<Rightarrow> tcp_server \<Rightarrow> tcp_server" where
  "sendErrorWithType msgType errData =
     transmit (put_be32 (of_nat (1 + length errData)) @ [msgType, RespError] @ errData)"

subsection \<open>Reading a message\<close>

text \<open>\<^const>\<open>None\<close> is any error: the end of the stream, or a length over the maximum.\<close>

definition readMessage :: "bytes \<Rightarrow> tcp_server \<Rightarrow> (bytes \<times> bytes \<times> tcp_server) option" where
  "readMessage input c =
     (if length input < 5 then None
      else
        (let header = take 5 input; rest = drop 5 input;
             len = unat (get_be32 (sub header 0 4)); msgType = header ! 4
         in if MaxMessageSize < len then None
            else if length rest < len then None
            else
              (let body = take len rest
               in Some (sub header 0 4 @ [msgType] @ body, drop len rest,
                        c\<lparr>bytesReceived := bytesReceived c + of_nat (5 + len)\<rparr>))))"

subsection \<open>Write requests\<close>

text \<open>The loop over the points, from point \<open>i\<close> at \<open>dataOffset\<close>: an error text, or all points.\<close>

function parse_points ::
    "bytes \<Rightarrow> nat \<Rightarrow> nat \<Rightarrow> nat \<Rightarrow> simple_point list \<Rightarrow> bytes + simple_point list" where
  "parse_points body pointCount i dataOffset points =
     (if i < pointCount then
        (if length body < dataOffset + 10 then Inl (msg_too_short i)
         else
           (let timestamp = get_be64 (sub body dataOffset (dataOffset + 8));
                fieldCount = unat (get_be16 (sub body (dataOffset + 8) (dataOffset + 10)));
                pointLen = 10 + fieldCount * 4
            in if length body < dataOffset + pointLen then Inl (msg_fields i fieldCount)
               else parse_points body pointCount (i + 1) (dataOffset + pointLen)
                      (points @ [\<lparr>Timestamp = timestamp, Values = read_values get_be32 body (dataOffset + 10) fieldCount\<rparr>])))
      else Inr points)"
  by pat_completeness auto

termination
  by (relation "measure (\<lambda>(body, n, i, off, ps). n - i)") auto

declare parse_points.simps [simp del]

text \<open>\<open>now\<close> is the time of the request, \<open>elapsed\<close> what handling it took, in nanoseconds. The body is a
  slice that reaches to the end of its array, so there is no spare capacity.\<close>

definition handleWrite ::
    "environment \<Rightarrow> (storage_error \<Rightarrow> bytes) \<Rightarrow> int \<Rightarrow> int \<Rightarrow> bytes \<Rightarrow> tcp_server \<Rightarrow> tcp_server go" where
  "handleWrite env err_text now elapsed body c =
     (if length body < 6 then Inr (sendErrorWithType MsgTypeWrite msg_format_error c)
      else
        (let deviceIDLen = get_be16 (sub body 0 2) in
         if length body < unat (2 + deviceIDLen + 4) then Inr (sendErrorWithType MsgTypeWrite msg_format_error c)
         else
           go_bind (go_slice body [] 2 (unat (2 + deviceIDLen))) (\<lambda>device.
           go_bind (go_slice body [] (unat (2 + deviceIDLen)) (unat (6 + deviceIDLen))) (\<lambda>countBytes.
             case parse_points body (unat (get_be32 countBytes)) 0 (6 + unat deviceIDLen) [] of
               Inl msg \<Rightarrow> Inr (sendErrorWithType MsgTypeWrite msg c)
             | Inr points \<Rightarrow>
                 (case Storage_WriteBatch env now (engine c) (bytes_string device) points of
                    (s, Some e) \<Rightarrow> Inr (sendErrorWithType MsgTypeWrite (err_text e) (c\<lparr>engine := s\<rparr>))
                  | (s, None) \<Rightarrow>
                      (let c1 = sendResponse MsgTypeWrite RespSuccess [] (c\<lparr>engine := s\<rparr>);
                           c2 = c1\<lparr>totalWrites := totalWrites c1 + 1\<rparr>
                       in if 100000000 < elapsed \<and> length points = 0 then Inl IndexRange else Inr c2))))))"

subsection \<open>Query requests\<close>

definition query_response :: "simple_point list \<Rightarrow> bytes" where
  "query_response points =
     put_be32 (of_nat (length points)) @
     concat (map (\<lambda>p. put_be64 (Timestamp p) @ put_be16 (of_nat (length (Values p))) @
                      concat (map put_be32 (Values p))) points)"

definition handleQuery :: "environment \<Rightarrow> bytes \<Rightarrow> tcp_server \<Rightarrow> tcp_server go" where
  "handleQuery env body c =
     (if length body < 18 then Inr (sendErrorWithType MsgTypeQuery msg_format_error c)
      else
        (let deviceIDLen = get_be16 (sub body 0 2) in
         if length body < unat (2 + deviceIDLen + 16) then Inr (sendErrorWithType MsgTypeQuery msg_format_error c)
         else
           go_bind (go_slice body [] 2 (unat (2 + deviceIDLen))) (\<lambda>device.
           go_bind (go_slice body [] (unat (2 + deviceIDLen)) (unat (10 + deviceIDLen))) (\<lambda>startBytes.
           go_bind (go_slice body [] (unat (10 + deviceIDLen)) (unat (18 + deviceIDLen))) (\<lambda>endBytes.
           go_bind (Storage_Query env (engine c) (bytes_string device) (get_be64 startBytes) (get_be64 endBytes)) (\<lambda>points.
             (let c1 = sendResponse MsgTypeQuery RespSuccess (query_response points) c
              in Inr (c1\<lparr>totalQueries := totalQueries c1 + 1\<rparr>))))))))"

subsection \<open>The connection\<close>

definition handleMessage ::
    "environment \<Rightarrow> (storage_error \<Rightarrow> bytes) \<Rightarrow> int \<Rightarrow> int \<Rightarrow> bytes \<Rightarrow> tcp_server \<Rightarrow> tcp_server go" where
  "handleMessage env err_text now elapsed msg c =
     (if length msg < 5 then Inr c
      else if msg ! 4 = MsgTypeWrite then handleWrite env err_text now elapsed (drop 5 msg) c
      else if msg ! 4 = MsgTypeQuery then handleQuery env (drop 5 msg) c
      else Inr c)"

text \<open>The loop of \<open>handleConnection\<close>. \<open>clock k\<close> gives \<open>now\<close> and \<open>elapsed\<close> of the \<open>k\<close>-th message, \<open>stopped k\<close>
  says that the server had been stopped before it; \<open>input\<close> is what the peer sends until it closes.\<close>

function connection_loop ::
    "environment \<Rightarrow> (storage_error \<Rightarrow> bytes) \<Rightarrow> (nat \<Rightarrow> int \<times> int) \<Rightarrow> (nat \<Rightarrow> bool) \<Rightarrow> nat \<Rightarrow> bytes
      \<Rightarrow> tcp_server \<Rightarrow> tcp_server go" where
  "connection_loop env err_text clock stopped k input c =
     (if stopped k then Inr c
      else case readMessage input c of
             None \<Rightarrow> Inr c
           | Some (msg, rest, c1) \<Rightarrow>
               go_bind (handleMessage env err_text (fst (clock k)) (snd (clock k)) msg c1)
                 (connection_loop env err_text clock stopped (Suc k) rest))"
  by pat_completeness auto

termination
  by (relation "measure (\<lambda>(env, et, clock, st, k, input, c). length input)")
    (auto simp: readMessage_def Let_def split: if_splits)

declare connection_loop.simps [simp del]

text \<open>\<open>acceptLoop\<close> counts the connection before its goroutine starts.\<close>

definition acceptConnection :: "bool \<Rightarrow> tcp_server \<Rightarrow> tcp_server" where
  "acceptConnection ok c = c\<lparr>activeConns := activeConns c + 1, responses := [], conn_ok := ok\<rparr>"

definition handleConnection ::
    "environment \<Rightarrow> (storage_error \<Rightarrow> bytes) \<Rightarrow> (nat \<Rightarrow> int \<times> int) \<Rightarrow> (nat \<Rightarrow> bool) \<Rightarrow> bytes
      \<Rightarrow> tcp_server \<Rightarrow> tcp_server go" where
  "handleConnection env err_text clock stopped input c =
     go_bind (connection_loop env err_text clock stopped 0 input c)
       (\<lambda>c'. Inr (c'\<lparr>activeConns := activeConns c' - 1\<rparr>))"

record tcp_stats =
  active_connections :: i64
  total_writes :: i64
  total_queries :: i64
  bytes_received_mb :: f64
  bytes_sent_mb :: f64

definition megabytes :: "i64 \<Rightarrow> f64" where
  "megabytes n = f64_div (f64_div (f64_of_int (sint n)) (f64_of_int 1024)) (f64_of_int 1024)"

definition TCPServer_GetStats :: "tcp_server \<Rightarrow> tcp_stats" where
  "TCPServer_GetStats c =
     \<lparr>active_connections = activeConns c, total_writes = totalWrites c, total_queries = totalQueries c,
      bytes_received_mb = megabytes (bytesReceived c), bytes_sent_mb = megabytes (bytesSent c)\<rparr>"

end
