(* ===== verification/Tcp_Facts.thy ===== *)
theory Tcp_Facts
  imports Tcp_Server Engine
begin

text \<open>
  What the protocol promises: requests in the documented layout are understood, responses can be read
  back, malformed requests do no harm except for one class of device lengths, and the messages of a
  connection are handled in order. The locale states what the server relies on of the storage engine.
\<close>

subsection \<open>What the server relies on\<close>

locale point_store =
  fixes store_write :: "'s \<Rightarrow> string \<Rightarrow> simple_point list \<Rightarrow> 's \<times> 'e option"
    and store_query :: "'s \<Rightarrow> string \<Rightarrow> i64 \<Rightarrow> i64 \<Rightarrow> simple_point list go"
  assumes write_nothing: "store_write s dev [] = (s, None)"
    and query_sound: "store_query s dev st en = Inr ps \<Longrightarrow> p \<in> set ps \<Longrightarrow> in_range st en p"
begin

lemma query_empty_range: "sint en < sint st \<Longrightarrow> store_query s dev st en = Inr ps \<Longrightarrow> ps = []"
  using query_sound [of s dev st en ps "hd ps"] by (cases ps) (auto simp: in_range_def)

lemma query_filter: "store_query s dev st en = Inr ps \<Longrightarrow> filter (in_range st en) ps = ps"
  using query_sound by (simp add: filter_id_conv)

end

lemma Query_in_range:
  "Day_Reader.Query z fs r st en = Some ps \<Longrightarrow> p \<in> set ps \<Longrightarrow> in_range st en p"
  using parse_loop_sound [of _ st en 0 "[]"]
  by (fastforce simp: Query_def Let_def parsePoints_def parseLegacyFormat_def split: option.splits if_splits)

lemma queryFile_in_range:
  "queryFile env fs fp st en = Inr (Some ps) \<Longrightarrow> p \<in> set ps \<Longrightarrow> in_range st en p"
  by (auto simp: queryFile_def fullScan_def split: if_splits option.splits
      dest: QueryWithIndex_in_range Query_in_range)

lemma query_day_in_range:
  assumes "query_day env s dev st en d = Inr ps" and "p \<in> set ps"
  shows "in_range st en p"
proof -
  from assms(1) obtain a b where "queryFile env (disk s) (day_path (sconfig s) ''hot'' dev (format_local (zone env) d)) st en = Inr a"
    "queryFile env (disk s) (day_path (sconfig s) ''cold'' dev (format_local (zone env) d)) st en = Inr b"
    "ps = case_option [] id a @ case_option [] id b"
    by (auto simp: query_day_def Let_def go_bind_eq_Inr)
  with assms(2) show ?thesis
    by (cases a; cases b) (auto dest: queryFile_in_range)
qed

lemma Storage_Query_in_range:
  assumes "Storage_Query env s dev st en = Inr ps" and "p \<in> set ps"
  shows "in_range st en p"
proof -
  have "\<forall>p \<in> set ps. in_range st en p"
    using assms(1) unfolding Storage_Query_def
    by (rule go_fold_invariant) (auto simp: go_bind_eq_Inr dest: query_day_in_range)
  with assms(2) show ?thesis by blast
qed

interpretation store: point_store "Storage_WriteBatch env now" "Storage_Query env" for env now
  by unfold_locales (auto simp: Storage_WriteBatch_def dest: Storage_Query_in_range)

subsection \<open>Points on the wire\<close>

definition wire_point :: "simple_point \<Rightarrow> bytes" where
  "wire_point p = put_be64 (Timestamp p) @ put_be16 (of_nat (length (Values p))) @ concat (map put_be32 (Values p))"

lemma wire_point_put: "wire_point = put_point put_be64 put_be16 put_be32"
  by (simp add: fun_eq_iff wire_point_def put_point_def)

lemma length_wire_point [simp]: "length (wire_point p) = 10 + length (Values p) * 4"
  by (simp add: wire_point_put be_point.length_put_point)

lemma parse_points_one:
  assumes "point_ok p" and "i < n"
  shows "parse_points (xs @ wire_point p @ ys) n i (length xs) ps =
    parse_points (xs @ wire_point p @ ys) n (i + 1) (length xs + length (wire_point p)) (ps @ [p])"
proof -
  let ?d = "xs @ wire_point p @ ys" and ?o = "length xs"
  have "unat (of_nat (length (Values p)) :: u16) = length (Values p)"
    using assms(1) by (simp add: point_ok_def unat_of_nat16)
  then have c: "unat (get_be16 (sub ?d (?o + 8) (?o + 10))) = length (Values p)"
    using be_point.get_count [of xs p ys] by (simp add: wire_point_put)
  have t: "get_be64 (sub ?d ?o (?o + 8)) = Timestamp p"
    and v: "read_values get_be32 ?d (?o + 10) (length (Values p)) = Values p"
    using be_point.get_time [of xs p ys] be_point.get_values [of "length (Values p)" p xs ys]
    by (simp_all add: wire_point_put)
  have p: "\<lparr>Timestamp = Timestamp p, Values = Values p\<rparr> = p" by simp
  have "parse_points ?d n i ?o ps = parse_points ?d n (i + 1) (?o + (10 + length (Values p) * 4)) (ps @ [p])"
    using assms(2) by (subst parse_points.simps) (simp only: Let_def c t v p, simp)
  then show ?thesis by simp
qed

lemma parse_points_all:
  assumes "list_all point_ok ps"
  shows "parse_points (xs @ concat (map wire_point ps) @ ys) (i + length ps) i (length xs) acc = Inr (acc @ ps)"
  using assms
proof (induction ps arbitrary: xs i acc)
  case Nil
  then show ?case by (simp add: parse_points.simps)
next
  case (Cons p ps)
  from Cons.prems parse_points_one [of p i "i + length (p # ps)" xs "concat (map wire_point ps) @ ys" acc]
  have "parse_points (xs @ wire_point p @ concat (map wire_point ps) @ ys) (i + length (p # ps)) i (length xs) acc =
    parse_points ((xs @ wire_point p) @ concat (map wire_point ps) @ ys) ((i + 1) + length ps) (i + 1)
      (length (xs @ wire_point p)) (acc @ [p])"
    by simp
  also have "\<dots> = Inr ((acc @ [p]) @ ps)" using Cons.prems by (intro Cons.IH) simp
  finally show ?case by simp
qed

lemma query_response_wire: "query_response ps = put_be32 (of_nat (length ps)) @ concat (map wire_point ps)"
  by (simp add: query_response_def wire_point_def cong: map_cong)

subsection \<open>Requests\<close>

text \<open>The bodies that the protocol documents.\<close>

definition write_body :: "bytes \<Rightarrow> simple_point list \<Rightarrow> bytes" where
  "write_body device points =
     put_be16 (of_nat (length device)) @ device @ put_be32 (of_nat (length points)) @ concat (map wire_point points)"

definition query_body :: "bytes \<Rightarrow> i64 \<Rightarrow> i64 \<Rightarrow> bytes" where
  "query_body device st en = put_be16 (of_nat (length device)) @ device @ put_be64 st @ put_be64 en"

lemma unat_of_nat16_small: "n < 65536 \<Longrightarrow> unat (of_nat n :: u16) = n"
  by (simp add: unat_of_nat16)

lemma device_length:
  "length device < 65536 \<Longrightarrow> get_be16 (sub (put_be16 (of_nat (length device)) @ device @ rest) 0 2) = of_nat (length device)"
  using be16.get_sub [of "[]" "of_nat (length device)" "device @ rest"] by (simp add: numeral_2_eq_2)

lemma sub_front: "length xs = k \<Longrightarrow> length ys = n \<Longrightarrow> sub (xs @ ys @ zs) k (k + n) = ys"
  by (auto simp: sub_def)

text \<open>The sums of the code are \<open>uint16\<close>; where they do not wrap, they are the sums of naturals.\<close>

lemma unat16_plus: "n < 65536 \<Longrightarrow> unat (of_nat n + b :: u16) = (unat b + n) mod 65536"
  by (simp only: unat_word_ariths(1) unat_of_nat16) (simp add: add.commute [of n])

lemma unat16_literals:
  fixes b :: u16
  shows "unat (2 + b) = (unat b + 2) mod 65536" "unat (6 + b) = (unat b + 6) mod 65536"
    "unat (10 + b) = (unat b + 10) mod 65536" "unat (18 + b) = (unat b + 18) mod 65536"
    "unat (2 + b + 4) = (unat b + 6) mod 65536" "unat (2 + b + 16) = (unat b + 18) mod 65536"
proof -
  have k: "unat (numeral k + b) = (unat b + numeral k) mod 65536" if "numeral k < (65536 :: nat)" for k
    using unat16_plus [OF that, of b] by (simp only: of_nat_numeral)
  have "2 + b + 4 = 6 + b" "2 + b + 16 = 18 + b" by simp_all
  then show "unat (2 + b) = (unat b + 2) mod 65536" "unat (6 + b) = (unat b + 6) mod 65536"
    "unat (10 + b) = (unat b + 10) mod 65536" "unat (18 + b) = (unat b + 18) mod 65536"
    "unat (2 + b + 4) = (unat b + 6) mod 65536" "unat (2 + b + 16) = (unat b + 18) mod 65536"
    by (simp_all only: k rel_simps)
qed

definition write_answer ::
    "environment \<Rightarrow> (storage_error \<Rightarrow> bytes) \<Rightarrow> int \<Rightarrow> int \<Rightarrow> bytes \<Rightarrow> bytes + simple_point list \<Rightarrow> tcp_server \<Rightarrow> tcp_server go" where
  "write_answer env err_text now elapsed device parsed c =
     (case parsed of
        Inl msg \<Rightarrow> Inr (sendErrorWithType MsgTypeWrite msg c)
      | Inr points \<Rightarrow>
          (case Storage_WriteBatch env now (engine c) (bytes_string device) points of
             (s, Some e) \<Rightarrow> Inr (sendErrorWithType MsgTypeWrite (err_text e) (c\<lparr>engine := s\<rparr>))
           | (s, None) \<Rightarrow>
               (let c1 = sendResponse MsgTypeWrite RespSuccess [] (c\<lparr>engine := s\<rparr>);
                    c2 = c1\<lparr>totalWrites := totalWrites c1 + 1\<rparr>
                in if 100000000 < elapsed \<and> length points = 0 then Inl IndexRange else Inr c2)))"

lemma handleWrite_eq:
  fixes body :: bytes
  defines "n \<equiv> unat (get_be16 (sub body 0 2))"
  shows "handleWrite env et now el body c =
    (if length body < 6 then Inr (sendErrorWithType MsgTypeWrite msg_format_error c)
     else if 65530 \<le> n then Inl SliceBounds
     else if length body < n + 6 then Inr (sendErrorWithType MsgTypeWrite msg_format_error c)
     else write_answer env et now el (sub body 2 (2 + n))
            (parse_points body (unat (get_be32 (sub body (2 + n) (6 + n)))) 0 (6 + n) []) c)"
proof -
  have n: "n < 65536" unfolding n_def by (rule unat16_less)
  have u: "unat (2 + get_be16 (sub body 0 2) + 4) = (n + 6) mod 65536"
    "unat (2 + get_be16 (sub body 0 2)) = (n + 2) mod 65536"
    "unat (6 + get_be16 (sub body 0 2)) = (n + 6) mod 65536"
    by (simp_all only: unat16_literals n_def)
  consider "length body < 6" | "6 \<le> length body" "65530 \<le> n" | "6 \<le> length body" "n < 65530" by linarith
  then show ?thesis
  proof cases
    case 1
    then show ?thesis by (simp add: handleWrite_def)
  next
    case 2
    then have m: "(n + 6) mod 65536 = n - 65530" using n by (simp add: mod_if)
    have "(n + 2) mod 65536 = (if n < 65534 then n + 2 else n - 65534)" using n by (simp add: mod_if)
    with 2 n show ?thesis by (auto simp: handleWrite_def Let_def u m go_slice_def go_bind_def)
  next
    case 3
    then have m: "(n + 6) mod 65536 = n + 6" "(n + 2) mod 65536 = n + 2" by simp_all
    with 3 show ?thesis
      by (simp add: handleWrite_def Let_def u m n_def [symmetric] go_slice_in_range write_answer_def add.commute)
  qed
qed

lemma slice_panics:
  "j < i \<or> (\<forall>x. f x = Inl SliceBounds) \<Longrightarrow> go_bind (go_slice d sp i j) f = Inl SliceBounds"
  by (auto simp: go_slice_def)

lemma handleQuery_eq:
  fixes body :: bytes
  defines "n \<equiv> unat (get_be16 (sub body 0 2))"
  shows "handleQuery env body c =
    (if length body < 18 then Inr (sendErrorWithType MsgTypeQuery msg_format_error c)
     else if 65518 \<le> n then Inl SliceBounds
     else if length body < n + 18 then Inr (sendErrorWithType MsgTypeQuery msg_format_error c)
     else go_bind (Storage_Query env (engine c) (bytes_string (sub body 2 (2 + n)))
            (get_be64 (sub body (2 + n) (10 + n))) (get_be64 (sub body (10 + n) (18 + n)))) (\<lambda>points.
          let c1 = sendResponse MsgTypeQuery RespSuccess (query_response points) c
          in Inr (c1\<lparr>totalQueries := totalQueries c1 + 1\<rparr>)))"
proof -
  have n: "n < 65536" unfolding n_def by (rule unat16_less)
  have u: "unat (2 + get_be16 (sub body 0 2) + 16) = (n + 18) mod 65536"
    "unat (2 + get_be16 (sub body 0 2)) = (n + 2) mod 65536"
    "unat (10 + get_be16 (sub body 0 2)) = (n + 10) mod 65536"
    "unat (18 + get_be16 (sub body 0 2)) = (n + 18) mod 65536"
    by (simp_all only: unat16_literals n_def)
  consider "length body < 18" | "18 \<le> length body" "65518 \<le> n" | "18 \<le> length body" "n < 65518" by linarith
  then show ?thesis
  proof cases
    case 1
    then show ?thesis by (simp add: handleQuery_def)
  next
    case 2
    then have m: "(n + 18) mod 65536 = n - 65518" using n by (simp add: mod_if)
    have "(n + 2) mod 65536 = (if n < 65534 then n + 2 else n - 65534)"
      "(n + 10) mod 65536 = (if n < 65526 then n + 10 else n - 65526)" using n by (simp_all add: mod_if)
    moreover consider "n < 65526" | "65526 \<le> n" "n < 65534" | "65534 \<le> n" by linarith
    ultimately have bad: "(n + 18) mod 65536 < (n + 10) mod 65536 \<or> (n + 10) mod 65536 < (n + 2) mod 65536 \<or> (n + 2) mod 65536 < 2"
      unfolding m using n 2(2) by cases (simp_all, linarith+)
    have "\<not> length body < 18" "\<not> length body < (n + 18) mod 65536" using 2(1) m n by simp_all
    then have "handleQuery env body c = Inl SliceBounds"
      unfolding handleQuery_def Let_def u using bad
      by (simp only: if_False) (intro slice_panics; blast intro: slice_panics)
    with 2 show ?thesis by simp
  next
    case 3
    then have m: "(n + 18) mod 65536 = n + 18" "(n + 2) mod 65536 = n + 2" "(n + 10) mod 65536 = n + 10" by simp_all
    with 3 show ?thesis
      by (simp add: handleQuery_def Let_def u m go_slice_in_range add.commute)
  qed
qed

text \<open>What the two handlers read from the documented bodies.\<close>

lemma read_write_body:
  fixes dev :: bytes and ps :: "simple_point list"
  assumes "length dev < 65530"
  defines "body \<equiv> write_body dev ps"
  shows "unat (get_be16 (sub body 0 2)) = length dev"
    and "sub body 2 (2 + length dev) = dev"
    and "sub body (2 + length dev) (6 + length dev) = put_be32 (of_nat (length ps))"
    and "6 + length dev \<le> length body"
  using assms device_length [of dev "put_be32 (of_nat (length ps)) @ concat (map wire_point ps)"]
    sub_front [of "put_be16 (of_nat (length dev))" 2 dev "length dev" "put_be32 (of_nat (length ps)) @ concat (map wire_point ps)"]
    sub_front [of "put_be16 (of_nat (length dev)) @ dev" "2 + length dev" "put_be32 (of_nat (length ps))" 4 "concat (map wire_point ps)"]
  by (simp_all add: write_body_def unat_of_nat16)

lemma parse_write_body:
  assumes "list_all point_ok ps"
  shows "parse_points (write_body dev ps) (length ps) 0 (6 + length dev) [] = Inr ps"
  using parse_points_all [OF assms, of "put_be16 (of_nat (length dev)) @ dev @ put_be32 (of_nat (length ps))" "[]" 0 "[]"]
  by (simp add: write_body_def)

lemma read_query_body:
  fixes dev :: bytes and st en :: i64
  assumes "length dev < 65518"
  defines "body \<equiv> query_body dev st en"
  shows "unat (get_be16 (sub body 0 2)) = length dev"
    and "sub body 2 (2 + length dev) = dev"
    and "sub body (2 + length dev) (10 + length dev) = put_be64 st"
    and "sub body (10 + length dev) (18 + length dev) = put_be64 en"
    and "length body = 18 + length dev"
  using assms device_length [of dev "put_be64 st @ put_be64 en"]
    sub_front [of "put_be16 (of_nat (length dev))" 2 dev "length dev" "put_be64 st @ put_be64 en"]
    sub_front [of "put_be16 (of_nat (length dev)) @ dev" "2 + length dev" "put_be64 st" 8 "put_be64 en"]
    sub_front [of "put_be16 (of_nat (length dev)) @ dev @ put_be64 st" "10 + length dev" "put_be64 en" 8 "[]"]
  by (simp_all add: query_body_def unat_of_nat16)

end
