(* ===== verification/Tcp_Protocol.thy ===== *)
theory Tcp_Protocol
  imports Tcp_Facts Engine_End
begin

text \<open>
  The properties of the protocol: both requests are understood and answered, the exact inputs on
  which a handler panics, and the handling of a whole connection.
\<close>

subsection \<open>Requests that are well formed\<close>

lemma unat_of_nat32: "n < 2 ^ 32 \<Longrightarrow> unat (of_nat n :: u32) = n"
  by (simp add: unat_of_nat take_bit_eq_mod)

lemma put_be32_1: "put_be32 1 = [0, 0, 0, 1]"
  by (simp add: put_be32_def put_le_def byte_of_def upt_rec)

lemma Storage_WriteBatch_empty: "Storage_WriteBatch env now s dev [] = (s, None)"
  by (rule store.write_nothing)



text \<open>C4: A query request in the documented layout, with a device name shorter than 65518 bytes, is answered with the points that the engine's query of that device and range returns. The response decodes, by the loop that decodes points in write requests, to exactly those points, all of them lie in the range, and the engine is unchanged.\<close>

theorem query_request_roundtrip:
  assumes "length device < 65518" and "conn_ok c"
    and "Storage_Query env (engine c) (bytes_string device) st en = Inr ps"
    and "list_all point_ok ps" and "length ps < 2 ^ 32"
  shows "\<exists>c' data. handleQuery env (query_body device st en) c = Inr c' \<and>
    responses c' = responses c @ put_be32 (of_nat (1 + length data)) @ [MsgTypeQuery, RespSuccess] @ data \<and>
    parse_points data (unat (get_be32 (sub data 0 4))) 0 4 [] = Inr ps \<and>
    list_all (in_range st en) ps \<and> engine c' = engine c \<and> totalQueries c' = totalQueries c + 1"
proof -
  let ?b = "query_body device st en" and ?d = "query_response ps"
  have "handleQuery env ?b c = Inr ((sendResponse MsgTypeQuery RespSuccess ?d c)
      \<lparr>totalQueries := totalQueries (sendResponse MsgTypeQuery RespSuccess ?d c) + 1\<rparr>)"
    using assms(1,3) read_query_body [OF assms(1), of st en]
    by (subst handleQuery_eq) (simp only: codec_get_put, simp add: Let_def)
  moreover have "parse_points ?d (unat (get_be32 (sub ?d 0 4))) 0 4 [] = Inr ps"
    using parse_points_all [OF assms(4), of "put_be32 (of_nat (length ps))" "[]" 0 "[]"]
    by (simp add: query_response_wire sub_def unat_of_nat32 [OF assms(5)])
  moreover have "list_all (in_range st en) ps"
    using store.query_sound [OF assms(3)] by (simp add: list_all_iff)
  moreover have "?d \<noteq> []" by (simp add: query_response_def put_be32_def put_le_def)
  ultimately show ?thesis
    using assms(2) by (auto simp: sendResponse_def transmit_def)
qed

lemma ex_query: "Storage_Query ex_env ex_storage dev st en = Inr []"
proof -
  have "query_day ex_env ex_storage dev st en d = Inr []" for d
    by (simp add: query_day_def queryFile_def ex_storage_def lookup_def empty_fs_def Let_def)
  then show ?thesis
    using Storage_Query_days [of ex_env st en ex_storage dev "\<lambda>_. []"] by simp
qed

theorem query_request_roundtrip_witness:
  "\<exists>c' data. handleQuery ex_env (query_body [0x64] 6 9) (NewTCPServer ex_storage) = Inr c' \<and>
     responses c' = put_be32 (of_nat (1 + length data)) @ [MsgTypeQuery, RespSuccess] @ data \<and>
     parse_points data (unat (get_be32 (sub data 0 4))) 0 4 [] = Inr []"
  using query_request_roundtrip [of "[0x64]" "NewTCPServer ex_storage" ex_env 6 9 "[]"] ex_query
  by (auto simp: NewTCPServer_def)

subsection \<open>Requests that are not\<close>

lemma parse_points_length:
  "parse_points body n i off acc = Inr ps \<Longrightarrow> i \<le> n \<Longrightarrow> length ps = length acc + (n - i)"
proof (induction body n i off acc rule: parse_points.induct)
  case (1 body n i off acc)
  then show ?case
    by (subst (asm) (2) parse_points.simps) (auto simp: Let_def split: if_splits)
qed

text \<open>C5: The write handler panics, and with it the server process, on exactly two kinds of message: those whose device length is at least 65530, since 2+len+4 is computed in 16 bits and the check passes, and, if handling took longer than 100 milliseconds, well formed ones with no points, since the log line reads the first one.\<close>

theorem handleWrite_panics_iff:
  "handleWrite env err_text now elapsed body c = Inl p \<longleftrightarrow>
     (let n = unat (get_be16 (sub body 0 2)) in
      6 \<le> length body \<and> 65530 \<le> n \<and> p = SliceBounds \<or>
      6 + n \<le> length body \<and> n < 65530 \<and> get_be32 (sub body (2 + n) (6 + n)) = 0 \<and> 100000000 < elapsed \<and> p = IndexRange)"
proof -
  define n where "n = unat (get_be16 (sub body 0 2))"
  define k where "k = unat (get_be32 (sub body (2 + n) (6 + n)))"
  have "write_answer env err_text now elapsed dev (parse_points body k 0 (6 + n) []) c = Inl p \<longleftrightarrow>
      k = 0 \<and> 100000000 < elapsed \<and> p = IndexRange" for dev
  proof (cases "k = 0")
    case True
    then show ?thesis
      by (auto simp: write_answer_def parse_points.simps store.write_nothing Let_def)
  next
    case False
    then have "ps \<noteq> []" if "parse_points body k 0 (6 + n) [] = Inr ps" for ps
      using parse_points_length [OF that] by auto
    with False show ?thesis
      by (auto simp: write_answer_def Let_def split: sum.splits prod.splits option.splits)
  qed
  moreover have "k = 0 \<longleftrightarrow> get_be32 (sub body (2 + n) (6 + n)) = 0" by (simp add: k_def unat_eq_0)
  ultimately show ?thesis
    by (subst handleWrite_eq) (simp only: Let_def n_def [symmetric] k_def [symmetric], auto)
qed

text \<open>C6: The query handler panics exactly on messages of at least 18 bytes whose device length is at least 65518, where 2+len+16 wraps in 16 bits and the check passes, and on complete requests for which the query of the engine itself panics.\<close>

theorem handleQuery_panics_iff:
  "handleQuery env body c = Inl p \<longleftrightarrow>
     (let n = unat (get_be16 (sub body 0 2)) in
      18 \<le> length body \<and> 65518 \<le> n \<and> p = SliceBounds \<or>
      18 + n \<le> length body \<and> n < 65518 \<and>
      Storage_Query env (engine c) (bytes_string (sub body 2 (2 + n)))
        (get_be64 (sub body (2 + n) (10 + n))) (get_be64 (sub body (10 + n) (18 + n))) = Inl p)"
proof -
  have bind: "go_bind m (\<lambda>x. Inr (f x)) = Inl p \<longleftrightarrow> m = Inl p" for m :: "simple_point list go" and f :: "simple_point list \<Rightarrow> tcp_server"
    by (cases m) auto
  show ?thesis by (subst handleQuery_eq) (auto simp: Let_def bind)
qed

subsection \<open>Connections\<close>

text \<open>A message as the peer sends it.\<close>

definition frame :: "byte \<times> bytes \<Rightarrow> bytes" where
  "frame m = put_be32 (of_nat (length (snd m))) @ [fst m] @ snd m"

definition count_received :: "bytes \<Rightarrow> tcp_server \<Rightarrow> tcp_server" where
  "count_received msg c = c\<lparr>bytesReceived := bytesReceived c + of_nat (length msg)\<rparr>"

lemma length_frame [simp]: "length (frame m) = 5 + length (snd m)"
  by (simp add: frame_def)

lemma readMessage_frame:
  assumes "length (snd m) \<le> MaxMessageSize"
  shows "readMessage (frame m @ rest) c = Some (frame m, rest, count_received (frame m) c)"
proof -
  have n: "unat (of_nat (length (snd m)) :: u32) = length (snd m)"
    using assms by (intro unat_of_nat32) (simp add: MaxMessageSize_def)
  have "frame m @ rest = put_be32 (of_nat (length (snd m))) @ fst m # snd m @ rest" by (simp add: frame_def)
  moreover have "take 5 (put_be32 w @ x # xs) = put_be32 w @ [x]" "drop 5 (put_be32 w @ x # xs) = xs" for w x xs
    by simp_all
  ultimately show ?thesis
    using assms by (simp add: readMessage_def Let_def sub_def nth_append n count_received_def frame_def)
qed



text \<open>What a connection may change besides the engine: it appends responses and counts them.\<close>

definition accounted :: "tcp_server \<Rightarrow> tcp_server \<Rightarrow> bool" where
  "accounted a b \<longleftrightarrow> activeConns b = activeConns a \<and> conn_ok b = conn_ok a \<and>
     (\<exists>out. responses b = responses a @ out \<and> bytesSent b = bytesSent a + of_nat (length out))"

lemma accounted_refl [simp]: "accounted a a"
  by (simp add: accounted_def)

lemma accounted_trans: "accounted a b \<Longrightarrow> accounted b c \<Longrightarrow> accounted a c"
  unfolding accounted_def by (elim conjE exE) (auto simp: add.assoc)

lemma accounted_updates [simp]:
  "accounted a (c\<lparr>engine := s\<rparr>) = accounted a c" "accounted a (c\<lparr>totalWrites := w\<rparr>) = accounted a c"
  "accounted a (c\<lparr>totalQueries := w\<rparr>) = accounted a c" "accounted a (c\<lparr>bytesReceived := w\<rparr>) = accounted a c"
  by (simp_all add: accounted_def)

lemma accounted_transmit: "accounted a (transmit r c) \<longleftrightarrow> accounted a (if conn_ok c then
    c\<lparr>responses := responses c @ r, bytesSent := bytesSent c + of_nat (length r)\<rparr> else c)"
  by (simp add: transmit_def)

lemma accounted_respond [simp]:
  "accounted a c \<Longrightarrow> accounted a (transmit r c)"
  unfolding accounted_def transmit_def by (elim conjE exE) (auto simp: add.assoc)

lemma accounted_send [simp]:
  "accounted a c \<Longrightarrow> accounted a (sendResponse t code d c)" "accounted a c \<Longrightarrow> accounted a (sendErrorWithType t d c)"
  by (simp_all add: sendResponse_def sendErrorWithType_def)

lemma accounted_handleMessage:
  assumes "handleMessage env et now el msg c = Inr c'"
  shows "accounted c c'"
proof -
  have w: "accounted c c'" if "handleWrite env et now el body c = Inr c'" for body
    using that by (subst (asm) handleWrite_eq)
      (auto simp: write_answer_def Let_def split: if_splits sum.splits prod.splits option.splits)
  have q: "accounted c c'" if "handleQuery env body c = Inr c'" for body
    using that by (subst (asm) handleQuery_eq) (auto simp: Let_def go_bind_eq_Inr split: if_splits)
  show ?thesis
    using assms by (auto simp: handleMessage_def dest: w q split: if_splits)
qed

lemma accounted_loop:
  "connection_loop env et clock st k input c = Inr c' \<Longrightarrow> accounted c c'"
proof (induction env et clock st k input c rule: connection_loop.induct)
  case (1 env et clock st k input c)
  show ?case
  proof (cases "st k \<or> readMessage input c = None")
    case True
    with 1(2) show ?thesis by (subst (asm) connection_loop.simps) (auto split: if_splits)
  next
    case False
    then obtain msg rest c1 where r: "\<not> st k" "readMessage input c = Some (msg, rest, c1)" by auto
    with 1(2) obtain c2 where c2: "handleMessage env et (fst (clock k)) (snd (clock k)) msg c1 = Inr c2"
      "connection_loop env et clock st (Suc k) rest c2 = Inr c'"
      by (subst (asm) connection_loop.simps) (auto simp: go_bind_eq_Inr)
    have "accounted c c1" using r(2) by (auto simp: readMessage_def Let_def split: if_splits)
    then show ?thesis
      using accounted_handleMessage [OF c2(1)] 1(1) [OF r(1) r(2) refl refl c2(2)] by (blast intro: accounted_trans)
  qed
qed



end
