(* ===== verification/Main_Program.thy ===== *)
theory Main_Program
  imports Tcp_Server
begin

text \<open>
  \<open>tffiles/main.go\<close> and the life cycle of the server: the configuration, starting the storage and
  the listener, and what the deferred calls do at the end. Either start may fail, which ends the
  program with \<open>log.Fatal\<close> before anything is deferred. \<open>port_free\<close> is the outcome of \<open>net.Listen\<close>.
\<close>

definition main_config :: storage_config where
  "main_config = (DefaultConfig ''./data'')
     \<lparr>HotDays := 3, RetentionDays := 30, CompressLevel := 6, IndexInterval := 64 * 1024, MaxMemoryMB := 512\<rparr>"

text \<open>\<open>Start\<close> gives \<^const>\<open>False\<close> for an error. The listener and \<open>stopChan\<close> are kept as flags.\<close>

record listening =
  server :: tcp_server
  listener :: bool
  stopChan :: bool

definition Start :: "bool \<Rightarrow> listening \<Rightarrow> listening \<times> bool" where
  "Start port_free l = (if port_free then (l\<lparr>listener := True\<rparr>, True) else (l, False))"

definition Stop :: "listening \<Rightarrow> listening go" where
  "Stop l = (if stopChan l then Inl ClosedChannel
     else Inr (if listener l then l\<lparr>stopChan := True, listener := False\<rparr> else l\<lparr>stopChan := True\<rparr>))"

text \<open>\<^const>\<open>None\<close> is \<open>log.Fatal\<close>.\<close>

definition main_start :: "bool \<Rightarrow> file_system \<Rightarrow> listening option" where
  "main_start port_free fs =
     (case NewStorage fs main_config of
        None \<Rightarrow> None
      | Some s \<Rightarrow>
          (case Start port_free \<lparr>server = NewTCPServer s, listener = False, stopChan = False\<rparr> of
             (l, ok) \<Rightarrow> if ok then Some l else None))"

text \<open>At the end: the deferred calls, last first.\<close>

definition main_end :: "environment \<Rightarrow> listening \<Rightarrow> listening go" where
  "main_end env l =
     go_bind (Stop l) (\<lambda>l.
     go_bind (Storage_Close env (engine (server l))) (\<lambda>s.
     Inr (l\<lparr>server := (server l)\<lparr>engine := s\<rparr>\<rparr>)))"

lemma main_config_default: "main_config = DefaultConfig ''./data''"
  by (simp add: main_config_def DefaultConfig_def)

end
