(* ===== verification/Shutdown.thy ===== *)
theory Shutdown
  imports Engine_End Main_Program Maintenance_Facts
begin

text \<open>
  Shutting down: closing the storage has the effect on the disk of flushing every writer, so what was
  accepted before the shutdown is what queries find after it.
\<close>

subsection \<open>Writers are open until the shutdown\<close>

definition writers_open :: "storage \<Rightarrow> bool" where
  "writers_open s \<longleftrightarrow> distinct (map fst (writers s)) \<and> (\<forall>key. \<not> closed_in s key)"

lemma writers_open_update:
  assumes "writers_open s" and "\<not> closeChan w"
  shows "writers_open (s\<lparr>writers := AList.update key w (writers s)\<rparr>)" and "writers_open (s\<lparr>disk := fs, writers := AList.update key w (writers s)\<rparr>)"
  using assms by (auto simp: writers_open_def closed_in_def update_conv' distinct_update)

lemma writers_open_schema [simp]: "writers_open (s\<lparr>deviceSchemas := d\<rparr>) = writers_open s"
  by (simp add: writers_open_def closed_in_def)

lemma writers_open_disk [simp]: "writers_open (s\<lparr>disk := fs\<rparr>) = writers_open s"
  by (simp add: writers_open_def closed_in_def)

lemma NewDayWriter_open: "NewDayWriter fs fp cfg dev dt = (fs', Some w) \<Longrightarrow> \<not> closeChan w"
  by (auto simp: NewDayWriter_def split: option.splits prod.splits)

lemma getOrCreateWriter_open:
  "getOrCreateWriter now s dev t = (s', r) \<Longrightarrow> writers_open s \<Longrightarrow> writers_open s'"
  by (auto simp: getOrCreateWriter_def Let_def split: if_splits prod.splits option.splits
      intro!: writers_open_update dest: NewDayWriter_open)

lemma writer_append_open: "writers_open s \<Longrightarrow> writers_open (writer_append key ps s)"
  by (auto simp: writer_append_def split: option.splits intro!: writers_open_update)
    (auto simp: writers_open_def closed_in_def split: option.splits)

lemma flush_writer_open: "writers_open s \<Longrightarrow> writers_open (flush_writer env key s)"
  by (auto simp: flush_writer_def split: option.splits prod.splits intro!: writers_open_update
      dest!: flush_closeChan) (auto simp: writers_open_def closed_in_def split: option.splits)

lemma write_groups_open: "writers_open s \<Longrightarrow> writers_open (fst (write_groups now dev gs s))"
proof (induction gs arbitrary: s)
  case (Cons g gs)
  then show ?case
    by (cases g) (auto split: prod.splits sum.splits dest: getOrCreateWriter_open intro!: writer_append_open)
qed simp

lemma engine_step_open: "writers_open s \<Longrightarrow> writers_open (engine_step env ev s)"
  by (cases ev) (auto simp: Storage_WriteBatch_def registerSchema_def flush_writer_open intro!: write_groups_open)

lemma engine_run_open: "writers_open s \<Longrightarrow> writers_open (fold (engine_step env) evs s)"
  by (induction evs arbitrary: s) (simp_all add: engine_step_open)

subsection \<open>Closing is flushing\<close>

definition close_rel :: "string set \<Rightarrow> storage \<Rightarrow> storage \<Rightarrow> bool" where
  "close_rel K t s \<longleftrightarrow>
     disk t = disk s \<and> sconfig t = sconfig s \<and> map fst (writers t) = map fst (writers s) \<and>
     (\<forall>k. map_of (writers t) k =
        map_option (\<lambda>w. if k \<in> K then w\<lparr>closeChan := True\<rparr> else w) (map_of (writers s) k)) \<and>
     (\<forall>k w. k \<in> K \<longrightarrow> map_of (writers s) k = Some w \<longrightarrow> buffer w = [])"

lemma flush_close_flag:
  "flush z rd ri fs (w\<lparr>closeChan := True\<rparr>) = map_prod id (\<lambda>w. w\<lparr>closeChan := True\<rparr>) (flush z rd ri fs w)"
  by (simp add: flush_def take_buffer_def write_data_def write_index_def Let_def split: io_result.splits)

lemma flush_empties: "flush z rd ri fs w = (fs', w') \<Longrightarrow> buffer w' = []"
  by (auto simp: flush_def take_buffer_def write_data_def write_index_def Let_def
      split: option.splits if_splits io_result.splits prod.splits)

lemma close_rel_step:
  assumes "close_rel K t s" and "key \<notin> K" and "\<not> closed_in s key"
  shows "\<exists>t'. close_writer env key t = Inr t' \<and> close_rel (insert key K) t' (flush_writer env key s)"
proof (cases "map_of (writers s) key")
  case None
  with assms(1) have "map_of (writers t) key = None" by (simp add: close_rel_def)
  with None assms(1) show ?thesis
    by (auto simp: close_writer_def flush_writer_def close_rel_def intro!: option.map_cong)
next
  case (Some w)
  with assms have t: "map_of (writers t) key = Some w" "\<not> closeChan w"
    by (simp_all add: close_rel_def closed_in_def)
  have d: "disk t = disk s" using assms(1) by (simp add: close_rel_def)
  obtain fs' w' where f: "flush (compress env) (io_data env) (io_index env) (disk s) w = (fs', w')" by fastforce
  then have "close_writer env key t =
      Inr (t\<lparr>disk := fs', writers := AList.update key (w'\<lparr>closeChan := True\<rparr>) (writers t)\<rparr>)"
    using t d by (simp add: close_writer_def Day_Writer.Close_def flush_close_flag)
  moreover have "flush_writer env key s = s\<lparr>disk := fs', writers := AList.update key w' (writers s)\<rparr>"
    using f Some by (simp add: flush_writer_def)
  ultimately show ?thesis
    using assms(1) flush_empties [OF f] by (auto simp: close_rel_def update_conv' update_keys)
qed

lemma closed_in_flush: "closed_in (flush_writer env key s) k = closed_in s k"
  by (auto simp: flush_writer_def closed_in_def update_conv' split: option.splits prod.splits dest: flush_closeChan)

lemma close_fold:
  assumes "close_rel K t s" and "distinct keys" and "K \<inter> set keys = {}" and "\<forall>k \<in> set keys. \<not> closed_in s k"
  shows "\<exists>t'. go_fold (close_writer env) keys t = Inr t' \<and>
    close_rel (K \<union> set keys) t' (fold (flush_writer env) keys s)"
  using assms
proof (induction keys arbitrary: K t s)
  case (Cons key keys)
  then obtain t1 where t1: "close_writer env key t = Inr t1" "close_rel (insert key K) t1 (flush_writer env key s)"
    using close_rel_step [of K t s key env] by auto
  from Cons.IH [OF t1(2)] Cons.prems t1(1) show ?case by (auto simp: closed_in_flush)
qed simp

lemma engine_step_flushes:
  "fold (engine_step env) (map Flush keys) s = fold (flush_writer env) keys s"
  by (induction keys arbitrary: s) simp_all

lemma Storage_Query_cong:
  "disk t = disk s \<Longrightarrow> sconfig t = sconfig s \<Longrightarrow> Storage_Query env t dev st en = Storage_Query env s dev st en"
  by (simp add: Storage_Query_def query_day_def)

text \<open>C2: Shutting down loses nothing. After any history of batches and flushes, closing the storage succeeds without a panic, leaves every writer closed with an empty buffer, and the disk exactly as if every writer had been flushed; so a query of the data directory after the shutdown returns the same as one after those flushes.\<close>

theorem shutdown_flushes_everything:
  assumes "NewStorage fs cfg = Some s0"
  shows "\<exists>s'. Storage_Close env (fold (engine_step env) evs s0) = Inr s' \<and>
    disk s' = disk (final_state env evs s0) \<and>
    Storage_Query env s' dev st en = Storage_Query env (final_state env evs s0) dev st en \<and>
    (\<forall>key w. map_of (writers s') key = Some w \<longrightarrow> closeChan w \<and> buffer w = [])"
proof -
  let ?s = "fold (engine_step env) evs s0"
  let ?keys = "map fst (writers ?s)"
  have "writers_open s0" using assms by (auto simp: NewStorage_def writers_open_def closed_in_def split: if_splits)
  then have o: "writers_open ?s" by (rule engine_run_open)
  have "close_rel {} ?s ?s" by (simp add: close_rel_def option.map_ident)
  from close_fold [OF this, of ?keys env] o obtain t where
    t: "go_fold (close_writer env) ?keys ?s = Inr t" "close_rel (set ?keys) t (fold (flush_writer env) ?keys ?s)"
    by (auto simp: writers_open_def)
  have fin: "final_state env evs s0 = fold (flush_writer env) ?keys ?s"
    by (simp add: final_state_def flush_all_keys engine_step_flushes del: map_map)
  have "closeChan w \<and> buffer w = []" if "map_of (writers t) key = Some w" for key w
  proof -
    have "key \<in> set (map fst (writers t))" using that by (metis map_of_eq_None_iff list.set_map option.distinct(1))
    moreover have "map fst (writers t) = ?keys"
      using close_fold_closes [OF t(1)] by simp
    ultimately show ?thesis using t(2) that by (auto simp: close_rel_def)
  qed
  with t fin show ?thesis
    by (auto simp: Storage_Close_def close_rel_def intro!: Storage_Query_cong)
qed

theorem shutdown_flushes_everything_witness:
  "\<exists>s'. Storage_Close ex_env (fold (engine_step ex_env) ex_run_events ex_storage) = Inr s' \<and>
     disk s' = disk (final_state ex_env ex_run_events ex_storage)"
  using shutdown_flushes_everything [OF ex_storage_new, of ex_env ex_run_events] by blast

end
