(* ===== verification/Go_Strings.thy ===== *)
theory Go_Strings
  imports Prelude "HOL-Library.Sublist"
begin

text \<open>
  The functions of Go's \<open>strings\<close> and \<open>strconv\<close> that \<open>gobackendkit\<close> uses. A Go string is a list of
  bytes; texts outside ASCII are UTF-8. White space is Unicode's, in its encodings. Changing the case
  is done on ASCII and on the four characters outside it whose other case is an ASCII letter; other
  letters keep theirs, which no comparison in the program can tell, since it compares with ASCII words.
\<close>

subsection \<open>Searching and trimming\<close>

definition HasPrefix :: "string \<Rightarrow> string \<Rightarrow> bool" where
  "HasPrefix s p = prefix p s"

fun Contains :: "string \<Rightarrow> string \<Rightarrow> bool" where
  "Contains [] p = (p = [])"
| "Contains (c # s) p = (prefix p (c # s) \<or> Contains s p)"

definition TrimPrefix :: "string \<Rightarrow> string \<Rightarrow> string" where
  "TrimPrefix s p = (if prefix p s then drop (length p) s else s)"

text \<open>Everything that \<open>unicode.IsSpace\<close> accepts.\<close>

definition space_runes :: "string list" where
  "space_runes =
     [[CHR 0x09], [CHR 0x0A], [CHR 0x0B], [CHR 0x0C], [CHR 0x0D], [CHR 0x20], [CHR 0xC2, CHR 0x85],
      [CHR 0xC2, CHR 0xA0], [CHR 0xE1, CHR 0x9A, CHR 0x80], [CHR 0xE2, CHR 0x80, CHR 0x80],
      [CHR 0xE2, CHR 0x80, CHR 0x81], [CHR 0xE2, CHR 0x80, CHR 0x82], [CHR 0xE2, CHR 0x80, CHR 0x83],
      [CHR 0xE2, CHR 0x80, CHR 0x84], [CHR 0xE2, CHR 0x80, CHR 0x85], [CHR 0xE2, CHR 0x80, CHR 0x86],
      [CHR 0xE2, CHR 0x80, CHR 0x87], [CHR 0xE2, CHR 0x80, CHR 0x88], [CHR 0xE2, CHR 0x80, CHR 0x89],
      [CHR 0xE2, CHR 0x80, CHR 0x8A], [CHR 0xE2, CHR 0x80, CHR 0xA8], [CHR 0xE2, CHR 0x80, CHR 0xA9],
      [CHR 0xE2, CHR 0x80, CHR 0xAF], [CHR 0xE2, CHR 0x81, CHR 0x9F], [CHR 0xE3, CHR 0x80, CHR 0x80]]"

function strip :: "string list \<Rightarrow> string \<Rightarrow> string" where
  "strip ps s = (case find (\<lambda>p. p \<noteq> [] \<and> prefix p s) ps of None \<Rightarrow> s | Some p \<Rightarrow> strip ps (drop (length p) s))"
  by pat_completeness auto

termination
  by (relation "measure (\<lambda>(ps, s). length s)") (auto simp: find_Some_iff prefix_def)

declare strip.simps [simp del]

definition TrimSpace :: "string \<Rightarrow> string" where
  "TrimSpace s = rev (strip (map rev space_runes) (rev (strip space_runes s)))"

text \<open>\<open>TrimRight\<close> with a set of ASCII characters.\<close>

definition TrimRight :: "string \<Rightarrow> char set \<Rightarrow> string" where
  "TrimRight s cs = rev (dropWhile (\<lambda>c. c \<in> cs) (rev s))"

text \<open>The part after the last dot, or everything.\<close>

definition after_last_dot :: "string \<Rightarrow> string" where
  "after_last_dot s = rev (takeWhile (\<lambda>c. c \<noteq> CHR ''.'') (rev s))"

text \<open>\<open>ReplaceAll\<close> of a text that is not empty.\<close>

function ReplaceAll :: "string \<Rightarrow> string \<Rightarrow> string \<Rightarrow> string" where
  "ReplaceAll s old new =
     (case s of [] \<Rightarrow> []
      | c # r \<Rightarrow> if old \<noteq> [] \<and> prefix old s then new @ ReplaceAll (drop (length old) s) old new
                else c # ReplaceAll r old new)"
  by pat_completeness auto

termination
  by (relation "measure (\<lambda>(s, old, new). length s)") (auto simp: prefix_def)

declare ReplaceAll.simps [simp del]

text \<open>\<open>Split\<close> at a character, \<open>Cut\<close> at the first, and \<open>Trim\<close> with a set of ASCII characters.\<close>

fun split_at :: "char \<Rightarrow> string \<Rightarrow> string list" where
  "split_at d [] = [[]]"
| "split_at d (c # s) =
     (if c = d then [] # split_at d s else (case split_at d s of [] \<Rightarrow> [[c]] | w # ws \<Rightarrow> (c # w) # ws))"

definition Cut :: "string \<Rightarrow> char \<Rightarrow> string \<times> string" where
  "Cut s d = (takeWhile (\<lambda>c. c \<noteq> d) s, drop 1 (dropWhile (\<lambda>c. c \<noteq> d) s))"

definition Trim :: "string \<Rightarrow> char set \<Rightarrow> string" where
  "Trim s cs = TrimRight (dropWhile (\<lambda>c. c \<in> cs) s) cs"

subsection \<open>Case\<close>

definition ascii_lower :: "char \<Rightarrow> char" where
  "ascii_lower c = (if 65 \<le> (of_char c :: nat) \<and> (of_char c :: nat) \<le> 90 then char_of (of_char c + 32 :: nat) else c)"

definition ascii_upper :: "char \<Rightarrow> char" where
  "ascii_upper c = (if 97 \<le> (of_char c :: nat) \<and> (of_char c :: nat) \<le> 122 then char_of (of_char c - 32 :: nat) else c)"

definition is_alpha :: "char \<Rightarrow> bool" where
  "is_alpha c \<longleftrightarrow> 65 \<le> (of_char c :: nat) \<and> (of_char c :: nat) \<le> 90 \<or> 97 \<le> (of_char c :: nat) \<and> (of_char c :: nat) \<le> 122"

text \<open>The same on the bits of a character, for evaluation.\<close>

lemma is_alpha_Char [simp, code]:
  "is_alpha (Char b0 b1 b2 b3 b4 b5 b6 b7) =
     (\<not> b7 \<and> b6 \<and> (b4 \<or> b3 \<or> b2 \<or> b1 \<or> b0) \<and> (b4 \<longrightarrow> b3 \<longrightarrow> \<not> b2 \<and> \<not> (b1 \<and> b0)))"
  unfolding is_alpha_def of_char_Char
  by (cases b0; cases b1; cases b2; cases b3; cases b4; cases b5; cases b6; cases b7) simp_all

lemma ascii_lower_Char [simp, code]:
  "ascii_lower (Char b0 b1 b2 b3 b4 b5 b6 b7) =
     Char b0 b1 b2 b3 b4 (b5 \<or> is_alpha (Char b0 b1 b2 b3 b4 b5 b6 b7)) b6 b7"
  unfolding is_alpha_Char ascii_lower_def of_char_Char
  by (cases b0; cases b1; cases b2; cases b3; cases b4; cases b5; cases b6; cases b7) (simp_all add: char_of_def bit_simps)

lemma ascii_upper_Char [simp, code]:
  "ascii_upper (Char b0 b1 b2 b3 b4 b5 b6 b7) =
     Char b0 b1 b2 b3 b4 (b5 \<and> \<not> is_alpha (Char b0 b1 b2 b3 b4 b5 b6 b7)) b6 b7"
  unfolding is_alpha_Char ascii_upper_def of_char_Char
  by (cases b0; cases b1; cases b2; cases b3; cases b4; cases b5; cases b6; cases b7) (simp_all add: char_of_def bit_simps)

function map_runes :: "(string \<times> char) list \<Rightarrow> (char \<Rightarrow> char) \<Rightarrow> string \<Rightarrow> string" where
  "map_runes table f s =
     (case s of [] \<Rightarrow> []
      | c # r \<Rightarrow>
          (case find (\<lambda>(p, _). p \<noteq> [] \<and> prefix p s) table of
             None \<Rightarrow> f c # map_runes table f r
           | Some (p, d) \<Rightarrow> d # map_runes table f (drop (length p) s)))"
  by pat_completeness auto

termination
  by (relation "measure (\<lambda>(table, f, s). length s)") (auto simp: find_Some_iff prefix_def)

declare map_runes.simps [simp del]

text \<open>The Kelvin sign and the dotted capital I; the long s and the dotless i.\<close>

definition ToLower :: "string \<Rightarrow> string" where
  "ToLower = map_runes [([CHR 0xE2, CHR 0x84, CHR 0xAA], CHR ''k''), ([CHR 0xC4, CHR 0xB0], CHR ''i'')] ascii_lower"

definition ToUpper :: "string \<Rightarrow> string" where
  "ToUpper = map_runes [([CHR 0xC5, CHR 0xBF], CHR ''S''), ([CHR 0xC4, CHR 0xB1], CHR ''I'')] ascii_upper"

text \<open>\<open>EqualFold\<close> with a word without k and s.\<close>

definition EqualFold :: "string \<Rightarrow> string \<Rightarrow> bool" where
  "EqualFold s t = (map ascii_lower s = map ascii_lower t)"

subsection \<open>Facts\<close>

definition ascii :: "string \<Rightarrow> bool" where
  "ascii s = list_all (\<lambda>c. (of_char c :: nat) < 128) s"

lemma map_runes_ascii:
  assumes "ascii s" and "list_all (\<lambda>(p, _). p = [] \<or> \<not> ascii [hd p]) table"
  shows "map_runes table f s = map f s"
  using assms(1)
proof (induction s)
  case Nil
  then show ?case by (simp add: map_runes.simps)
next
  case (Cons c s)
  have "\<not> (fst x \<noteq> [] \<and> prefix (fst x) (c # s))" if "x \<in> set table" for x
  proof -
    have "fst x = [] \<or> \<not> ascii [hd (fst x)]" using assms(2) that by (cases x) (auto simp: list_all_iff)
    moreover have "ascii [c]" using Cons.prems by (simp add: ascii_def)
    ultimately show ?thesis by (cases "fst x") auto
  qed
  then have "find (\<lambda>(p, _). p \<noteq> [] \<and> prefix p (c # s)) table = None"
    by (fastforce simp: find_None_iff)
  then show ?case using Cons by (simp add: map_runes.simps [of table f "c # s"] ascii_def)
qed

lemma ToLower_ascii: "ascii s \<Longrightarrow> ToLower s = map ascii_lower s"
  unfolding ToLower_def by (rule map_runes_ascii) (simp_all add: ascii_def)

lemma ToUpper_ascii: "ascii s \<Longrightarrow> ToUpper s = map ascii_upper s"
  unfolding ToUpper_def by (rule map_runes_ascii) (simp_all add: ascii_def)

lemma space_runes_nonempty: "p \<in> set space_runes \<Longrightarrow> p \<noteq> []"
  by (auto simp: space_runes_def)

lemma strip_no_space:
  "find (\<lambda>p. p \<noteq> [] \<and> prefix p s) ps = None \<Longrightarrow> strip ps s = s"
  by (simp add: strip.simps)

lemma strip_idem: "strip ps (strip ps s) = strip ps s"
proof (induction ps s rule: strip.induct)
  case (1 ps s)
  then show ?case
    by (cases "find (\<lambda>p. p \<noteq> [] \<and> prefix p s) ps") (simp_all add: strip.simps [of ps s])
qed

lemma strip_suffix: "\<exists>xs. s = xs @ strip ps s"
proof (induction ps s rule: strip.induct)
  case (1 ps s)
  show ?case
  proof (cases "find (\<lambda>p. p \<noteq> [] \<and> prefix p s) ps")
    case None
    then show ?thesis by (simp add: strip.simps [of ps s])
  next
    case (Some p)
    from 1 [OF this] obtain xs where "drop (length p) s = xs @ strip ps (drop (length p) s)" by blast
    then have "s = (take (length p) s @ xs) @ strip ps (drop (length p) s)"
      by (metis append_take_drop_id append.assoc)
    moreover have "strip ps s = strip ps (drop (length p) s)" using Some by (simp add: strip.simps [of ps s])
    ultimately show ?thesis by metis
  qed
qed

text \<open>A text between visible ASCII characters has nothing to trim.\<close>

definition visible :: "char \<Rightarrow> bool" where
  "visible c \<longleftrightarrow> 33 \<le> (of_char c :: nat) \<and> (of_char c :: nat) < 127"

lemma space_runes_ends: "p \<in> set space_runes \<Longrightarrow> p \<noteq> [] \<and> \<not> visible (hd p) \<and> \<not> visible (last p)"
  by (auto simp: space_runes_def visible_def)

lemma strip_visible:
  assumes "\<forall>p \<in> set ps. p \<noteq> [] \<and> \<not> visible (hd p)" and "visible c"
  shows "strip ps (c # s) = c # s"
proof -
  have "\<not> (p \<noteq> [] \<and> prefix p (c # s))" if "p \<in> set ps" for p
    using assms that by (cases p) auto
  then show ?thesis by (intro strip_no_space) (auto simp: find_None_iff)
qed

lemma TrimSpace_visible:
  assumes "s \<noteq> []" and "visible (hd s)" and "visible (last s)"
  shows "TrimSpace s = s"
proof -
  have "strip space_runes s = s"
    using strip_visible [of space_runes "hd s" "tl s"] assms space_runes_ends by simp
  moreover have "strip (map rev space_runes) (rev s) = rev s"
    using strip_visible [of "map rev space_runes" "last s" "rev (butlast s)"] assms space_runes_ends
    by (metis (no_types, lifting) append_butlast_last_id hd_rev imageE list.set_map rev.simps(2) rev_rev_ident rev_is_Nil_conv)
  ultimately show ?thesis by (simp add: TrimSpace_def)
qed

end
