(* ===== verification/Go_Regexp.thy ===== *)
theory Go_Regexp
  imports Go_Strings Decimal
begin

text \<open>
  The part of Go's \<open>regexp\<close> that the query renderer uses: leftmost matching with the priorities of
  Perl, captures, and replacement of all matches. A position in a text is the byte before it, if any,
  and the text after it. \<open>matches\<close> lists every way to match at a position, best first, so a search
  takes the first. No expression of the program repeats something that can be empty, and none
  matches the empty text; the two places where Go treats such matches specially are marked.
\<close>

datatype rx =
    REps
  | RChr "char \<Rightarrow> bool"
  | RSeq rx rx
  | RAlt rx rx
  | RStar rx
  | RLazy rx
  | RGroup nat rx
  | RBound
  | RBegin
  | REnd

type_synonym position = "char option \<times> string"
type_synonym captures = "(nat \<times> string) list"

subsection \<open>Matching\<close>

text \<open>\<open>\b\<close> is about ASCII word characters, whatever the flags.\<close>

definition is_word :: "char \<Rightarrow> bool" where
  "is_word c \<longleftrightarrow> is_digit c \<or> is_alpha c \<or> c = CHR ''_''"

definition word_boundary :: "position \<Rightarrow> bool" where
  "word_boundary = (\<lambda>(prev, s). (case prev of None \<Rightarrow> False | Some c \<Rightarrow> is_word c) \<noteq>
     (case s of [] \<Rightarrow> False | c # _ \<Rightarrow> is_word c))"

text \<open>The iterations of a repetition; one that consumes nothing is not repeated.\<close>

function repeat ::
    "bool \<Rightarrow> (position \<Rightarrow> captures \<Rightarrow> (position \<times> captures) list) \<Rightarrow> position \<Rightarrow> captures
      \<Rightarrow> (position \<times> captures) list" where
  "repeat greedy m p caps =
     (let more = concat (map (\<lambda>(q, caps'). if length (snd q) < length (snd p) then repeat greedy m q caps' else []) (m p caps))
      in if greedy then more @ [(p, caps)] else (p, caps) # more)"
  by pat_completeness auto

termination
  by (relation "measure (\<lambda>(greedy, m, p, caps). length (snd p))") auto

declare repeat.simps [simp del]

fun matches :: "rx \<Rightarrow> position \<Rightarrow> captures \<Rightarrow> (position \<times> captures) list" where
  "matches REps p caps = [(p, caps)]"
| "matches (RChr f) p caps =
     (case snd p of [] \<Rightarrow> [] | c # s \<Rightarrow> if f c then [((Some c, s), caps)] else [])"
| "matches (RSeq a b) p caps = concat (map (\<lambda>(q, caps'). matches b q caps') (matches a p caps))"
| "matches (RAlt a b) p caps = matches a p caps @ matches b p caps"
| "matches (RStar a) p caps = repeat True (matches a) p caps"
| "matches (RLazy a) p caps = repeat False (matches a) p caps"
| "matches (RGroup k a) p caps =
     map (\<lambda>(q, caps'). (q, (k, take (length (snd p) - length (snd q)) (snd p)) # caps')) (matches a p caps)"
| "matches RBound p caps = (if word_boundary p then [(p, caps)] else [])"
| "matches RBegin p caps = (if fst p = None then [(p, caps)] else [])"
| "matches REnd p caps = (if snd p = [] then [(p, caps)] else [])"

text \<open>The text of a group, empty if it took no part.\<close>

definition group :: "captures \<Rightarrow> nat \<Rightarrow> string" where
  "group caps k = (case map_of caps k of None \<Rightarrow> [] | Some t \<Rightarrow> t)"

subsection \<open>Searching and replacing\<close>

fun find_match :: "rx \<Rightarrow> char option \<Rightarrow> string \<Rightarrow> captures option" where
  "find_match r prev s =
     (case matches r (prev, s) [] of
        (q, caps) # _ \<Rightarrow> Some caps
      | [] \<Rightarrow> (case s of [] \<Rightarrow> None | c # s' \<Rightarrow> find_match r (Some c) s'))"

declare find_match.simps [simp del]

definition FindStringSubmatch :: "rx \<Rightarrow> string \<Rightarrow> captures option" where
  "FindStringSubmatch r s = find_match r None s"

text \<open>An empty match would be replaced too; here it is skipped.\<close>

function replace_matches :: "rx \<Rightarrow> (string \<Rightarrow> captures \<Rightarrow> string) \<Rightarrow> char option \<Rightarrow> string \<Rightarrow> string" where
  "replace_matches r f prev s =
     (case matches r (prev, s) [] of
        ((prev', s'), caps) # _ \<Rightarrow>
          if length s' < length s
          then f (take (length s - length s') s) caps @ replace_matches r f prev' s'
          else (case s of [] \<Rightarrow> [] | c # t \<Rightarrow> c # replace_matches r f (Some c) t)
      | [] \<Rightarrow> (case s of [] \<Rightarrow> [] | c # t \<Rightarrow> c # replace_matches r f (Some c) t))"
  by pat_completeness auto

termination
  by (relation "measure (\<lambda>(r, f, prev, s). length s)") auto

declare replace_matches.simps [simp del]

text \<open>\<open>ReplaceAllString\<close> with a template is given by what the template makes of the groups.\<close>

definition ReplaceAllString :: "rx \<Rightarrow> string \<Rightarrow> (captures \<Rightarrow> string) \<Rightarrow> string" where
  "ReplaceAllString r s f = replace_matches r (\<lambda>_. f) None s"

definition ReplaceAllStringFunc :: "rx \<Rightarrow> string \<Rightarrow> (string \<Rightarrow> string) \<Rightarrow> string" where
  "ReplaceAllStringFunc r s f = replace_matches r (\<lambda>m _. f m) None s"

subsection \<open>Writing expressions\<close>

fun RCat :: "rx list \<Rightarrow> rx" where
  "RCat [] = REps"
| "RCat [a] = a"
| "RCat (a # b # rs) = RSeq a (RCat (b # rs))"

definition RPlus :: "rx \<Rightarrow> rx" where "RPlus a = RSeq a (RStar a)"
definition RPlusLazy :: "rx \<Rightarrow> rx" where "RPlusLazy a = RSeq a (RLazy a)"
definition ROpt :: "rx \<Rightarrow> rx" where "ROpt a = RAlt a REps"
definition RLit :: "char \<Rightarrow> rx" where "RLit c = RChr (\<lambda>d. d = c)"
definition RDigit :: rx where "RDigit = RChr is_digit"

definition is_blank :: "char \<Rightarrow> bool" where
  "is_blank c \<longleftrightarrow> c \<in> set ([CHR 0x09, CHR 0x0A, CHR 0x0C, CHR 0x0D, CHR 0x20])"

lemma is_blank_Char [simp, code]:
  "is_blank (Char b0 b1 b2 b3 b4 b5 b6 b7) =
     (\<not> b7 \<and> \<not> b6 \<and> \<not> b4 \<and>
      (\<not> b5 \<and> b3 \<and> (b2 \<and> \<not> b1 \<or> \<not> b2 \<and> (b1 \<noteq> b0)) \<or> b5 \<and> \<not> b3 \<and> \<not> b2 \<and> \<not> b1 \<and> \<not> b0))"
  by (cases b0; cases b1; cases b2; cases b3; cases b4; cases b5; cases b6; cases b7) (simp_all add: is_blank_def char_of_def bit_simps)

definition RBlank :: rx where "RBlank = RChr is_blank"
definition RBlanks :: rx where "RBlanks = RStar RBlank"
definition RNot :: "string \<Rightarrow> rx" where "RNot cs = RChr (\<lambda>d. d \<notin> set cs)"

text \<open>Under \<open>(?i)\<close> the letters s and k also match the long s and the Kelvin sign.\<close>

definition long_s :: string where "long_s = [CHR 0xC5, CHR 0xBF]"
definition kelvin :: string where "kelvin = [CHR 0xE2, CHR 0x84, CHR 0xAA]"

definition RText :: "string \<Rightarrow> rx" where "RText s = RCat (map RLit s)"

definition RFold1 :: "char \<Rightarrow> rx" where
  "RFold1 c =
     (let a = RChr (\<lambda>d. ascii_lower d = ascii_lower c)
      in if ascii_lower c = CHR ''s'' then RAlt a (RText long_s)
         else if ascii_lower c = CHR ''k'' then RAlt a (RText kelvin) else a)"

definition RFold :: "string \<Rightarrow> rx" where "RFold s = RCat (map RFold1 s)"

definition RWordI :: rx where "RWordI = RAlt (RChr is_word) (RAlt (RText long_s) (RText kelvin))"
definition RWordsI :: rx where "RWordsI = RPlus RWordI"

lemmas rx_defs = RPlus_def RPlusLazy_def ROpt_def RLit_def RDigit_def RBlank_def RBlanks_def RNot_def
  RText_def RFold1_def RFold_def RWordI_def RWordsI_def

end
