(* ===== verification/Postgres_Render.thy ===== *)
theory Postgres_Render
  imports Go_Regexp
begin

text \<open>
  \<open>gobackendkit/dialect/postgres_render.go\<close>: turning T-SQL statements into PostgreSQL by a sequence of
  replacements. Each expression of the file is a definition with its name there; each replacement
  is a step of \<open>normalizePostgresQuery\<close> or \<open>convertTSQLDDLToPostgres\<close>, in their order.
\<close>

subsection \<open>Expressions\<close>

definition pgBoolColumn :: rx where
  "pgBoolColumn = RSeq (ROpt (RSeq RWordsI (RLit CHR ''.''))) (RSeq (RFold ''is_'') RWordsI)"

definition rePGPlaceholder :: rx where
  "rePGPlaceholder = RSeq (RLit CHR ''?'') (RGroup 1 (RPlus RDigit))"

definition rePGISNULL :: rx where
  "rePGISNULL = RCat [RBound, RFold ''ISNULL'', RBlanks, RLit CHR ''('']"

definition rePGGetDate :: rx where
  "rePGGetDate = RCat [RBound, RFold ''GETDATE'', RBlanks, RLit CHR ''('', RBlanks, RLit CHR '')'']"

definition rePGSysUTC :: rx where
  "rePGSysUTC = RCat [RBound, RFold ''SYSUTCDATETIME'', RBlanks, RLit CHR ''('', RBlanks, RLit CHR '')'']"

definition rePGUnicodeStr :: rx where
  "rePGUnicodeStr = RCat [RBound, RLit CHR ''N'', RLit (CHR 0x27)]"

definition rePGSelectTop :: rx where
  "rePGSelectTop = RCat [RBegin, RGroup 1 (RSeq RBlanks (RFold ''SELECT'')), RPlus RBlank, RFold ''TOP'', RPlus RBlank,
     RGroup 2 (RPlus RDigit), RPlus RBlank]"

definition rePGIdentityPK :: rx where
  "rePGIdentityPK = RCat [RFold ''INT'', RPlus RBlank, RFold ''IDENTITY'', RBlanks, RLit CHR ''('', RBlanks, RLit CHR ''1'',
     RBlanks, RLit CHR '','', RBlanks, RLit CHR ''1'', RBlanks, RLit CHR '')'', RPlus RBlank, RFold ''PRIMARY'', RPlus RBlank, RFold ''KEY'']"

definition rePGNVarcharMax :: rx where
  "rePGNVarcharMax = RCat [RFold ''NVARCHAR'', RBlanks, RLit CHR ''('', RBlanks, RFold ''MAX'', RBlanks, RLit CHR '')'']"

definition rePGNVarchar :: rx where
  "rePGNVarchar = RCat [RFold ''NVARCHAR'', RBlanks, RLit CHR ''('', RBlanks, RGroup 1 (RPlus RDigit), RBlanks, RLit CHR '')'']"

definition rePGDateTime2 :: rx where "rePGDateTime2 = RFold ''DATETIME2''"

definition rePGDateTime :: rx where "rePGDateTime = RCat [RBound, RFold ''DATETIME'', RBound]"

definition rePGBitDefault0 :: rx where
  "rePGBitDefault0 = RCat [RFold ''BIT'', RPlus RBlank, RFold ''NOT'', RPlus RBlank, RFold ''NULL'', RPlus RBlank, RFold ''DEFAULT'',
     RPlus RBlank, RLit CHR ''0'']"

definition rePGBitNotNull :: rx where
  "rePGBitNotNull = RCat [RFold ''BIT'', RPlus RBlank, RFold ''NOT'', RPlus RBlank, RFold ''NULL'']"

definition rePGAddBit :: rx where
  "rePGAddBit = RCat [RFold ''ADD'', RPlus RBlank, RGroup 1 RWordsI, RPlus RBlank, RFold ''BIT'', RPlus RBlank, RFold ''NOT'',
     RPlus RBlank, RFold ''NULL'', RPlus RBlank, RFold ''CONSTRAINT'', RPlus RBlank, RWordsI, RPlus RBlank, RFold ''DEFAULT'',
     RPlus RBlank, RLit CHR ''0'']"

definition rePGAddNVarchar :: rx where
  "rePGAddNVarchar = RCat [RFold ''ADD'', RPlus RBlank, RGroup 1 RWordsI, RPlus RBlank, RFold ''NVARCHAR'', RBlanks, RLit CHR ''('',
     RBlanks, RGroup 2 (RPlus RDigit), RBlanks, RLit CHR '')'']"

definition rePGAddNVarcharMax :: rx where
  "rePGAddNVarcharMax = RCat [RFold ''ADD'', RPlus RBlank, RGroup 1 RWordsI, RPlus RBlank, RFold ''NVARCHAR'', RBlanks, RLit CHR ''('',
     RBlanks, RFold ''MAX'', RBlanks, RLit CHR '')'']"

definition rePGConstraintDefault :: rx where
  "rePGConstraintDefault = RCat [RPlus RBlank, RFold ''CONSTRAINT'', RPlus RBlank, RWordsI, RPlus RBlank, RFold ''DEFAULT'',
     RPlus RBlank, RPlus (RNot '',)'')]"

definition rePGBoolColEq0 :: rx where
  "rePGBoolColEq0 = RCat [RBound, RGroup 1 pgBoolColumn, RBlanks, RLit CHR ''='', RBlanks, RLit CHR ''0'', RBound]"

definition rePGBoolColEq1 :: rx where
  "rePGBoolColEq1 = RCat [RBound, RGroup 1 pgBoolColumn, RBlanks, RLit CHR ''='', RBlanks, RLit CHR ''1'', RBound]"

definition rePGCoalesceBool0 :: rx where
  "rePGCoalesceBool0 = RCat [RFold ''COALESCE'', RBlanks, RLit CHR ''('', RBlanks, RGroup 1 pgBoolColumn, RBlanks, RLit CHR '','',
     RBlanks, RLit CHR ''0'', RBlanks, RLit CHR '')'']"

definition rePGCoalesceEq0 :: rx where
  "rePGCoalesceEq0 = RCat [RGroup 1 (RCat [RFold ''COALESCE'', RBlanks, RLit CHR ''('', RBlanks,
       ROpt (RSeq RWordsI (RLit CHR ''.'')), RFold ''is_'', RWordsI, RStar (RNot '')''), RLit CHR '')'']),
     RBlanks, RLit CHR ''='', RBlanks, RLit CHR ''0'', RBound]"

definition rePGInsertTplTrue :: rx where
  "rePGInsertTplTrue = RCat [RGroup 1 (RCat ([RFold ''VALUES'', RBlanks, RLit CHR ''('', RBlanks] @
       concat (replicate 2 [RLit CHR ''$'', RPlus RDigit, RBlanks, RLit CHR '','', RBlanks]) @
       [RLit CHR ''$'', RPlus RDigit, RBlanks, RLit CHR '',''])),
     RBlanks, RLit CHR ''1'', RBlanks, RLit CHR '','']"

definition rePGInsertTailZero :: rx where
  "rePGInsertTailZero = RCat [RLit CHR '','', RBlanks, RLit CHR ''0'', RBlanks, RLit CHR '')'', RBlanks, REnd]"

definition offset_arg :: rx where
  "offset_arg = RAlt (RSeq (RLit CHR ''?'') (RPlus RDigit)) (RAlt (RSeq (RLit CHR ''$'') (RPlus RDigit)) (RPlus RDigit))"

definition rePGOffsetFetch :: rx where
  "rePGOffsetFetch = RCat [RPlus RBlank, RFold ''OFFSET'', RPlus RBlank, RGroup 1 offset_arg, RPlus RBlank, RFold ''ROWS'',
     RPlus RBlank, RFold ''FETCH'', RPlus RBlank, RFold ''NEXT'', RPlus RBlank, RGroup 2 offset_arg, RPlus RBlank, RFold ''ROWS'',
     RPlus RBlank, RFold ''ONLY'']"

definition rePGCastNVarchar :: rx where
  "rePGCastNVarchar = RCat [RFold ''CAST'', RBlanks, RLit CHR ''('', RBlanks, RGroup 1 (RPlusLazy (RNot '')'')), RPlus RBlank,
     RFold ''AS'', RPlus RBlank, RFold ''NVARCHAR'', RBlanks, RLit CHR ''('', RBlanks, RGroup 2 (RPlus RDigit), RBlanks,
     RLit CHR '')'', RLit CHR '')'']"

definition rePGCoalesceContent :: rx where
  "rePGCoalesceContent = RCat [RFold ''COALESCE'', RBlanks, RLit CHR ''('', RBlanks, RFold ''content'', RBlanks, RLit CHR '','',
     RBlanks, RLit (CHR 0x27), RLit (CHR 0x27), RBlanks, RLit CHR '')'']"

definition rePGCoalesceInnerCol :: rx where
  "rePGCoalesceInnerCol = RSeq (ROpt (RSeq RWordsI (RLit CHR ''.''))) (RGroup 1 (RSeq (RFold ''is_'') RWordsI))"

subsection \<open>Columns that are booleans\<close>

definition isPGSQLBoolColumn :: "string \<Rightarrow> bool" where
  "isPGSQLBoolColumn column =
     (let col = after_last_dot (ToLower (TrimSpace column))
      in if \<not> HasPrefix col ''is_'' then False
         else if col = ''is_completed'' \<or> col = ''is_selected'' then False else True)"

definition replace_bool :: "rx \<Rightarrow> (string \<Rightarrow> string) \<Rightarrow> string \<Rightarrow> string" where
  "replace_bool r out q = ReplaceAllStringFunc r q (\<lambda>m.
     case FindStringSubmatch r m of
       None \<Rightarrow> m
     | Some g \<Rightarrow> if \<not> isPGSQLBoolColumn (group g 1) then m else out (group g 1))"

definition replacePGBoolComparisons :: "string \<Rightarrow> string" where
  "replacePGBoolComparisons q0 =
     (let q1 = replace_bool rePGBoolColEq0 (\<lambda>c. c @ '' = false'') q0;
          q2 = replace_bool rePGBoolColEq1 (\<lambda>c. c @ '' = true'') q1;
          q3 = replace_bool rePGCoalesceBool0 (\<lambda>c. ''COALESCE('' @ c @ '', false)'') q2
      in ReplaceAllStringFunc rePGCoalesceEq0 q3 (\<lambda>m.
           case FindStringSubmatch rePGCoalesceEq0 m of
             None \<Rightarrow> m
           | Some g \<Rightarrow>
               (let inner = group g 1
                in case FindStringSubmatch rePGCoalesceInnerCol inner of
                     None \<Rightarrow> m
                   | Some h \<Rightarrow> if \<not> isPGSQLBoolColumn (group h 1) then m else inner @ '' = false'')))"

subsection \<open>Queries\<close>

text \<open>\<open>TOP n\<close> at the front becomes \<open>LIMIT n\<close> at the end, unless there is a limit already.\<close>

definition convert_top :: "string \<Rightarrow> string" where
  "convert_top q =
     (case FindStringSubmatch rePGSelectTop q of
        None \<Rightarrow> q
      | Some m \<Rightarrow>
          (let q1 = ReplaceAllString rePGSelectTop q (\<lambda>_. group m 1 @ '' '')
           in if \<not> Contains (ToUpper q1) '' LIMIT ''
              then TrimRight q1 (set (''; '' @ [CHR 0x09, CHR 0x0D, CHR 0x0A])) @ '' LIMIT '' @ group m 2
              else q1))"

text \<open>Each bare question mark is numbered in turn; the expression for it is that one character.\<close>

fun number_bare :: "nat \<Rightarrow> string \<Rightarrow> string" where
  "number_bare i [] = []"
| "number_bare i (c # s) = (if c = CHR ''?'' then (CHR ''$'' # decimal i) @ number_bare (Suc i) s else c # number_bare i s)"

definition bare_placeholders :: "string \<Rightarrow> string" where
  "bare_placeholders q = (if Contains q ''?'' \<and> \<not> Contains q ''$'' then number_bare 1 q else q)"

definition convert_paging :: "string \<Rightarrow> string" where
  "convert_paging q = ReplaceAllStringFunc rePGOffsetFetch q (\<lambda>m.
     case FindStringSubmatch rePGOffsetFetch m of
       None \<Rightarrow> m
     | Some g \<Rightarrow> '' LIMIT '' @ group g 2 @ '' OFFSET '' @ group g 1)"

definition numbered_placeholders :: "string \<Rightarrow> string" where
  "numbered_placeholders q = ReplaceAllString rePGPlaceholder q (\<lambda>g. CHR ''$'' # group g 1)"

definition insert_tail :: "string \<Rightarrow> string" where
  "insert_tail q =
     (if Contains (ToUpper q) ''IS_DELETE'' \<or> Contains (ToUpper q) ''IS_ACTIVE''
      then ReplaceAllString rePGInsertTailZero q (\<lambda>_. '', false)'') else q)"

definition normalizePostgresQuery :: "string \<Rightarrow> string" where
  "normalizePostgresQuery query =
     (let q = TrimSpace query
      in if q = [] then q
         else
           (let q = convert_top q;
                q = numbered_placeholders q;
                q = ReplaceAllString rePGISNULL q (\<lambda>_. ''COALESCE('');
                q = ReplaceAllString rePGCoalesceContent q (\<lambda>_. ''COALESCE(content::text, '' @ [CHR 0x27, CHR 0x27] @ '')'');
                q = ReplaceAllString rePGGetDate q (\<lambda>_. ''CURRENT_TIMESTAMP'');
                q = ReplaceAllString rePGSysUTC q (\<lambda>_. ''CURRENT_TIMESTAMP'');
                q = ReplaceAllString rePGUnicodeStr q (\<lambda>_. [CHR 0x27]);
                q = replacePGBoolComparisons q;
                q = ReplaceAllString rePGInsertTplTrue q (\<lambda>g. group g 1 @ '' true,'');
                q = insert_tail q;
                q = bare_placeholders q;
                q = convert_paging q
            in ReplaceAllString rePGCastNVarchar q (\<lambda>g. ''CAST('' @ group g 1 @ '' AS VARCHAR('' @ group g 2 @ ''))'')))"

subsection \<open>Table definitions\<close>

definition convertTSQLDDLToPostgres :: "string \<Rightarrow> string" where
  "convertTSQLDDLToPostgres ddl =
     (let q = ReplaceAllString rePGIdentityPK ddl (\<lambda>_. ''SERIAL PRIMARY KEY'');
          q = ReplaceAllString rePGNVarcharMax q (\<lambda>_. ''TEXT'');
          q = ReplaceAllString rePGNVarchar q (\<lambda>g. ''VARCHAR('' @ group g 1 @ '')'');
          q = ReplaceAllString rePGDateTime2 q (\<lambda>_. ''TIMESTAMP'');
          q = ReplaceAllString rePGDateTime q (\<lambda>_. ''TIMESTAMP'');
          q = ReplaceAllString rePGBitDefault0 q (\<lambda>_. ''BOOLEAN NOT NULL DEFAULT FALSE'');
          q = ReplaceAllString rePGBitNotNull q (\<lambda>_. ''BOOLEAN NOT NULL DEFAULT FALSE'');
          q = ReplaceAllString rePGGetDate q (\<lambda>_. ''CURRENT_TIMESTAMP'');
          q = ReplaceAllString rePGSysUTC q (\<lambda>_. ''CURRENT_TIMESTAMP'');
          q = ReplaceAllString rePGUnicodeStr q (\<lambda>_. [CHR 0x27]);
          q = ReplaceAllString rePGAddBit q (\<lambda>g. ''ADD COLUMN '' @ group g 1 @ '' BOOLEAN NOT NULL DEFAULT FALSE'');
          q = ReplaceAllString rePGAddNVarcharMax q (\<lambda>g. ''ADD COLUMN '' @ group g 1 @ '' TEXT'');
          q = ReplaceAllString rePGAddNVarchar q (\<lambda>g. ''ADD COLUMN '' @ group g 1 @ '' VARCHAR('' @ group g 2 @ '')'');
          q = ReplaceAllString rePGConstraintDefault q (\<lambda>_. []);
          q = ReplaceAll q ''ADD COLUMN COLUMN'' ''ADD COLUMN''
      in replacePGBoolComparisons q)"

lemmas pg_rx_defs = pgBoolColumn_def rePGPlaceholder_def rePGISNULL_def rePGGetDate_def rePGSysUTC_def rePGUnicodeStr_def
  rePGSelectTop_def rePGIdentityPK_def rePGNVarcharMax_def rePGNVarchar_def rePGDateTime2_def rePGDateTime_def
  rePGBitDefault0_def rePGBitNotNull_def rePGAddBit_def rePGAddNVarchar_def rePGAddNVarcharMax_def rePGConstraintDefault_def
  rePGBoolColEq0_def rePGBoolColEq1_def rePGCoalesceBool0_def rePGCoalesceEq0_def rePGInsertTplTrue_def rePGInsertTailZero_def
  offset_arg_def rePGOffsetFetch_def rePGCastNVarchar_def rePGCoalesceContent_def rePGCoalesceInnerCol_def

end
