(* ===== verification/Regexp_Facts.thy ===== *)
theory Regexp_Facts
  imports Postgres_Render
begin

text \<open>
  Facts about the matcher that the renderer's properties rest on: a match ends further on in the
  text, an expression that must consume a certain character does not match where there is none, and
  the expressions for numbered placeholders match a marker and all the digits after it.
\<close>

subsection \<open>Where a match ends\<close>

lemma repeat_suffix:
  assumes "\<And>p caps q caps'. (q, caps') \<in> set (m p caps) \<Longrightarrow> suffix (snd q) (snd p)"
  shows "(q, caps') \<in> set (repeat greedy m p caps) \<Longrightarrow> suffix (snd q) (snd p)"
  using assms
proof (induction greedy m p caps rule: repeat.induct)
  case (1 greedy m p caps)
  from 1(2) consider "q = p" | x y where "(x, y) \<in> set (m p caps)" "length (snd x) < length (snd p)"
      "(q, caps') \<in> set (repeat greedy m x y)"
    by (subst (asm) repeat.simps) (auto simp: Let_def split: if_splits)
  then show ?case
  proof cases
    case 2
    from 1(1) [OF 2(1) refl 2(2,3)] 1(3) have "suffix (snd q) (snd x)" by blast
    then show ?thesis using 1(3) [OF 2(1)] by (rule suffix_order.trans)
  qed simp
qed

lemma matches_suffix: "(q, caps') \<in> set (matches r p caps) \<Longrightarrow> suffix (snd q) (snd p)"
proof (induction r arbitrary: p caps q caps')
  case (RChr f)
  then show ?case by (cases "snd p") (auto split: if_splits intro: suffix_ConsI)
next
  case (RSeq a b)
  from RSeq.prems obtain x y where x: "(x, y) \<in> set (matches a p caps)" "(q, caps') \<in> set (matches b x y)" by auto
  from RSeq.IH(2) [OF x(2)] RSeq.IH(1) [OF x(1)] show ?case by (rule suffix_order.trans)
next
  case (RStar a)
  then show ?case using repeat_suffix [of "matches a"] by auto
next
  case (RLazy a)
  then show ?case using repeat_suffix [of "matches a"] by auto
qed (auto split: if_splits)

subsection \<open>Expressions that need a character\<close>

fun requires :: "(char \<Rightarrow> bool) \<Rightarrow> rx \<Rightarrow> bool" where
  "requires P (RChr f) = (\<forall>c. f c \<longrightarrow> P c)"
| "requires P (RSeq a b) = (requires P a \<or> requires P b)"
| "requires P (RAlt a b) = (requires P a \<and> requires P b)"
| "requires P (RGroup k a) = requires P a"
| "requires P _ = False"

lemma requires_no_match:
  "requires P r \<Longrightarrow> \<forall>c \<in> set (snd p). \<not> P c \<Longrightarrow> matches r p caps = []"
proof (induction r arbitrary: p caps)
  case (RChr f)
  then show ?case by (auto split: list.splits)
next
  case (RSeq a b)
  have "matches b q caps' = []" if "requires P b" "(q, caps') \<in> set (matches a p caps)" for q caps'
    using RSeq.prems(2) set_mono_suffix [OF matches_suffix [OF that(2)]] by (intro RSeq.IH(2) [OF that(1)]) blast
  then show ?case
    using RSeq.IH(1) [of p caps] RSeq.prems by (cases "requires P a") auto
qed auto

lemma replace_no_match:
  "(\<And>prev t. suffix t s \<Longrightarrow> matches r (prev, t) [] = []) \<Longrightarrow> replace_matches r f prev s = s"
proof (induction s arbitrary: prev)
  case Nil
  then show ?case by (subst replace_matches.simps) simp
next
  case (Cons c s)
  then show ?case by (subst replace_matches.simps) (simp add: suffix_ConsI)
qed

lemma replace_requires:
  assumes "requires P r" and "\<forall>c \<in> set s. \<not> P c"
  shows "replace_matches r f prev s = s"
  using assms by (intro replace_no_match requires_no_match [of P]) (auto dest: set_mono_suffix)

lemma find_no_match:
  "(\<And>prev t. suffix t s \<Longrightarrow> matches r (prev, t) [] = []) \<Longrightarrow> find_match r prev s = None"
proof (induction s arbitrary: prev)
  case Nil
  then show ?case by (subst find_match.simps) simp
next
  case (Cons c s)
  then show ?case by (subst find_match.simps) (simp add: suffix_ConsI)
qed

lemma find_requires:
  assumes "requires P r" and "\<forall>c \<in> set s. \<not> P c"
  shows "find_match r prev s = None"
  using assms by (intro find_no_match requires_no_match [of P]) (auto dest: set_mono_suffix)

lemma requires_literal [simp]: "requires P (RLit c) = P c"
  by (simp add: RLit_def)

lemma requires_cat: "requires P (RCat rs) \<longleftrightarrow> (\<exists>r \<in> set rs. requires P r)"
  by (induction rs rule: RCat.induct) auto

subsection \<open>Numbered placeholders\<close>

definition numbered :: "char \<Rightarrow> rx" where
  "numbered m = RSeq (RLit m) (RGroup 1 (RPlus RDigit))"

lemma repeat_digits:
  assumes "list_all is_digit ds" and "t = [] \<or> \<not> is_digit (hd t)"
  shows "\<exists>rest. repeat True (matches RDigit) (prev, ds @ t) caps =
    ((if ds = [] then prev else Some (last ds), t), caps) # rest"
  using assms(1)
proof (induction ds arbitrary: prev)
  case Nil
  then show ?case using assms(2) by (cases t) (subst repeat.simps, simp add: RDigit_def Let_def)+
next
  case (Cons d ds)
  then obtain rest where "repeat True (matches RDigit) (Some d, ds @ t) caps =
      ((if ds = [] then Some d else Some (last ds), t), caps) # rest" by fastforce
  with Cons.prems show ?case by (subst repeat.simps) (auto simp: RDigit_def Let_def)
qed

lemma matches_numbered:
  assumes "ds \<noteq> []" and "list_all is_digit ds" and "t = [] \<or> \<not> is_digit (hd t)"
  shows "\<exists>rest. matches (numbered m) (prev, m # ds @ t) [] = ((Some (last ds), t), [(1, ds)]) # rest"
proof -
  from assms(1) obtain d ds' where ds: "ds = d # ds'" by (cases ds) auto
  with assms repeat_digits [of ds' t "Some d" "[]"] show ?thesis
    by (auto simp: numbered_def RLit_def RPlus_def RDigit_def split: if_splits)
qed

lemma matches_numbered_other: "c \<noteq> m \<Longrightarrow> matches (numbered m) (prev, c # s) [] = []"
  by (simp add: numbered_def RLit_def)

text \<open>A text with placeholders, each a marker and a number.\<close>

datatype piece = Plain string | Param string

fun write_piece :: "(string \<Rightarrow> string) \<Rightarrow> piece \<Rightarrow> string" where
  "write_piece f (Plain t) = t"
| "write_piece f (Param ds) = f ds"

definition write_pieces :: "(string \<Rightarrow> string) \<Rightarrow> piece list \<Rightarrow> string" where
  "write_pieces f ps = concat (map (write_piece f) ps)"

text \<open>The texts are free of markers, and a number ends where the next text begins.\<close>

fun pieces_ok :: "char \<Rightarrow> piece list \<Rightarrow> bool" where
  "pieces_ok m [] = True"
| "pieces_ok m (Plain t # ps) = (m \<notin> set t \<and> pieces_ok m ps)"
| "pieces_ok m (Param ds # ps) = (ds \<noteq> [] \<and> list_all is_digit ds \<and>
     (let t = write_pieces ((#) m) ps in t = [] \<or> \<not> is_digit (hd t)) \<and> pieces_ok m ps)"

lemma replace_plain:
  "m \<notin> set t \<Longrightarrow> \<exists>prev'. replace_matches (numbered m) f prev (t @ u) = t @ replace_matches (numbered m) f prev' u"
proof (induction t arbitrary: prev)
  case (Cons c t)
  then show ?case by (subst replace_matches.simps) (auto simp: matches_numbered_other)
qed auto

lemma replace_pieces:
  "pieces_ok m ps \<Longrightarrow>
    replace_matches (numbered m) f prev (write_pieces ((#) m) ps) = write_pieces (\<lambda>ds. f (m # ds) [(1, ds)]) ps"
proof (induction m ps arbitrary: prev rule: pieces_ok.induct)
  case (1 m)
  show ?case by (subst replace_matches.simps) (simp add: write_pieces_def numbered_def RLit_def)
next
  case (2 m t ps)
  from replace_plain [of m t f prev "write_pieces ((#) m) ps"] 2 show ?case
    by (auto simp: write_pieces_def)
next
  case (3 m ds ps)
  let ?t = "write_pieces ((#) m) ps"
  from 3 matches_numbered [of ds ?t m prev] obtain rest where
    "matches (numbered m) (prev, m # ds @ ?t) [] = ((Some (last ds), ?t), [(1, ds)]) # rest"
    by (auto simp: Let_def)
  then have "replace_matches (numbered m) f prev (m # ds @ ?t) = f (m # ds) [(1, ds)] @ replace_matches (numbered m) f (Some (last ds)) ?t"
    by (subst replace_matches.simps) simp
  with 3 show ?case by (simp add: write_pieces_def)
qed

lemma write_pieces_cong: "(\<And>ds. Param ds \<in> set ps \<Longrightarrow> f ds = g ds) \<Longrightarrow> write_pieces f ps = write_pieces g ps"
  by (induction ps) (auto simp: write_pieces_def elim: write_piece.elims, (case_tac a; simp)+)

subsection \<open>The first match\<close>

text \<open>The best way to match at a position, built along the expression.\<close>

definition first :: "rx \<Rightarrow> position \<Rightarrow> captures \<Rightarrow> position \<Rightarrow> captures \<Rightarrow> bool" where
  "first r p caps q caps' \<longleftrightarrow> (\<exists>rest. matches r p caps = (q, caps') # rest)"

lemma first_seq [intro]: "first a p caps q caps' \<Longrightarrow> first b q caps' t caps'' \<Longrightarrow> first (RSeq a b) p caps t caps''"
  by (auto simp: first_def)

lemma first_alt: "first a p caps q caps' \<Longrightarrow> first (RAlt a b) p caps q caps'"
  "matches a p caps = [] \<Longrightarrow> first b p caps q caps' \<Longrightarrow> first (RAlt a b) p caps q caps'"
  by (auto simp: first_def)

lemma first_opt: "first a p caps q caps' \<Longrightarrow> first (ROpt a) p caps q caps'"
  "matches a p caps = [] \<Longrightarrow> first (ROpt a) p caps p caps"
  by (auto simp: first_def ROpt_def)

lemma first_group: "first a (prev, t @ u) caps (prev', u) caps' \<Longrightarrow> first (RGroup k a) (prev, t @ u) caps (prev', u) ((k, t) # caps')"
  by (auto simp: first_def)

lemma first_literal: "first (RLit c) (prev, c # s) caps (Some c, s) caps"
  by (simp add: first_def RLit_def)

lemma first_bound: "word_boundary p \<Longrightarrow> first RBound p caps p caps"
  by (simp add: first_def)

lemma first_star:
  assumes "\<And>prev c s. P c \<Longrightarrow> matches a (prev, c # s) caps = [((Some c, s), caps)]"
    and "list_all P xs" and "\<And>prev. matches a (prev, t) caps = []"
  shows "first (RStar a) (prev, xs @ t) caps (if xs = [] then prev else Some (last xs), t) caps"
  using assms(2)
proof (induction xs arbitrary: prev)
  case Nil
  then show ?case by (simp add: first_def) (subst repeat.simps, simp add: assms(3) Let_def)
next
  case (Cons c xs)
  then have "first (RStar a) (Some c, xs @ t) caps (if xs = [] then Some c else Some (last xs), t) caps" by simp
  with Cons.prems show ?case 
    by (auto simp: first_def repeat.simps [of True "matches a" "(prev, c # xs @ t)"] assms(1) Let_def split: if_splits)
qed

lemma first_plus:
  assumes "\<And>prev c s. P c \<Longrightarrow> matches a (prev, c # s) caps = [((Some c, s), caps)]"
    and "xs \<noteq> []" and "list_all P xs" and "\<And>prev. matches a (prev, t) caps = []"
  shows "first (RPlus a) (prev, xs @ t) caps (Some (last xs), t) caps"
proof -
  from assms(2) obtain c ys where xs: "xs = c # ys" by (cases xs) auto
  have "first a (prev, c # ys @ t) caps (Some c, ys @ t) caps" using assms(1,3) xs by (simp add: first_def)
  moreover have "first (RStar a) (Some c, ys @ t) caps (if ys = [] then Some c else Some (last ys), t) caps"
    using assms xs by (intro first_star [of P]) simp_all
  ultimately show ?thesis using xs by (cases "ys = []") (auto simp: RPlus_def)
qed

lemma is_word_cases: "is_word c \<Longrightarrow> c \<noteq> CHR 0xC5 \<and> c \<noteq> CHR 0xE2"
  by (auto simp: is_word_def)

lemma RWordI_step: "is_word c \<Longrightarrow> matches RWordI (prev, c # s) caps = [((Some c, s), caps)]"
  using is_word_cases [of c] by (simp add: RWordI_def RText_def RLit_def long_s_def kelvin_def)

definition word_stop :: "string \<Rightarrow> bool" where
  "word_stop t \<longleftrightarrow> t = [] \<or> \<not> is_word (hd t) \<and> hd t \<noteq> CHR 0xC5 \<and> hd t \<noteq> CHR 0xE2"

lemma RWordI_stop: "word_stop t \<Longrightarrow> matches RWordI (prev, t) caps = []"
  by (cases t) (auto simp: word_stop_def RWordI_def RText_def RLit_def long_s_def kelvin_def)

lemma first_words:
  "xs \<noteq> [] \<Longrightarrow> list_all is_word xs \<Longrightarrow> word_stop t \<Longrightarrow> first RWordsI (prev, xs @ t) caps (Some (last xs), t) caps"
  unfolding RWordsI_def by (rule first_plus [of is_word]) (simp_all add: RWordI_step RWordI_stop)

lemma first_blanks:
  assumes "list_all is_blank xs" and "t = [] \<or> \<not> is_blank (hd t)"
  shows "first RBlanks (prev, xs @ t) caps (if xs = [] then prev else Some (last xs), t) caps"
  unfolding RBlanks_def using assms
  by (intro first_star [of is_blank]) (auto simp: RBlank_def split: list.splits)

text \<open>A text that is one match is replaced as a whole.\<close>

lemma replace_whole:
  assumes "first r (None, s) [] (prev, []) caps" and "s \<noteq> []" and "matches r (prev, []) [] = []"
  shows "replace_matches r f None s = f s caps"
proof -
  have "replace_matches r f prev [] = []" using assms(3) by (subst replace_matches.simps) simp
  with assms(1,2) show ?thesis by (subst replace_matches.simps) (auto simp: first_def)
qed

lemma find_first: "first r (None, s) [] q caps \<Longrightarrow> FindStringSubmatch r s = Some caps"
  by (subst FindStringSubmatch_def, subst find_match.simps) (auto simp: first_def)

end
