(* ===== verification/Dialect.thy ===== *)
theory Dialect
  imports Regexp_Facts
begin

text \<open>
  \<open>gobackendkit/dialect\<close>: the SQL dialects. The Go interface is a record of its methods, and the two
  implementations are values of it. The locale is the contract that code which builds statements
  relies on; both implementations meet it. Methods that number placeholders use the package's own
  \<open>itoa\<close>, which writes into twelve bytes and panics on longer numbers.
\<close>

subsection \<open>Numbers\<close>

function itoa_loop :: "nat \<Rightarrow> int \<Rightarrow> string \<Rightarrow> (nat \<times> string) go" where
  "itoa_loop i n b =
     (if 0 < n then (if i = 0 then Inl IndexRange else itoa_loop (i - 1) (n div 10) (digit_char (n mod 10) # b))
      else Inr (i, b))"
  by pat_completeness auto

termination
  by (relation "measure (\<lambda>(i, n, b). nat n)") auto

declare itoa_loop.simps [simp del]

definition itoa :: "i64 \<Rightarrow> string go" where
  "itoa n =
     (if n = 0 then Inr ''0''
      else
        (let neg = sint n < 0; n = (if neg then - n else n)
         in go_bind (itoa_loop 12 (sint n) []) (\<lambda>(i, b).
              if neg then (if i = 0 then Inl IndexRange else Inr (CHR ''-'' # b)) else Inr b)))"

subsection \<open>The interface\<close>

record schema =
  TableExists :: string
  ColumnExists :: string

record dialect =
  Kind :: string
  Render :: "string \<Rightarrow> string"
  ConvertDDL :: "string \<Rightarrow> string"
  Now :: string
  IsNull :: "string \<Rightarrow> string \<Rightarrow> string"
  BoolBitEq :: "string \<Rightarrow> bool \<Rightarrow> string"
  BoolBitLiteral :: "bool \<Rightarrow> string"
  NotDeleted :: "string \<Rightarrow> string"
  IntFlagEq :: "string \<Rightarrow> i64 \<Rightarrow> string go"
  PageClause :: "i64 \<Rightarrow> i64 \<Rightarrow> string go"
  Placeholder :: "i64 \<Rightarrow> string go"
  Meta :: schema

definition PostgreSQL :: string where "PostgreSQL = ''postgresql''"
definition SQLServer :: string where "SQLServer = ''sqlserver''"

definition int_flag_eq :: "string \<Rightarrow> i64 \<Rightarrow> string go" where
  "int_flag_eq column v = go_bind (itoa v) (\<lambda>s. Inr (column @ '' = '' @ s))"

definition page_clause :: "i64 \<Rightarrow> i64 \<Rightarrow> string go" where
  "page_clause offsetArg limitArg =
     go_bind (itoa offsetArg) (\<lambda>a. go_bind (itoa limitArg) (\<lambda>b.
       Inr (''OFFSET ?'' @ a @ '' ROWS FETCH NEXT ?'' @ b @ '' ROWS ONLY'')))"

definition placeholder :: "i64 \<Rightarrow> string go" where
  "placeholder n = go_bind (itoa n) (\<lambda>s. Inr (CHR ''?'' # s))"

definition is_delete_column :: "string \<Rightarrow> string" where
  "is_delete_column alias = (if alias \<noteq> [] then alias @ ''.is_delete'' else ''is_delete'')"

abbreviation newline :: string where "newline \<equiv> [CHR 0x0A]"
abbreviation quote :: string where "quote \<equiv> [CHR 0x27]"

definition postgres_schema :: schema where
  "postgres_schema =
     \<lparr>TableExists = newline @ ''SELECT COUNT(*) FROM information_schema.tables'' @ newline @
        ''WHERE table_schema = '' @ quote @ ''public'' @ quote @ '' AND table_name = $1'',
      ColumnExists = newline @ ''SELECT COUNT(*) FROM information_schema.columns'' @ newline @
        ''WHERE table_schema = '' @ quote @ ''public'' @ quote @ '' AND table_name = $1 AND column_name = $2''\<rparr>"

definition sqlServer_schema :: schema where
  "sqlServer_schema =
     \<lparr>TableExists = ''SELECT COUNT(*) FROM INFORMATION_SCHEMA.TABLES WHERE TABLE_NAME = ?1'',
      ColumnExists = ''SELECT COUNT(*) FROM INFORMATION_SCHEMA.COLUMNS WHERE TABLE_NAME = ?1 AND COLUMN_NAME = ?2''\<rparr>"

definition postgresDialect :: dialect where
  "postgresDialect =
     \<lparr>Kind = PostgreSQL,
      Render = normalizePostgresQuery,
      ConvertDDL = convertTSQLDDLToPostgres,
      Now = ''CURRENT_TIMESTAMP'',
      IsNull = (\<lambda>expr fallback. ''COALESCE('' @ expr @ '', '' @ fallback @ '')''),
      BoolBitEq = (\<lambda>column v. if v then column @ '' = true'' else column @ '' = false''),
      BoolBitLiteral = (\<lambda>v. if v then ''true'' else ''false''),
      NotDeleted = (\<lambda>alias. is_delete_column alias @ '' = false''),
      IntFlagEq = int_flag_eq,
      PageClause = page_clause,
      Placeholder = placeholder,
      Meta = postgres_schema\<rparr>"

definition sqlServerDialect :: dialect where
  "sqlServerDialect =
     \<lparr>Kind = SQLServer,
      Render = (\<lambda>query. query),
      ConvertDDL = (\<lambda>ddl. ddl),
      Now = ''GETDATE()'',
      IsNull = (\<lambda>expr fallback. ''ISNULL('' @ expr @ '', '' @ fallback @ '')''),
      BoolBitEq = (\<lambda>column v. if v then column @ '' = 1'' else column @ '' = 0''),
      BoolBitLiteral = (\<lambda>v. if v then ''1'' else ''0''),
      NotDeleted = (\<lambda>alias. is_delete_column alias @ '' = 0''),
      IntFlagEq = int_flag_eq,
      PageClause = page_clause,
      Placeholder = placeholder,
      Meta = sqlServer_schema\<rparr>"

text \<open>An unknown kind is PostgreSQL. The package's current kind is the argument of \<open>Current\<close> and of what
  uses it.\<close>

definition For :: "string \<Rightarrow> dialect" where
  "For kind = (if kind = SQLServer then sqlServerDialect else postgresDialect)"

definition initial_kind :: string where "initial_kind = PostgreSQL"

definition Current :: "string \<Rightarrow> dialect" where "Current currentKind = For currentKind"
definition dialect_IsPostgreSQL :: "string \<Rightarrow> bool" where
  "dialect_IsPostgreSQL currentKind \<longleftrightarrow> Kind (Current currentKind) = PostgreSQL"
definition dialect_IsSQLServer :: "string \<Rightarrow> bool" where
  "dialect_IsSQLServer currentKind \<longleftrightarrow> Kind (Current currentKind) = SQLServer"
definition SQL :: "string \<Rightarrow> string \<Rightarrow> string" where "SQL currentKind query = Render (Current currentKind) query"
definition CurrentMeta :: "string \<Rightarrow> schema" where "CurrentMeta currentKind = Meta (Current currentKind)"

subsection \<open>The contract\<close>

locale sql_dialect =
  fixes d :: dialect
  assumes bool_eq: "BoolBitEq d column v = column @ '' = '' @ BoolBitLiteral d v"
    and not_deleted: "NotDeleted d alias = BoolBitEq d (is_delete_column alias) False"
    and literals: "BoolBitLiteral d True \<noteq> BoolBitLiteral d False"
    and found: "For (Kind d) = d"
begin

lemma bool_eq_inject: "BoolBitEq d column v = BoolBitEq d column w \<longleftrightarrow> v = w"
  using literals by (cases v; cases w) (auto simp: bool_eq)

lemma not_deleted_alias: "alias \<noteq> [] \<Longrightarrow> NotDeleted d alias = alias @ ''.is_delete = '' @ BoolBitLiteral d False"
  by (simp add: not_deleted bool_eq is_delete_column_def)

end

interpretation postgres: sql_dialect postgresDialect
  by unfold_locales (simp_all add: postgresDialect_def For_def PostgreSQL_def SQLServer_def)

interpretation sqlServer: sql_dialect sqlServerDialect
  by unfold_locales (simp_all add: sqlServerDialect_def For_def PostgreSQL_def SQLServer_def)

interpretation current: sql_dialect "For kind" for kind
  by (cases "kind = SQLServer")
    (simp_all add: For_def postgres.sql_dialect_axioms sqlServer.sql_dialect_axioms)

end
