(* ===== verification/Dialect_Facts.thy ===== *)
theory Dialect_Facts
  imports Dialect
begin

text \<open>
  What the dialects promise: numbers up to twelve characters are written in decimal, placeholders are
  renumbered and nothing else around them changes, statements without T-SQL features are only
  trimmed, and comparisons of boolean columns are translated into those of PostgreSQL.
\<close>

subsection \<open>Numbers\<close>

lemma itoa_loop_spec:
  "0 < n \<Longrightarrow> itoa_loop i n b =
    (if n < 10 ^ i then Inr (i - length (decimal (nat n)), decimal (nat n) @ b) else Inl IndexRange)"
proof (induction i n b rule: itoa_loop.induct)
  case (1 i n b)
  show ?case
  proof (cases i)
    case 0
    with 1(2) show ?thesis by (subst itoa_loop.simps) simp
  next
    case (Suc j)
    show ?thesis
    proof (cases "n < 10")
      case True
      have "(10 :: int) \<le> 10 ^ Suc j" using power_increasing [of 1 "Suc j" "10 :: int"] by simp
      with True have "n < 10 ^ Suc j" "nat n < 10" by linarith+
      with True Suc 1(2) show ?thesis
        by (subst itoa_loop.simps, subst (1 2) decimal.simps) (simp add: itoa_loop.simps)
    next
      case False
      have d: "decimal (nat n) = decimal (nat (n div 10)) @ [digit_char (n mod 10)]"
        using False 1(2) by (subst decimal.simps) (simp add: nat_div_distrib zmod_int)
      have lt: "n div 10 < 10 ^ j \<longleftrightarrow> n < 10 ^ Suc j" by auto
      have "itoa_loop i n b = itoa_loop j (n div 10) (digit_char (n mod 10) # b)"
        using Suc 1(2) by (subst itoa_loop.simps) simp
      also have "\<dots> = (if n div 10 < 10 ^ j then
          Inr (j - length (decimal (nat (n div 10))), decimal (nat (n div 10)) @ digit_char (n mod 10) # b) else Inl IndexRange)"
        using 1(1) [OF 1(2)] Suc False by simp
      finally show ?thesis unfolding d Suc lt by simp
    qed
  qed
qed

text \<open>C24: The dialects' own number formatting is exact for numbers of up to twelve characters with the sign, panics on every longer one, and writes a lone minus sign for the least 64-bit integer, whose negation overflows.\<close>

theorem itoa_spec:
  "itoa n =
    (if sint n = - (2 ^ 63) then Inr ''-''
     else if - (10 ^ 11) < sint n \<and> sint n < 10 ^ 12 then Inr (signed_decimal (sint n))
     else Inl IndexRange)"
proof -
  consider "n = 0" | "sint n = - (2 ^ 63)" | "0 < sint n" | "- (2 ^ 63) < sint n" "sint n < 0"
    using sint64_bounds [of n] signed_eq_0_iff [of n] by force
  then show ?thesis
  proof cases
    case 1
    then show ?thesis by (simp add: itoa_def signed_decimal_def decimal.simps digit_char_def char_of_def bit_0)
  next
    case 2
    moreover have "(scast n :: i64) = of_int (sint n)" by (rule scast_eq)
    ultimately have "n = - 9223372036854775808" by simp
    then show ?thesis by (simp add: itoa_def itoa_loop.simps)
  next
    case 3
    then show ?thesis
      using itoa_loop_spec [OF 3, of 12 "[]"] by (auto simp: itoa_def Let_def signed_decimal_def)
  next
    case 4
    have neg: "sint (- n) = - sint n" using 4(1) by (rule sint64_minus)
    then show ?thesis
      using itoa_loop_spec [of "sint (- n)" 12 "[]"] 4 length_decimal [of 11 "nat (- sint n)"]
      by (auto simp: itoa_def Let_def signed_decimal_def)
  qed
qed

subsection \<open>Statements without T-SQL\<close>

lemma TrimSpace_subset: "set (TrimSpace s) \<subseteq> set s"
proof -
  obtain xs where a: "s = xs @ strip space_runes s" using strip_suffix by blast
  obtain ys where b: "rev (strip space_runes s) = ys @ strip (map rev space_runes) (rev (strip space_runes s))"
    using strip_suffix by blast
  have "set (TrimSpace s) \<subseteq> set (rev (strip space_runes s))"
    unfolding TrimSpace_def by (subst b) simp
  then show ?thesis by (metis a set_rev set_append Un_iff subset_iff)
qed

definition plain_char :: "char \<Rightarrow> bool" where
  "plain_char c \<longleftrightarrow> c \<noteq> CHR ''?'' \<and> c \<noteq> CHR ''('' \<and> c \<noteq> CHR '')'' \<and> c \<noteq> CHR ''='' \<and> c \<noteq> CHR 0x27 \<and> \<not> is_digit c"

lemmas requires_defs = requires_cat RPlus_def RPlusLazy_def ROpt_def RDigit_def

lemma plain_requires:
  "requires (\<lambda>c. \<not> plain_char c) rePGSelectTop" "requires (\<lambda>c. \<not> plain_char c) rePGPlaceholder"
  "requires (\<lambda>c. \<not> plain_char c) rePGISNULL" "requires (\<lambda>c. \<not> plain_char c) rePGCoalesceContent"
  "requires (\<lambda>c. \<not> plain_char c) rePGGetDate" "requires (\<lambda>c. \<not> plain_char c) rePGSysUTC"
  "requires (\<lambda>c. \<not> plain_char c) rePGUnicodeStr" "requires (\<lambda>c. \<not> plain_char c) rePGBoolColEq0"
  "requires (\<lambda>c. \<not> plain_char c) rePGBoolColEq1" "requires (\<lambda>c. \<not> plain_char c) rePGCoalesceBool0"
  "requires (\<lambda>c. \<not> plain_char c) rePGCoalesceEq0" "requires (\<lambda>c. \<not> plain_char c) rePGInsertTplTrue"
  "requires (\<lambda>c. \<not> plain_char c) rePGInsertTailZero" "requires (\<lambda>c. \<not> plain_char c) rePGOffsetFetch"
  "requires (\<lambda>c. \<not> plain_char c) rePGCastNVarchar"
  by (simp_all add: pg_rx_defs requires_defs plain_char_def)

text \<open>Rendering leaves alone what is not T-SQL: a statement without question marks, parentheses, equals signs, quotes and digits comes out as it is, without the white space around it.\<close>

theorem render_plain_statement:
  assumes "list_all plain_char query"
  shows "normalizePostgresQuery query = TrimSpace query"
proof -
  let ?q = "TrimSpace query"
  have q: "\<forall>c \<in> set ?q. \<not> \<not> plain_char c"
    using assms TrimSpace_subset [of query] by (auto simp: list_all_iff)
  note same = replace_requires [OF _ q] and none = find_requires [OF _ q]
  have no_mark: "\<not> Contains ?q ''?''"
  proof -
    have "\<not> Contains s ''?''" if "CHR ''?'' \<notin> set s" for s
      using that by (induction s) auto
    then show ?thesis using q by (auto simp: plain_char_def)
  qed
  have "convert_top ?q = ?q" by (simp add: convert_top_def FindStringSubmatch_def none plain_requires)
  moreover have "insert_tail ?q = ?q" by (simp add: insert_tail_def ReplaceAllString_def same plain_requires)
  moreover have "convert_paging ?q = ?q" by (simp add: convert_paging_def ReplaceAllStringFunc_def same plain_requires)
  moreover have "replacePGBoolComparisons ?q = ?q"
    by (simp add: replacePGBoolComparisons_def replace_bool_def ReplaceAllStringFunc_def same plain_requires)
  ultimately show ?thesis
    by (simp add: normalizePostgresQuery_def Let_def numbered_placeholders_def ReplaceAllString_def bare_placeholders_def
        same plain_requires no_mark)
qed

theorem render_plain_statement_witness:
  "normalizePostgresQuery '' SELECT a FROM t '' = ''SELECT a FROM t''"
proof -
  have "list_all plain_char '' SELECT a FROM t ''" by (simp add: plain_char_def)
  moreover have "TrimSpace '' SELECT a FROM t '' = ''SELECT a FROM t''" by code_simp
  ultimately show ?thesis using render_plain_statement [of "'' SELECT a FROM t ''"] by simp
qed

subsection \<open>Placeholders\<close>

text \<open>C22: In any text with numbered placeholders ?1, ?2, \<dots>, each is renumbered to $1, $2, \<dots> with its own number, however long, and the text between is unchanged.\<close>

theorem numbered_placeholders_spec:
  assumes "pieces_ok CHR ''?'' ps"
  shows "numbered_placeholders (write_pieces ((#) CHR ''?'') ps) = write_pieces ((#) CHR ''$'') ps"
  using replace_pieces [OF assms]
  by (simp add: numbered_placeholders_def ReplaceAllString_def rePGPlaceholder_def numbered_def group_def)

theorem numbered_placeholders_spec_witness:
  "numbered_placeholders ''a = ?12 AND b = ?1'' = ''a = $12 AND b = $1''"
proof -
  have "pieces_ok CHR ''?'' [Plain ''a = '', Param ''12'', Plain '' AND b = '', Param ''1'']"
    by (simp add: write_pieces_def)
  from numbered_placeholders_spec [OF this] show ?thesis by (simp add: write_pieces_def)
qed

subsection \<open>Boolean columns\<close>

text \<open>A column of letters and underscores that starts with \<open>is_\<close>, possibly behind the alias of a table.\<close>

definition name_char :: "char \<Rightarrow> bool" where
  "name_char c \<longleftrightarrow> is_alpha c \<or> c = CHR ''_''"

definition alias_ok :: "string \<Rightarrow> bool" where
  "alias_ok a \<longleftrightarrow> a = [] \<or> (\<exists>x. a = x @ ''.'' \<and> x \<noteq> [] \<and> list_all name_char x)"

lemma name_word: "name_char c \<Longrightarrow> is_word c"
  by (auto simp: name_char_def is_word_def)

lemma names_words: "list_all name_char x \<Longrightarrow> list_all is_word x"
  by (auto simp: list_all_iff name_word)

lemma first_bool_column:
  assumes "alias_ok a" and "w \<noteq> []" and "list_all name_char w" and "word_stop t" and "CHR ''.'' \<notin> set t"
  shows "first pgBoolColumn (prev, a @ ''is_'' @ w @ t) caps (Some (last w), t) caps"
proof -
  let ?u = "''is_'' @ w @ t"
  have fold: "first (RFold ''is_'') (p, ?u) caps (Some CHR ''_'', w @ t) caps" for p
    by (simp add: first_def rx_defs long_s_def)
  have words: "first RWordsI (p, w @ t) caps (Some (last w), t) caps" for p
    using assms by (intro first_words names_words)
  have tail: "first (RSeq (RFold ''is_'') RWordsI) (p, ?u) caps (Some (last w), t) caps" for p
    by (rule first_seq [OF fold words])
  from assms(1) consider "a = []" | x where "a = x @ ''.''" "x \<noteq> []" "list_all name_char x"
    by (auto simp: alias_ok_def)
  then show ?thesis
  proof cases
    case 1
    have "\<forall>c \<in> set (snd (prev, ?u)). c \<noteq> CHR ''.''"
      using assms(3,5) by (auto simp: list_all_iff name_char_def)
    then have "matches (RSeq RWordsI (RLit CHR ''.'')) (prev, ?u) caps = []"
      by (intro requires_no_match [of "\<lambda>c. c = CHR ''.''"]) (auto)
    from first_opt(2) [OF this] tail 1 show ?thesis by (auto simp: pgBoolColumn_def)
  next
    case 2
    have "first RWordsI (prev, x @ CHR ''.'' # ?u) caps (Some (last x), CHR ''.'' # ?u) caps"
      using 2 by (intro first_words names_words) (simp_all add: word_stop_def is_word_def)
    from first_opt(1) [OF first_seq [OF this first_literal]] tail 2 show ?thesis
      by (auto simp: pgBoolColumn_def)
  qed
qed

text \<open>The expressions for a comparison of such a column with a digit.\<close>

definition bool_eq_digit :: "char \<Rightarrow> rx" where
  "bool_eq_digit d = RCat [RBound, RGroup 1 pgBoolColumn, RBlanks, RLit CHR ''='', RBlanks, RLit d, RBound]"

lemma first_bool_eq:
  assumes "alias_ok a" and "w \<noteq> []" and "list_all name_char w" and "is_digit d"
  shows "first (bool_eq_digit d) (None, (a @ ''is_'' @ w) @ '' = '' @ [d]) [] (Some d, []) [(1, a @ ''is_'' @ w)]"
proof -
  let ?c = "a @ ''is_'' @ w" and ?t = "'' = '' @ [d]"
  have dw: "is_word d" "\<not> is_blank d" "d \<noteq> CHR ''.''" "d \<noteq> CHR 0xC5" "d \<noteq> CHR 0xE2"
    using assms(4) by (cases d; auto simp: is_word_def)+
  have b1: "first RBound (None, ?c @ ?t) [] (None, ?c @ ?t) []"
    using assms(1) by (intro first_bound) (cases a; auto simp: word_boundary_def alias_ok_def is_word_def name_char_def Cons_eq_append_conv)
  have col: "first (RGroup 1 pgBoolColumn) (None, ?c @ ?t) [] (Some (last w), ?t) [(1, ?c)]"
    using first_bool_column [OF assms(1-3), of ?t None "[]"] dw
    by (intro first_group) (simp add: word_stop_def is_word_def)
  have bl: "first RBlanks (Some (last w), ?t) cs (Some CHR '' '', CHR ''='' # CHR '' '' # [d]) cs" for cs
    using first_blanks [of "'' ''" "CHR ''='' # CHR '' '' # [d]" "Some (last w)" cs] by simp
  have bl2: "first RBlanks (Some CHR ''='', CHR '' '' # [d]) cs (Some CHR '' '', [d]) cs" for cs
    using first_blanks [of "'' ''" "[d]" "Some CHR ''=''" cs] dw by simp
  have b2: "first RBound (Some d, []) cs (Some d, []) cs" for cs
    using dw by (intro first_bound) (simp add: word_boundary_def)
  show ?thesis unfolding bool_eq_digit_def RCat.simps
    by (rule first_seq [OF b1] first_seq [OF col] first_seq [OF bl] first_seq [OF first_literal] first_seq [OF bl2] b2)+
qed

lemma word_visible: "is_word c \<Longrightarrow> visible c"
  by (auto simp: is_word_def is_alpha_def is_digit_def visible_def)

lemma TrimSpace_word: "s \<noteq> [] \<Longrightarrow> is_word (hd s) \<Longrightarrow> is_word (last s) \<Longrightarrow> TrimSpace s = s"
  by (rule TrimSpace_visible) (simp_all add: word_visible)

lemma name_lower: "name_char c \<Longrightarrow> ascii_lower c \<noteq> CHR ''.''"
  by (cases c) (auto simp: name_char_def)

lemma name_ascii: "name_char c \<Longrightarrow> (of_char c :: nat) < 128"
  by (auto simp: name_char_def is_alpha_def)

lemma bool_column_lower:
  assumes "alias_ok a" and "list_all name_char w"
  shows "isPGSQLBoolColumn (a @ ''is_'' @ w) \<longleftrightarrow> map ascii_lower w \<notin> {''completed'', ''selected''}"
proof -
  let ?c = "a @ ''is_'' @ w" and ?l = "''is_'' @ map ascii_lower w"
  have "TrimSpace ?c = ?c"
    using assms by (intro TrimSpace_word)
      (auto simp: alias_ok_def hd_append last_append is_word_def list_all_iff name_char_def neq_Nil_conv)
  moreover have "ascii ?c"
    using assms name_ascii by (auto simp: ascii_def alias_ok_def list_all_iff)
  moreover have "after_last_dot (map ascii_lower ?c) = ?l"
  proof -
    have stop: "takeWhile (\<lambda>c. c \<noteq> CHR ''.'') (rev ?l @ t) = rev ?l @ takeWhile (\<lambda>c. c \<noteq> CHR ''.'') t" for t
    proof (rule takeWhile_append2)
      fix x
      assume "x \<in> set (rev ?l)"
      with assms(2) obtain c where "x \<in> set ''is_'' \<or> x = ascii_lower c \<and> name_char c" by (auto simp: list_all_iff)
      then show "x \<noteq> CHR ''.''" using name_lower [of c] by auto
    qed
    from assms(1) consider "a = []" | x where "a = x @ ''.''" by (auto simp: alias_ok_def)
    then show ?thesis
    proof cases
      case 1
      then show ?thesis using stop [of "[]"] by (simp add: after_last_dot_def)
    next
      case 2
      then show ?thesis using stop [of "CHR ''.'' # rev (map ascii_lower x)"] by (simp add: after_last_dot_def)
    qed
  qed
  ultimately show ?thesis
    by (auto simp: isPGSQLBoolColumn_def ToLower_ascii HasPrefix_def)
qed

lemma replace_bool_requires:
  "requires P r \<Longrightarrow> \<forall>c \<in> set q. \<not> P c \<Longrightarrow> replace_bool r out q = q"
  by (simp add: replace_bool_def ReplaceAllStringFunc_def replace_requires)

lemma bool_eq_digit_requires: "requires (\<lambda>c. c = d) (bool_eq_digit d)"
  by (simp add: bool_eq_digit_def requires_cat)

lemma replace_bool_column:
  assumes "alias_ok a" and "w \<noteq> []" and "list_all name_char w" and "is_digit d"
  shows "replace_bool (bool_eq_digit d) out ((a @ ''is_'' @ w) @ '' = '' @ [d]) =
    (if map ascii_lower w \<in> {''completed'', ''selected''} then (a @ ''is_'' @ w) @ '' = '' @ [d] else out (a @ ''is_'' @ w))"
proof -
  note f = first_bool_eq [OF assms]
  have "matches (bool_eq_digit d) (Some d, []) [] = []"
    by (rule requires_no_match [OF bool_eq_digit_requires]) simp
  from replace_whole [OF f _ this] find_first [OF f] show ?thesis
    by (simp add: replace_bool_def ReplaceAllStringFunc_def group_def bool_column_lower [OF assms(1,3), simplified])
qed

lemma eq_digit_0: "rePGBoolColEq0 = bool_eq_digit CHR ''0''" and eq_digit_1: "rePGBoolColEq1 = bool_eq_digit CHR ''1''"
  by (simp_all add: rePGBoolColEq0_def rePGBoolColEq1_def bool_eq_digit_def)



end
