(* ===== verification/Parse_Float.thy ===== *)
theory Parse_Float
  imports Go_Strings Decimal
begin

text \<open>
  \<open>strconv.ParseFloat(s, 64)\<close>, as far as it returns an error: the syntax of decimal and hexadecimal
  numbers, underscores between digits, the special values, and values that round to infinity.
\<close>

definition is_hex_letter :: "char \<Rightarrow> bool" where
  "is_hex_letter c \<longleftrightarrow> ascii_lower c \<in> set ''abcdef''"

definition hex_val :: "char \<Rightarrow> int" where
  "hex_val c = (if is_digit c then digit_val c else int (of_char (ascii_lower c)) - 87)"

text \<open>The digits: whether an underscore and a digit were seen, the digits as a number, how many of them
  are after the point, and the rest of the text.\<close>

fun read_mantissa ::
    "bool \<Rightarrow> string \<Rightarrow> bool \<Rightarrow> bool \<times> bool \<times> int \<times> nat \<Rightarrow> (bool \<times> bool \<times> int \<times> nat) \<times> string" where
  "read_mantissa hex [] dot acc = (acc, [])"
| "read_mantissa hex (c # s) dot (und, dig, m, k) =
     (if c = CHR ''_'' then read_mantissa hex s dot (True, dig, m, k)
      else if c = CHR ''.'' then (if dot then ((und, dig, m, k), c # s) else read_mantissa hex s True (und, dig, m, k))
      else if is_digit c \<or> hex \<and> is_hex_letter c
      then read_mantissa hex s dot (und, True, m * (if hex then 16 else 10) + hex_val c, if dot then k + 1 else k)
      else ((und, dig, m, k), c # s))"

text \<open>The exponent stops growing at five digits.\<close>

fun read_exponent :: "string \<Rightarrow> bool \<times> int \<Rightarrow> (bool \<times> int) \<times> string" where
  "read_exponent [] acc = (acc, [])"
| "read_exponent (c # s) (und, e) =
     (if c = CHR ''_'' then read_exponent s (True, e)
      else if is_digit c then read_exponent s (und, if e < 10000 then e * 10 + digit_val c else e)
      else ((und, e), c # s))"

definition drop_sign :: "string \<Rightarrow> string" where
  "drop_sign s = (if s \<noteq> [] \<and> (hd s = CHR ''+'' \<or> hd s = CHR ''-'') then tl s else s)"

text \<open>Underscores stand between digits, or after a base prefix.\<close>

fun underscores_ok :: "bool \<Rightarrow> char \<Rightarrow> string \<Rightarrow> bool" where
  "underscores_ok hex i [] = (i \<noteq> CHR ''_'')"
| "underscores_ok hex i (c # s) =
     (if is_digit c \<or> hex \<and> is_hex_letter c then underscores_ok hex CHR ''0'' s
      else if c = CHR ''_'' then i = CHR ''0'' \<and> underscores_ok hex CHR ''_'' s
      else i \<noteq> CHR ''_'' \<and> underscores_ok hex CHR ''!'' s)"

definition underscoreOK :: "string \<Rightarrow> bool" where
  "underscoreOK s =
     (case drop_sign s of
        a # b # r \<Rightarrow>
          if a = CHR ''0'' \<and> ascii_lower b \<in> set ''box'' then underscores_ok (ascii_lower b = CHR ''x'') CHR ''0'' r
          else underscores_ok False CHR ''^'' (a # b # r)
      | r \<Rightarrow> underscores_ok False CHR ''^'' r)"

text \<open>The least number that rounds to infinity.\<close>

definition f64_overflow :: int where
  "f64_overflow = 2 ^ 1024 - 2 ^ 970"

definition too_large :: "int \<Rightarrow> int \<Rightarrow> int \<Rightarrow> bool" where
  "too_large base m x = (if 0 \<le> x then f64_overflow \<le> m * base ^ nat x else f64_overflow * base ^ nat (- x) \<le> m)"

definition is_number :: "string \<Rightarrow> bool" where
  "is_number s =
     (let s1 = drop_sign s;
          hex = (2 < length s1 \<and> s1 ! 0 = CHR ''0'' \<and> ascii_lower (s1 ! 1) = CHR ''x'');
          ((und, dig, m, k), r) = read_mantissa hex (if hex then drop 2 s1 else s1) False (False, False, 0, 0)
      in if \<not> dig then False
         else if r \<noteq> [] \<and> ascii_lower (hd r) = (if hex then CHR ''p'' else CHR ''e'')
         then
           (let neg = (tl r \<noteq> [] \<and> hd (tl r) = CHR ''-''); r2 = drop_sign (tl r)
            in if r2 = [] \<or> \<not> is_digit (hd r2) then False
               else
                 (let ((und, e), r3) = read_exponent r2 (und, 0); e = (if neg then - e else e)
                  in r3 = [] \<and> (und \<longrightarrow> underscoreOK s) \<and>
                     \<not> (if hex then too_large 2 m (e - 4 * int k) else too_large 10 m (e - int k))))
         else \<not> hex \<and> r = [] \<and> (und \<longrightarrow> underscoreOK s) \<and> \<not> too_large 10 m (- int k))"

definition is_special :: "string \<Rightarrow> bool" where
  "is_special s \<longleftrightarrow> map ascii_lower (drop_sign s) \<in> {''inf'', ''infinity''} \<or> map ascii_lower s = ''nan''"

definition ParseFloat_ok :: "string \<Rightarrow> bool" where
  "ParseFloat_ok s \<longleftrightarrow> is_special s \<or> is_number s"

end
