(* ===== verification/Excel_Ddl.thy ===== *)
theory Excel_Ddl
  imports Dialect Parse_Float
begin

text \<open>
  \<open>gobackendkit/schema/excelddl\<close>: table definitions from a workbook. The workbook, read by a library, is
  a list of sheets with their rows of cells; \<^const>\<open>None\<close> is a sheet that cannot be read. The result is
  a T-SQL statement per table, which the dialect converts.
\<close>

subsection \<open>Tables\<close>

record column =
  Comment :: string
  Name :: string
  Type :: string
  Length :: string
  NotNull :: bool
  Unique :: bool
  Primary :: bool
  Default :: string

record excel_table =
  TableName :: string
  Columns :: "column list"

datatype excel_error =
    OpenFailed
  | RowsFailed string
  | MissingType string nat
  | EmptyTableName
  | EmptyFieldName
  | UnsupportedType string string

definition no_column :: column where
  "no_column = \<lparr>Comment = [], Name = [], Type = [], Length = [], NotNull = False, Unique = False, Primary = False, Default = []\<rparr>"

text \<open>The comments of the audit columns, in UTF-8.\<close>

definition zh_primary :: string where
  "zh_primary = [CHR 0xE4, CHR 0xB8, CHR 0xBB, CHR 0xE9, CHR 0x94, CHR 0xAE]"
definition zh_created :: string where
  "zh_created = [CHR 0xE5, CHR 0x88, CHR 0x9B, CHR 0xE5, CHR 0xBB, CHR 0xBA]"
definition zh_updated :: string where
  "zh_updated = [CHR 0xE6, CHR 0x9B, CHR 0xB4, CHR 0xE6, CHR 0x96, CHR 0xB0]"
definition zh_time :: string where
  "zh_time = [CHR 0xE6, CHR 0x97, CHR 0xB6, CHR 0xE9, CHR 0x97, CHR 0xB4]"
definition zh_person :: string where "zh_person = [CHR 0xE4, CHR 0xBA, CHR 0xBA]"
definition zh_soft_delete :: string where
  "zh_soft_delete = [CHR 0xE8, CHR 0xBD, CHR 0xAF, CHR 0xE5, CHR 0x88, CHR 0xA0]"
definition zh_yes :: string where "zh_yes = [CHR 0xE6, CHR 0x98, CHR 0xAF]"
definition zh_no :: string where "zh_no = [CHR 0xE5, CHR 0x90, CHR 0xA6]"

definition defaultAuditColumns :: "column list" where
  "defaultAuditColumns =
     [no_column\<lparr>Name := ''id'', Type := ''INT'', Primary := True, Comment := zh_primary\<rparr>,
      no_column\<lparr>Name := ''create_time'', Type := ''TIMESTAMP'', NotNull := True, Comment := zh_created @ zh_time\<rparr>,
      no_column\<lparr>Name := ''create_user'', Type := ''NVARCHAR'', Length := ''64'', NotNull := True, Default := quote @ quote,
        Comment := zh_created @ zh_person\<rparr>,
      no_column\<lparr>Name := ''update_time'', Type := ''TIMESTAMP'', NotNull := True, Comment := zh_updated @ zh_time\<rparr>,
      no_column\<lparr>Name := ''update_user'', Type := ''NVARCHAR'', Length := ''64'', NotNull := True, Default := quote @ quote,
        Comment := zh_updated @ zh_person\<rparr>,
      no_column\<lparr>Name := ''is_delete'', Type := ''BIT'', NotNull := True, Default := ''0'', Comment := zh_soft_delete\<rparr>]"

definition reserved_names :: "string list" where
  "reserved_names = [''id'', ''create_time'', ''create_user'', ''update_time'', ''update_user'', ''is_delete'']"

definition isReservedAuditName :: "string \<Rightarrow> bool" where
  "isReservedAuditName name \<longleftrightarrow> ToLower name \<in> set reserved_names"

definition cell :: "string list \<Rightarrow> nat \<Rightarrow> string" where
  "cell row i = (if length row \<le> i then [] else row ! i)"

definition parseBool :: "string \<Rightarrow> bool" where
  "parseBool s0 = (let s = TrimSpace (ToLower s0) in s = ''1'' \<or> s = ''true'' \<or> s = ''yes'' \<or> s = ''y'' \<or> s = zh_yes)"

definition isMetaSheet :: "string \<Rightarrow> bool" where
  "isMetaSheet name = (let n = TrimSpace name in n = [] \<or> HasPrefix n ''_'')"

subsection \<open>Reading\<close>

text \<open>One row: skipped, an error, or a column.\<close>

definition read_row :: "string \<Rightarrow> nat \<Rightarrow> string list \<Rightarrow> excel_error + column option" where
  "read_row tname i row =
     (if length row < 3 then Inr None
      else
        (let name = TrimSpace (cell row 1)
         in if name = [] then Inr None
            else if isReservedAuditName name then Inr None
            else
              (let col = \<lparr>Comment = TrimSpace (cell row 0), Name = name, Type = ToUpper (TrimSpace (cell row 2)),
                          Length = TrimSpace (cell row 3), NotNull = parseBool (cell row 4), Unique = parseBool (cell row 5),
                          Primary = parseBool (cell row 6), Default = TrimSpace (cell row 7)\<rparr>
               in if Type col = [] then Inl (MissingType tname (i + 3)) else Inr (Some col))))"

fun read_rows :: "string \<Rightarrow> nat \<Rightarrow> string list list \<Rightarrow> column list \<Rightarrow> excel_error + column list" where
  "read_rows tname i [] cols = Inr cols"
| "read_rows tname i (row # rows) cols =
     (case read_row tname i row of
        Inl e \<Rightarrow> Inl e
      | Inr None \<Rightarrow> read_rows tname (i + 1) rows cols
      | Inr (Some col) \<Rightarrow> read_rows tname (i + 1) rows (cols @ [col]))"

fun read_sheets :: "(string \<times> string list list option) list \<Rightarrow> excel_table list \<Rightarrow> excel_error + excel_table list" where
  "read_sheets [] tables = Inr tables"
| "read_sheets ((sheet, rows) # sheets) tables =
     (if isMetaSheet sheet then read_sheets sheets tables
      else case rows of
             None \<Rightarrow> Inl (RowsFailed sheet)
           | Some rows \<Rightarrow>
               if length rows < 3 then read_sheets sheets tables
               else
                 (case read_rows (TrimSpace sheet) 0 (drop 2 rows) defaultAuditColumns of
                    Inl e \<Rightarrow> Inl e
                  | Inr cols \<Rightarrow>
                      (let t = \<lparr>TableName = TrimSpace sheet, Columns = cols\<rparr>
                       in read_sheets sheets (if TableName t \<noteq> [] then tables @ [t] else tables))))"

definition ReadFile :: "(string \<times> string list list option) list option \<Rightarrow> excel_error + excel_table list" where
  "ReadFile f = (case f of None \<Rightarrow> Inl OpenFailed | Some sheets \<Rightarrow> read_sheets sheets [])"

subsection \<open>Statements\<close>

definition normalizeDefault :: "string \<Rightarrow> string \<Rightarrow> string" where
  "normalizeDefault typ def0 =
     (let def = TrimSpace def0; u = ToUpper typ
      in if u = ''BIT'' \<or> u = ''BOOLEAN'' \<or> u = ''BOOL''
         then (if def = ''true'' \<or> def = ''TRUE'' \<or> def = ''1'' then ''1'' else ''0'')
         else if (u = ''NVARCHAR'' \<or> u = ''VARCHAR'' \<or> u = ''TEXT'') \<and> \<not> HasPrefix def (CHR ''N'' # quote) \<and> \<not> HasPrefix def quote
              \<and> \<not> ParseFloat_ok def
         then (CHR ''N'' # quote) @ ReplaceAll def quote (quote @ quote) @ quote
         else def)"

text \<open>The SQL type, or \<^const>\<open>None\<close> for one that is not supported; the flag says that the line ends there.\<close>

definition sql_type :: "column \<Rightarrow> string \<Rightarrow> (string \<times> bool) option" where
  "sql_type c typ =
     (if typ = ''INT'' \<or> typ = ''INTEGER'' then
        (if Primary c then Some (''INT IDENTITY(1,1) PRIMARY KEY'', True) else Some (''INT'', False))
      else if typ = ''BIGINT'' then Some (''BIGINT'', False)
      else if typ = ''SERIAL'' then Some (''INT IDENTITY(1,1) PRIMARY KEY'', True)
      else if typ = ''VARCHAR'' \<or> typ = ''NVARCHAR'' then
        (let lenStr = (if Length c = [] then ''255'' else Length c)
         in if EqualFold lenStr ''MAX'' then Some (''NVARCHAR(MAX)'', False)
            else Some (''NVARCHAR('' @ lenStr @ '')'', False))
      else if typ = ''TEXT'' then Some (''NVARCHAR(MAX)'', False)
      else if typ = ''BOOLEAN'' \<or> typ = ''BOOL'' \<or> typ = ''BIT'' then Some (''BIT'', False)
      else if typ = ''TIMESTAMP'' \<or> typ = ''DATETIME'' \<or> typ = ''DATETIME2'' then Some (''DATETIME2'', False)
      else if typ = ''DECIMAL'' \<or> typ = ''NUMERIC'' then
        (let lenStr = ReplaceAll (Length c) ''.'' '',''
         in if lenStr \<noteq> [] then Some (''DECIMAL('' @ lenStr @ '')'', False) else Some (''DECIMAL(18,2)'', False))
      else if typ = ''FLOAT'' then Some (''FLOAT'', False)
      else if typ = ''JSON'' \<or> typ = ''JSONB'' then Some (''NVARCHAR(MAX)'', False)
      else None)"

definition columnDDL :: "column \<Rightarrow> excel_error + string" where
  "columnDDL c =
     (let name = TrimSpace (Name c); typ = ToUpper (TrimSpace (Type c))
      in if name = [] then Inl EmptyFieldName
         else case sql_type c typ of
                None \<Rightarrow> Inl (UnsupportedType typ name)
              | Some (t, True) \<Rightarrow> Inr (name @ '' '' @ t)
              | Some (t, False) \<Rightarrow>
                  Inr (name @ '' '' @ t @
                    (if Primary c \<and> typ \<noteq> ''INT'' \<and> typ \<noteq> ''INTEGER'' \<and> typ \<noteq> ''SERIAL'' then '' PRIMARY KEY'' else []) @
                    (if NotNull c then '' NOT NULL'' else []) @
                    (if Unique c then '' UNIQUE'' else []) @
                    (if Default c \<noteq> [] then '' DEFAULT '' @ normalizeDefault typ (Default c) else [])))"

text \<open>The lines, with a comma after each but the last; \<open>n\<close> is the number of columns.\<close>

fun ddl_lines :: "nat \<Rightarrow> nat \<Rightarrow> column list \<Rightarrow> string \<Rightarrow> excel_error + string" where
  "ddl_lines n i [] b = Inr b"
| "ddl_lines n i (c # cs) b =
     (case columnDDL c of
        Inl e \<Rightarrow> Inl e
      | Inr line \<Rightarrow> ddl_lines n (i + 1) cs (b @ ''  '' @ line @ (if int i < int n - 1 then '','' else []) @ newline))"

definition BuildMSSQLDDL :: "excel_table \<Rightarrow> excel_error + string" where
  "BuildMSSQLDDL t =
     (if TrimSpace (TableName t) = [] then Inl EmptyTableName
      else
        (case ddl_lines (length (Columns t)) 0 (Columns t) (''CREATE TABLE '' @ TableName t @ '' ('' @ newline) of
           Inl e \<Rightarrow> Inl e
         | Inr b \<Rightarrow> Inr (b @ '')'')))"

subsection \<open>Drop-down lists\<close>

definition FieldTypes :: "string list" where
  "FieldTypes =
     [''INT'', ''BIGINT'', ''NVARCHAR'', ''VARCHAR'', ''TEXT'', ''BIT'', ''BOOLEAN'', ''TIMESTAMP'', ''DATETIME2'',
      ''DECIMAL'', ''FLOAT'', ''JSON'']"

definition LengthHints :: "string list" where
  "LengthHints = [''32'', ''50'', ''64'', ''100'', ''128'', ''200'', ''255'', ''500'', ''MAX'', ''18.2'']"

definition YesNoOptions :: "string list" where
  "YesNoOptions = [zh_yes, zh_no]"

definition dropdownLastRow :: nat where "dropdownLastRow = 200"

end
