(* ===== verification/Excel_Facts.thy ===== *)
theory Excel_Facts
  imports Excel_Ddl Dialect_Facts
begin

text \<open>
  What the table generator promises: the audit columns are in every table and cannot be redefined,
  exactly the supported types give a line, the statement of a readable workbook is its lines joined by
  commas, and text defaults are complete literals.
\<close>

subsection \<open>Reading\<close>

definition user_column :: "column \<Rightarrow> bool" where
  "user_column c \<longleftrightarrow> TrimSpace (Name c) \<noteq> [] \<and> ToLower (Name c) \<notin> set reserved_names \<and> Type c \<noteq> []"

lemma strip_prefix_free: "strip ps s = s \<Longrightarrow> find (\<lambda>p. p \<noteq> [] \<and> prefix p s) ps = None"
proof (rule ccontr)
  assume s: "strip ps s = s" and "find (\<lambda>p. p \<noteq> [] \<and> prefix p s) ps \<noteq> None"
  then obtain p where f: "find (\<lambda>p. p \<noteq> [] \<and> prefix p s) ps = Some p" by blast
  then have p: "p \<noteq> []" "prefix p s" by (auto simp: find_Some_iff)
  have "length (strip ps s) \<le> length (drop (length p) s)"
    using strip_suffix [of "drop (length p) s" ps] f
    by (simp add: strip.simps [of ps s]) (metis length_append length_drop le_add2)
  with s p show False by (cases s; cases p) auto
qed

lemma TrimSpace_idem: "TrimSpace (TrimSpace s) = TrimSpace s"
proof -
  let ?l = "strip space_runes s"
  obtain ys where ys: "rev ?l = ys @ strip (map rev space_runes) (rev ?l)" using strip_suffix by blast
  have pre: "?l = TrimSpace s @ rev ys"
    unfolding TrimSpace_def by (metis ys rev_append rev_rev_ident)
  have "find (\<lambda>p. p \<noteq> [] \<and> prefix p ?l) space_runes = None"
    by (rule strip_prefix_free) (rule strip_idem)
  then have "find (\<lambda>p. p \<noteq> [] \<and> prefix p (TrimSpace s)) space_runes = None"
    unfolding find_None_iff by (subst (asm) pre) (metis prefix_prefix)
  then have "strip space_runes (TrimSpace s) = TrimSpace s" by (rule strip_no_space)
  then show ?thesis
    unfolding TrimSpace_def [of "TrimSpace s"] by (simp add: TrimSpace_def strip_idem)
qed

lemma read_row_column: "read_row t i row = Inr (Some c) \<Longrightarrow> user_column c"
  by (auto simp: read_row_def Let_def user_column_def isReservedAuditName_def TrimSpace_idem split: if_splits)

lemma read_rows_columns:
  "read_rows t i rows cols = Inr cols' \<Longrightarrow> \<exists>new. cols' = cols @ new \<and> list_all user_column new"
proof (induction t i rows cols rule: read_rows.induct)
  case (2 t i row rows cols)
  from 2(3) consider "read_row t i row = Inr None" "read_rows t (i + 1) rows cols = Inr cols'"
    | c where "read_row t i row = Inr (Some c)" "read_rows t (i + 1) rows (cols @ [c]) = Inr cols'"
    by (auto split: sum.splits option.splits)
  then show ?case
  proof cases
    case 1
    with 2(1) show ?thesis by auto
  next
    case (2 c)
    with "2.IH"(2) [of "Some c" c] read_row_column [of t i row c] show ?thesis by fastforce
  qed
qed simp

definition table_ok :: "excel_table \<Rightarrow> bool" where
  "table_ok t \<longleftrightarrow> TrimSpace (TableName t) \<noteq> [] \<and>
     (\<exists>new. Columns t = defaultAuditColumns @ new \<and> list_all user_column new)"

lemma read_sheets_tables:
  "read_sheets sheets tables = Inr tables' \<Longrightarrow> list_all table_ok tables \<Longrightarrow> list_all table_ok tables'"
proof (induction sheets tables rule: read_sheets.induct)
  case (2 sheet rows sheets tables)
  show ?case
  proof (cases "isMetaSheet sheet \<or> (\<exists>rs. rows = Some rs \<and> length rs < 3)")
    case True
    then show ?thesis using 2 by (auto split: if_splits)
  next
    case False
    with 2(4) obtain rs where rs: "rows = Some rs" "\<not> length rs < 3" by (auto split: option.splits)
    with False 2(4) obtain cols where c: "read_rows (TrimSpace sheet) 0 (drop 2 rs) defaultAuditColumns = Inr cols"
      by (auto split: sum.splits)
    from False have n: "TrimSpace sheet \<noteq> []" by (auto simp: isMetaSheet_def Let_def)
    have "table_ok \<lparr>TableName = TrimSpace sheet, Columns = cols\<rparr>"
      using read_rows_columns [OF c] n by (auto simp: table_ok_def TrimSpace_idem)
    with 2(3) [OF _ rs c refl] 2(4,5) False rs c n show ?thesis by simp
  qed
qed simp

lemma ReadFile_table_ok: "ReadFile f = Inr tables \<Longrightarrow> t \<in> set tables \<Longrightarrow> table_ok t"
  using read_sheets_tables [of _ "[]"] by (fastforce simp: ReadFile_def list_all_iff split: option.splits)


definition ex_workbook :: "(string \<times> string list list option) list option" where
  "ex_workbook = Some [(''_m'', None), (''t'', Some [[], [], [[], ''ID'', ''INT''], [[], '' qty'', ''int'']])]"

definition ex_qty :: column where
  "ex_qty = no_column\<lparr>Name := ''qty'', Type := ''INT''\<rparr>"

lemma ex_workbook: "ReadFile ex_workbook = Inr [\<lparr>TableName = ''t'', Columns = defaultAuditColumns @ [ex_qty]\<rparr>]"
  by code_simp


subsection \<open>Column lines\<close>

definition supported_types :: "string list" where
  "supported_types = [''INT'', ''INTEGER'', ''BIGINT'', ''SERIAL'', ''VARCHAR'', ''NVARCHAR'', ''TEXT'', ''BOOLEAN'', ''BOOL'', ''BIT'',
     ''TIMESTAMP'', ''DATETIME'', ''DATETIME2'', ''DECIMAL'', ''NUMERIC'', ''FLOAT'', ''JSON'', ''JSONB'']"

lemma if_Some_iff: "((if a then Some x else y) = None) = (\<not> a \<and> y = None)"
  "(if a then Some x else Some z) = Some (if a then x else z)"
  by simp_all

lemma sql_type_supported: "sql_type c typ = None \<longleftrightarrow> typ \<notin> set supported_types"
  unfolding sql_type_def supported_types_def Let_def if_Some_iff
  by (simp only: list.set insert_iff empty_iff de_Morgan_disj simp_thms conj_assoc)

lemma columnDDL_iff:
  fixes c :: column
  shows "(\<exists>line. columnDDL c = Inr line) \<longleftrightarrow> TrimSpace (Name c) \<noteq> [] \<and> ToUpper (TrimSpace (Type c)) \<in> set supported_types"
proof (cases "sql_type c (ToUpper (TrimSpace (Type c)))")
  case None
  then show ?thesis
    using sql_type_supported [of c "ToUpper (TrimSpace (Type c))"] by (simp add: columnDDL_def Let_def)
next
  case (Some r)
  obtain t b where r: "r = (t, b)" by fastforce
  from Some have "ToUpper (TrimSpace (Type c)) \<in> set supported_types"
    using sql_type_supported [of c "ToUpper (TrimSpace (Type c))"] by simp
  then show ?thesis using Some r by (cases b) (simp_all add: columnDDL_def Let_def)
qed

subsection \<open>Statements\<close>

text \<open>The reference: lines between commas.\<close>

definition join_lines :: "string list \<Rightarrow> string" where
  "join_lines ls = concat (map (\<lambda>l. ''  '' @ l @ '','' @ newline) (butlast ls)) @ ''  '' @ last ls @ newline"

lemma ddl_lines_spec:
  assumes "list_all2 (\<lambda>c l. columnDDL c = Inr l) cs ls" and "cs \<noteq> []"
  shows "ddl_lines (i + length cs) i cs b = Inr (b @ join_lines ls)"
  using assms
proof (induction cs arbitrary: i ls b)
  case (Cons c cs)
  then obtain l ls' where l: "ls = l # ls'" "columnDDL c = Inr l" "list_all2 (\<lambda>c l. columnDDL c = Inr l) cs ls'"
    by (auto simp: list_all2_Cons1)
  show ?case
  proof (cases "cs = []")
    case True
    with l show ?thesis by (simp add: join_lines_def)
  next
    case False
    then have "ls' \<noteq> []" using l(3) by auto
    with Cons.IH [OF l(3) False, of "Suc i" "b @ ''  '' @ l @ '','' @ newline"] l(1,2) False
    show ?thesis by (simp add: join_lines_def)
  qed
qed simp

lemma BuildMSSQLDDL_lines:
  assumes "TrimSpace (TableName t) \<noteq> []" and "Columns t \<noteq> []"
    and "list_all2 (\<lambda>c l. columnDDL c = Inr l) (Columns t) ls"
  shows "BuildMSSQLDDL t = Inr (''CREATE TABLE '' @ TableName t @ '' ('' @ newline @ join_lines ls @ '')'')"
  using ddl_lines_spec [OF assms(3,2), of 0] assms(1) by (simp add: BuildMSSQLDDL_def)

lemma ddl_lines_fails: "c \<in> set cs \<Longrightarrow> \<nexists>l. columnDDL c = Inr l \<Longrightarrow> \<exists>e. ddl_lines n i cs b = Inl e"
proof (induction cs arbitrary: i b)
  case (Cons a cs)
  then show ?case by (cases "columnDDL a") auto
qed simp

lemma BuildMSSQLDDL_iff:
  assumes "TrimSpace (TableName t) \<noteq> []" and "Columns t \<noteq> []"
  shows "(\<exists>sql. BuildMSSQLDDL t = Inr sql) \<longleftrightarrow>
    (\<forall>c \<in> set (Columns t). TrimSpace (Name c) \<noteq> [] \<and> ToUpper (TrimSpace (Type c)) \<in> set supported_types)"
proof
  assume sql: "\<exists>sql. BuildMSSQLDDL t = Inr sql"
  have "\<exists>line. columnDDL c = Inr line" if c: "c \<in> set (Columns t)" for c
  proof (rule ccontr)
    assume "\<nexists>line. columnDDL c = Inr line"
    from ddl_lines_fails [OF c this] obtain e where
      "ddl_lines (length (Columns t)) 0 (Columns t) (''CREATE TABLE '' @ TableName t @ '' ('' @ newline) = Inl e" by blast
    with sql assms(1) show False unfolding BuildMSSQLDDL_def by simp
  qed
  then show "\<forall>c \<in> set (Columns t). TrimSpace (Name c) \<noteq> [] \<and> ToUpper (TrimSpace (Type c)) \<in> set supported_types"
    using columnDDL_iff by blast
next
  assume "\<forall>c \<in> set (Columns t). TrimSpace (Name c) \<noteq> [] \<and> ToUpper (TrimSpace (Type c)) \<in> set supported_types"
  then have "\<forall>c \<in> set (Columns t). columnDDL c = Inr (projr (columnDDL c))"
    by (metis columnDDL_iff sum.sel(2))
  then have "list_all2 (\<lambda>c l. columnDDL c = Inr l) (Columns t) (map (\<lambda>c. projr (columnDDL c)) (Columns t))"
    by (simp add: list.rel_map list.rel_refl_strong)
  from BuildMSSQLDDL_lines [OF assms this] show "\<exists>sql. BuildMSSQLDDL t = Inr sql" by blast
qed

text \<open>C26: The statement of a table is CREATE TABLE with its name and, in parentheses, the lines of its columns in order, each but the last followed by a comma; it is made exactly when every column has a name and one of the supported types.\<close>

theorem BuildMSSQLDDL_spec:
  assumes "TrimSpace (TableName t) \<noteq> []" and "Columns t \<noteq> []"
  shows "((\<exists>sql. BuildMSSQLDDL t = Inr sql) \<longleftrightarrow>
      (\<forall>c \<in> set (Columns t). TrimSpace (Name c) \<noteq> [] \<and> ToUpper (TrimSpace (Type c)) \<in> set supported_types)) \<and>
    (\<forall>ls. list_all2 (\<lambda>c l. columnDDL c = Inr l) (Columns t) ls \<longrightarrow>
      BuildMSSQLDDL t = Inr (''CREATE TABLE '' @ TableName t @ '' ('' @ newline @ join_lines ls @ '')''))"
  using BuildMSSQLDDL_iff [OF assms] BuildMSSQLDDL_lines [OF assms] by blast

theorem BuildMSSQLDDL_spec_witness:
  "BuildMSSQLDDL \<lparr>TableName = ''t'', Columns = [ex_qty, ex_qty]\<rparr> =
     Inr (''CREATE TABLE t ('' @ newline @ ''  qty INT,'' @ newline @ ''  qty INT'' @ newline @ '')'')"
proof -
  let ?t = "\<lparr>TableName = ''t'', Columns = [ex_qty, ex_qty]\<rparr>"
  have "TrimSpace (TableName ?t) \<noteq> []" "columnDDL ex_qty = Inr ''qty INT''" by code_simp+
  with BuildMSSQLDDL_spec [of ?t] show ?thesis
    by (auto simp: join_lines_def dest!: spec [of _ "[''qty INT'', ''qty INT'']"])
qed

text \<open>The drop-down list offers only types that a line can be made of.\<close>

lemma FieldTypes_supported: "t \<in> set FieldTypes \<Longrightarrow> ToUpper (TrimSpace t) \<in> set supported_types"
proof -
  assume t: "t \<in> set FieldTypes"
  have "list_all (\<lambda>t. t \<noteq> [] \<and> is_word (hd t) \<and> is_word (last t) \<and> ascii t \<and> map ascii_upper t = t \<and> t \<in> set supported_types) FieldTypes"
    by (simp add: FieldTypes_def supported_types_def is_word_def ascii_def)
  with t show ?thesis by (simp add: list_all_iff TrimSpace_word ToUpper_ascii)
qed

lemma audit_supported:
  "\<forall>c \<in> set defaultAuditColumns. TrimSpace (Name c) \<noteq> [] \<and> ToUpper (TrimSpace (Type c)) \<in> set supported_types"
proof -
  have "list_all (\<lambda>c. TrimSpace (Name c) \<noteq> [] \<and> ToUpper (TrimSpace (Type c)) \<in> set supported_types) defaultAuditColumns"
    by code_simp
  then show ?thesis by (simp add: list_all_iff)
qed

text \<open>C35: The drop-down lists and the generator fit together: a table read from a workbook whose types were all chosen from the list of the drop-down always has a statement, whatever its lengths, flags and defaults; and a table without a statement has a column of its own with a type the generator does not know.\<close>

theorem listed_types_have_statements:
  assumes "ReadFile f = Inr tables" and "t \<in> set tables"
  shows "((\<forall>c \<in> set (drop 6 (Columns t)). Type c \<in> set FieldTypes) \<longrightarrow> (\<exists>sql. BuildMSSQLDDL t = Inr sql)) \<and>
    ((\<nexists>sql. BuildMSSQLDDL t = Inr sql) \<longrightarrow>
      (\<exists>c \<in> set (drop 6 (Columns t)). ToUpper (TrimSpace (Type c)) \<notin> set supported_types))"
proof -
  obtain new where new: "TrimSpace (TableName t) \<noteq> []" "Columns t = defaultAuditColumns @ new" "list_all user_column new"
    using ReadFile_table_ok [OF assms] by (auto simp: table_ok_def)
  have six: "length defaultAuditColumns = 6" by (simp add: defaultAuditColumns_def)
  have "(\<exists>sql. BuildMSSQLDDL t = Inr sql) \<longleftrightarrow> (\<forall>c \<in> set new. ToUpper (TrimSpace (Type c)) \<in> set supported_types)"
  proof -
    have ne: "Columns t \<noteq> []" using six new(2) by auto
    show ?thesis
      using BuildMSSQLDDL_iff [OF new(1) ne] audit_supported new(3) by (auto simp: new(2) list_all_iff user_column_def)
  qed
  then show ?thesis using FieldTypes_supported six by (auto simp: new(2))
qed

theorem listed_types_have_statements_witness:
  "\<exists>sql. BuildMSSQLDDL \<lparr>TableName = ''t'', Columns = defaultAuditColumns @ [ex_qty]\<rparr> = Inr sql"
proof -
  have "drop 6 (Columns \<lparr>TableName = ''t'', Columns = defaultAuditColumns @ [ex_qty]\<rparr>) = [ex_qty]"
    by (simp add: defaultAuditColumns_def)
  moreover have "Type ex_qty \<in> set FieldTypes" by (simp add: ex_qty_def no_column_def FieldTypes_def)
  ultimately show ?thesis
    using listed_types_have_statements [OF ex_workbook, of "\<lparr>TableName = ''t'', Columns = defaultAuditColumns @ [ex_qty]\<rparr>"]
    by simp
qed

subsection \<open>Defaults\<close>

text \<open>Reading the inside of a quoted literal back: a doubled quote is a quote, a single one would end it.\<close>

fun unquote :: "string \<Rightarrow> string option" where
  "unquote [] = Some []"
| "unquote [c] = (if c = CHR 0x27 then None else Some [c])"
| "unquote (c # d # s) =
     (if c = CHR 0x27 then (if d = CHR 0x27 then map_option ((#) c) (unquote s) else None)
      else map_option ((#) c) (unquote (d # s)))"

lemma ReplaceAll_char: "ReplaceAll s [q] new = concat (map (\<lambda>c. if c = q then new else [c]) s)"
proof (induction s)
  case Nil
  then show ?case by (subst ReplaceAll.simps) simp
next
  case (Cons c s)
  then show ?case by (subst ReplaceAll.simps) auto
qed

lemma unquote_Cons: "c \<noteq> CHR 0x27 \<Longrightarrow> unquote (c # s) = map_option ((#) c) (unquote s)"
  by (cases s) auto

lemma unquote_doubled: "unquote (ReplaceAll s quote (quote @ quote)) = Some s"
  unfolding ReplaceAll_char by (induction s) (simp_all add: unquote_Cons)

text \<open>C27: A text default that is neither a number nor already quoted becomes one complete Unicode literal whose value is the default, whatever quotes it contains.\<close>

theorem text_default_is_literal:
  assumes "ToUpper typ \<in> {''NVARCHAR'', ''VARCHAR'', ''TEXT''}"
    and "\<not> HasPrefix (TrimSpace def) (CHR ''N'' # quote)" and "\<not> HasPrefix (TrimSpace def) quote" and "\<not> ParseFloat_ok (TrimSpace def)"
  shows "\<exists>body. normalizeDefault typ def = ''N'' @ quote @ body @ quote \<and> unquote body = Some (TrimSpace def)"
proof -
  have "ToUpper typ \<noteq> ''BIT'' \<and> ToUpper typ \<noteq> ''BOOLEAN'' \<and> ToUpper typ \<noteq> ''BOOL''" using assms(1) by auto
  moreover have "ToUpper typ = ''NVARCHAR'' \<or> ToUpper typ = ''VARCHAR'' \<or> ToUpper typ = ''TEXT''" using assms(1) by simp
  ultimately have "normalizeDefault typ def = ''N'' @ quote @ ReplaceAll (TrimSpace def) quote (quote @ quote) @ quote"
    using assms(2-4) by (simp add: normalizeDefault_def Let_def)
  with unquote_doubled show ?thesis by blast
qed

theorem text_default_is_literal_witness:
  "\<exists>body. normalizeDefault ''TEXT'' [CHR ''o'', CHR 0x27, CHR ''k''] = ''N'' @ quote @ body @ quote \<and>
     unquote body = Some [CHR ''o'', CHR 0x27, CHR ''k'']"
proof -
  let ?d = "[CHR ''o'', CHR 0x27, CHR ''k'']"
  have t: "TrimSpace ?d = ?d" by (simp add: TrimSpace_word is_word_def)
  have "\<not> ParseFloat_ok ?d" by code_simp
  moreover have "ToUpper ''TEXT'' = ''TEXT''" by (simp add: ToUpper_ascii ascii_def)
  ultimately show ?thesis
    using text_default_is_literal [of "''TEXT''" ?d] by (simp add: t HasPrefix_def)
qed

text \<open>A BIT column with default 1 is right for SQL Server and wrong for PostgreSQL: the translation of its line adds a default of its own and keeps the old one, so the column has two.\<close>

theorem bit_default_one_twice:
  "columnDDL (no_column\<lparr>Name := ''is_on'', Type := ''BIT'', NotNull := True, Default := ''1''\<rparr>) = Inr ''is_on BIT NOT NULL DEFAULT 1'' \<and>
   ConvertDDL postgresDialect ''is_on BIT NOT NULL DEFAULT 1'' = ''is_on BOOLEAN NOT NULL DEFAULT FALSE DEFAULT 1''"
proof
  show "columnDDL (no_column\<lparr>Name := ''is_on'', Type := ''BIT'', NotNull := True, Default := ''1''\<rparr>) = Inr ''is_on BIT NOT NULL DEFAULT 1''"
    by code_simp
  show "ConvertDDL postgresDialect ''is_on BIT NOT NULL DEFAULT 1'' = ''is_on BOOLEAN NOT NULL DEFAULT FALSE DEFAULT 1''"
    by code_simp
qed

end
