(* ===== verification/Db.thy ===== *)
theory Db
  imports Dialect
begin

text \<open>
  \<open>gobackendkit/db\<close>: one interface over PostgreSQL and SQL Server. The drivers are libraries: what a
  driver does with a statement is a function of the statement and its arguments, a parameter of the
  model. What is modelled is what reaches the driver: the connection string, and each statement after
  the dialect and the placeholders have been converted.
\<close>

subsection \<open>The kind of database\<close>

definition DBTypePostgreSQL :: string where "DBTypePostgreSQL = ''postgresql''"
definition DBTypeSQLServer :: string where "DBTypeSQLServer = ''sqlserver''"

record db_config =
  Host :: string
  Port :: i64
  User :: string
  Password :: string
  DBName :: string

text \<open>The package variables of \<open>db\<close> and \<open>dialect\<close>.\<close>

record kit_state =
  definesDBType :: string
  currentKind :: string

definition initial_kit :: kit_state where
  "initial_kit = \<lparr>definesDBType = [], currentKind = initial_kind\<rparr>"

definition SetKind :: "string \<Rightarrow> kit_state \<Rightarrow> kit_state" where
  "SetKind kind k = k\<lparr>currentKind := kind\<rparr>"

definition SetDBType :: "string \<Rightarrow> kit_state \<Rightarrow> kit_state" where
  "SetDBType dbType k = SetKind dbType (k\<lparr>definesDBType := dbType\<rparr>)"

definition GetDBType :: "kit_state \<Rightarrow> string" where
  "GetDBType k = (if definesDBType k = [] then DBTypePostgreSQL else definesDBType k)"

definition db_IsPostgreSQL :: "kit_state \<Rightarrow> bool" where
  "db_IsPostgreSQL k \<longleftrightarrow> GetDBType k = DBTypePostgreSQL"

definition db_IsSQLServer :: "kit_state \<Rightarrow> bool" where
  "db_IsSQLServer k \<longleftrightarrow> GetDBType k = DBTypeSQLServer"

subsection \<open>Placeholders\<close>

definition placeholderRegex :: rx where
  "placeholderRegex = RSeq (RLit CHR ''$'') (RGroup 1 (RPlus RDigit))"

definition convertPlaceholders :: "string \<Rightarrow> string" where
  "convertPlaceholders query = ReplaceAllStringFunc placeholderRegex query (\<lambda>m.
     let numStr = drop 1 m in if Atoi numStr \<noteq> None then ''@p'' @ numStr else m)"

definition convertPlaceholdersForPostgres :: "string \<Rightarrow> string" where
  "convertPlaceholdersForPostgres query = query"

definition ConvertQuery :: "kit_state \<Rightarrow> string \<Rightarrow> string" where
  "ConvertQuery k query = (if db_IsSQLServer k then convertPlaceholders query else convertPlaceholdersForPostgres query)"

definition ConvertQueryWithDBType :: "string \<Rightarrow> string \<Rightarrow> string" where
  "ConvertQueryWithDBType query dbType =
     (if dbType = DBTypeSQLServer then convertPlaceholders query else convertPlaceholdersForPostgres query)"

subsection \<open>Connecting\<close>

definition fmt_d :: "i64 \<Rightarrow> string" where "fmt_d n = signed_decimal (sint n)"

definition psqlInfo :: "db_config \<Rightarrow> string" where
  "psqlInfo c = ''host='' @ Host c @ '' port='' @ fmt_d (Port c) @ '' user='' @ User c @ '' password='' @ Password c @
     '' dbname='' @ DBName c @ '' sslmode=disable''"

definition connString :: "db_config \<Rightarrow> string" where
  "connString c =
     (if User c = [] \<and> Password c = []
      then ''server='' @ Host c @ '';port='' @ fmt_d (Port c) @ '';database='' @ DBName c @ '';trusted_connection=yes;encrypt=disable''
      else ''server='' @ Host c @ '';port='' @ fmt_d (Port c) @ '';user id='' @ User c @ '';password='' @ Password c @
        '';database='' @ DBName c @ '';encrypt=disable'')"

text \<open>A connection is known by its type. \<open>opens\<close> says whether the driver accepts a connection string and
  \<open>pings\<close> whether the test of the connection succeeds.\<close>

datatype database = PostgresDB | MssqlDB

datatype db_error = CreateFailed | PingFailed | UnsupportedDBType string

fun db_GetDBType :: "database \<Rightarrow> string" where
  "db_GetDBType PostgresDB = DBTypePostgreSQL"
| "db_GetDBType MssqlDB = DBTypeSQLServer"

definition newPostgresDB :: "(string \<Rightarrow> bool) \<Rightarrow> (string \<Rightarrow> bool) \<Rightarrow> db_config \<Rightarrow> db_error + database" where
  "newPostgresDB opens pings c =
     (if \<not> opens (psqlInfo c) then Inl CreateFailed
      else if \<not> pings (psqlInfo c) then Inl PingFailed else Inr PostgresDB)"

definition newMSSQLDB :: "(string \<Rightarrow> bool) \<Rightarrow> (string \<Rightarrow> bool) \<Rightarrow> db_config \<Rightarrow> db_error + database" where
  "newMSSQLDB opens pings c =
     (if \<not> opens (connString c) then Inl CreateFailed
      else if \<not> pings (connString c) then Inl PingFailed else Inr MssqlDB)"

definition NewDB :: "(string \<Rightarrow> bool) \<Rightarrow> (string \<Rightarrow> bool) \<Rightarrow> string \<Rightarrow> db_config \<Rightarrow> db_error + database" where
  "NewDB opens pings dbType c =
     (if dbType = DBTypePostgreSQL then newPostgresDB opens pings c
      else if dbType = DBTypeSQLServer then newMSSQLDB opens pings c
      else Inl (UnsupportedDBType dbType))"

definition InitDB :: "(string \<Rightarrow> bool) \<Rightarrow> (string \<Rightarrow> bool) \<Rightarrow> kit_state \<Rightarrow> db_config \<Rightarrow> database option" where
  "InitDB opens pings k c =
     (let dbType = (if definesDBType k \<noteq> [] then definesDBType k else DBTypePostgreSQL)
      in case NewDB opens pings dbType c of Inl _ \<Rightarrow> None | Inr d \<Rightarrow> Some d)"

subsection \<open>Statements\<close>

text \<open>What is sent for a statement; \<open>Exec\<close>, \<open>Query\<close> and \<open>QueryRow\<close> send the same and differ in the
  function of the driver that they call. A driver maps its state, a statement and the arguments to an error
  or a result.\<close>

definition postgres_sent :: "string \<Rightarrow> string" where
  "postgres_sent query = Render (For PostgreSQL) query"

definition mssql_sent :: "string \<Rightarrow> string" where
  "mssql_sent query = convertPlaceholders (Render (For SQLServer) query)"

fun sent :: "database \<Rightarrow> string \<Rightarrow> string" where
  "sent PostgresDB query = postgres_sent query"
| "sent MssqlDB query = mssql_sent query"

type_synonym ('s, 'arg, 'r) driver = "'s \<Rightarrow> string \<Rightarrow> 'arg list \<Rightarrow> 's \<times> (string + 'r)"

definition postgres_call :: "('s, 'arg, 'r) driver \<Rightarrow> 's \<Rightarrow> string \<Rightarrow> 'arg list \<Rightarrow> 's \<times> (string + 'r)" where
  "postgres_call drv s query args = drv s (postgres_sent query) args"

definition mssql_call :: "('s, 'arg, 'r) driver \<Rightarrow> 's \<Rightarrow> string \<Rightarrow> 'arg list \<Rightarrow> 's \<times> (string + 'r)" where
  "mssql_call drv s query args = drv s (mssql_sent query) args"

fun db_call :: "('s, 'arg, 'r) driver \<Rightarrow> database \<Rightarrow> 's \<Rightarrow> string \<Rightarrow> 'arg list \<Rightarrow> 's \<times> (string + 'r)" where
  "db_call drv PostgresDB s query args = postgres_call drv s query args"
| "db_call drv MssqlDB s query args = mssql_call drv s query args"

lemma db_call_sent: "db_call drv db s query args = drv s (sent db query) args"
  by (cases db) (simp_all add: postgres_call_def mssql_call_def)

subsection \<open>Table names\<close>

datatype names_error = QueryFailed string | ScanFailed string | IterateFailed string

text \<open>The rows of a result: each scans to a name or fails; then the error of the iteration, if any.\<close>

fun scan_names :: "(string + string) list \<Rightarrow> string option \<Rightarrow> string list \<Rightarrow> names_error + string list" where
  "scan_names [] err tableNames = (case err of Some e \<Rightarrow> Inl (IterateFailed e) | None \<Rightarrow> Inr tableNames)"
| "scan_names (Inl e # rows) err tableNames = Inl (ScanFailed e)"
| "scan_names (Inr tableName # rows) err tableNames = scan_names rows err (tableNames @ [tableName])"

definition indent :: "string list \<Rightarrow> string" where
  "indent ls = newline @ concat (map (\<lambda>l. [CHR 0x09, CHR 0x09, CHR 0x09] @ l @ newline) ls) @ [CHR 0x09, CHR 0x09]"

definition names_query :: "database \<Rightarrow> string" where
  "names_query d =
     (if db_GetDBType d = DBTypeSQLServer
      then indent [''SELECT TABLE_NAME'', ''FROM INFORMATION_SCHEMA.TABLES'',
        ''WHERE TABLE_TYPE = '' @ quote @ ''BASE TABLE'' @ quote, ''ORDER BY TABLE_NAME'']
      else indent [''SELECT table_name'', ''FROM information_schema.tables'',
        ''WHERE table_schema = '' @ quote @ ''public'' @ quote,
        ''  AND table_type = '' @ quote @ ''BASE TABLE'' @ quote, ''ORDER BY table_name''])"

definition GetTableNames ::
    "('s, 'arg, (string + string) list \<times> string option) driver \<Rightarrow> database \<Rightarrow> 's \<Rightarrow> 's \<times> (names_error + string list)" where
  "GetTableNames drv d s =
     (case db_call drv d s (names_query d) [] of
        (s', Inl e) \<Rightarrow> (s', Inl (QueryFailed e))
      | (s', Inr (rows, err)) \<Rightarrow> (s', scan_names rows err []))"

subsection \<open>Notifications\<close>

text \<open>What one round of the listening loop meets: the context is done; the wait ends with a notification,
  with none, at its deadline, or with an error, with the context done or not by then.\<close>

datatype round = Done | Notified string | NoNotification | TimedOut | WaitFailed bool

text \<open>The payloads handed to the callback, until the loop returns or no round is left.\<close>

fun listen_loop :: "bool \<Rightarrow> round list \<Rightarrow> string list" where
  "listen_loop hasCallback [] = []"
| "listen_loop hasCallback (Done # rs) = []"
| "listen_loop hasCallback (Notified payload # rs) =
     (if hasCallback then payload # listen_loop hasCallback rs else listen_loop hasCallback rs)"
| "listen_loop hasCallback (NoNotification # rs) = listen_loop hasCallback rs"
| "listen_loop hasCallback (TimedOut # rs) = listen_loop hasCallback rs"
| "listen_loop hasCallback (WaitFailed ctxDone # rs) = (if ctxDone then [] else listen_loop hasCallback rs)"

text \<open>\<open>exec\<close> is the outcome of acquiring a connection and of the statement \<open>LISTEN\<close>. The statement and the
  calls \<open>onChange(channel, payload, _)\<close> in order.\<close>

definition ListenForNotifications ::
    "database \<Rightarrow> bool \<Rightarrow> (string \<Rightarrow> bool) \<Rightarrow> string \<Rightarrow> bool \<Rightarrow> round list \<Rightarrow> (string \<times> string) list" where
  "ListenForNotifications d acquired exec channel hasCallback rs =
     (if db_GetDBType d \<noteq> DBTypePostgreSQL then []
      else if \<not> acquired then []
      else if \<not> exec (''LISTEN '' @ channel) then []
      else map (\<lambda>p. (channel, p)) (listen_loop hasCallback rs))"

end
