(* ===== verification/Auth.thy ===== *)
theory Auth
  imports Go_Strings
begin

text \<open>
  \<open>gobackendkit/auth\<close>: the authentication middleware. A request is what the code reads of it: header
  fields and query parameters as functions of their names, and the principal stored in its context. The
  authenticator, the writer of refusals and the hook after authentication are injected by the
  application; they are parameters.
\<close>

subsection \<open>Principals and contexts\<close>

text \<open>\<open>Extra\<close> is not interpreted by the code; its type is a parameter. A context is the principal in it.\<close>

record 'x principal =
  UserID :: i64
  Login :: string
  Token :: string
  Extra :: 'x

type_synonym 'x auth_context = "'x principal option"

definition WithPrincipal :: "'x auth_context \<Rightarrow> 'x principal \<Rightarrow> 'x auth_context" where
  "WithPrincipal ctx p = Some p"

definition PrincipalFromContext :: "'x auth_context \<Rightarrow> 'x principal option" where
  "PrincipalFromContext ctx = (case ctx of None \<Rightarrow> None | Some p \<Rightarrow> if sint (UserID p) \<le> 0 then None else Some p)"

definition UserIDFromContext :: "'x auth_context \<Rightarrow> i64 option" where
  "UserIDFromContext ctx = (case PrincipalFromContext ctx of None \<Rightarrow> None | Some p \<Rightarrow> Some (UserID p))"

subsection \<open>Errors\<close>

text \<open>An error is a refusal with a message, by a pointer that may be nil, or another error, which may wrap
  one. \<open>errors.As\<close> finds the first refusal of the chain.\<close>

datatype auth_error =
    UnauthorizedError "string option"
  | OtherError string "auth_error option"

fun as_unauthorized :: "auth_error \<Rightarrow> string option option" where
  "as_unauthorized (UnauthorizedError m) = Some m"
| "as_unauthorized (OtherError _ None) = None"
| "as_unauthorized (OtherError _ (Some e)) = as_unauthorized e"

definition ErrUnauthorized :: string where "ErrUnauthorized = ''unauthorized''"

definition unauthorized_text :: "string option \<Rightarrow> string" where
  "unauthorized_text e = (case e of None \<Rightarrow> ErrUnauthorized | Some m \<Rightarrow> if TrimSpace m = [] then ErrUnauthorized else m)"

definition zh_unauthorized :: string where
  "zh_unauthorized = [CHR 0xE6, CHR 0x9C, CHR 0xAA, CHR 0xE6, CHR 0x8E, CHR 0x88, CHR 0xE6, CHR 0x9D, CHR 0x83]"

definition Unauthorized :: "string \<Rightarrow> auth_error" where
  "Unauthorized message =
     (let m = TrimSpace message in UnauthorizedError (Some (if m = [] then zh_unauthorized else m)))"

subsection \<open>Tokens\<close>

record 'x request =
  headers :: "string \<Rightarrow> string"
  params :: "string \<Rightarrow> string"
  context_of :: "'x auth_context"

definition ExtractToken :: "'x request option \<Rightarrow> string" where
  "ExtractToken r =
     (case r of
        None \<Rightarrow> []
      | Some r \<Rightarrow>
          (let token = TrimSpace (headers r ''Authorization'');
               bearer = TrimSpace (TrimPrefix (TrimPrefix token ''Bearer '') ''bearer '');
               q = TrimSpace (params r ''token'')
           in if token \<noteq> [] \<and> bearer \<noteq> [] then bearer
              else if q \<noteq> [] then q
              else TrimSpace (headers r ''X-Token'')))"

subsection \<open>The middleware\<close>

text \<open>What a refusal writes is a function of its message. \<open>AuthM\<close> is \<^const>\<open>None\<close> for a nil authenticator.\<close>

record ('x, 'w) middleware =
  AuthM :: "(string \<Rightarrow> auth_error + 'x principal) option"
  Write :: "string \<Rightarrow> 'w"
  After :: "('x request \<Rightarrow> 'x principal \<Rightarrow> 'x request option) option"

type_synonym ('x, 'w) middleware_option = "('x, 'w) middleware \<Rightarrow> ('x, 'w) middleware"

definition WithUnauthorizedWriter :: "(string \<Rightarrow> 'w) option \<Rightarrow> ('x, 'w) middleware_option" where
  "WithUnauthorizedWriter w m = (case w of None \<Rightarrow> m | Some w \<Rightarrow> m\<lparr>Write := w\<rparr>)"

definition WithAfterAuth :: "('x request \<Rightarrow> 'x principal \<Rightarrow> 'x request option) option \<Rightarrow> ('x, 'w) middleware_option" where
  "WithAfterAuth f m = m\<lparr>After := f\<rparr>"

definition NewMiddleware ::
    "(string \<Rightarrow> 'w) \<Rightarrow> (string \<Rightarrow> auth_error + 'x principal) option \<Rightarrow> ('x, 'w) middleware_option list \<Rightarrow> ('x, 'w) middleware go" where
  "NewMiddleware defaultUnauthorizedWriter authenticator opts =
     (let m = fold (\<lambda>opt m. opt m) opts \<lparr>AuthM = authenticator, Write = defaultUnauthorizedWriter, After = None\<rparr>
      in if AuthM m = None then Inl (Explicit ''gobackendkit/auth: Authenticator is required'') else Inr m)"

text \<open>A refusal, as the message written, or the request that the next handler gets.\<close>

datatype ('x, 'w) outcome = Refused 'w | Next "'x request"

text \<open>The texts of the refusals, in UTF-8.\<close>

definition msg_no_token :: string where
  "msg_no_token = [CHR 0xE6, CHR 0x9C, CHR 0xAA, CHR 0xE6, CHR 0x8F, CHR 0x90, CHR 0xE4, CHR 0xBE, CHR 0x9B, CHR 0xE8, CHR 0xAE, CHR 0xA4,
     CHR 0xE8, CHR 0xAF, CHR 0x81] @ ''token''"

definition token_invalid :: string where
  "token_invalid = ''token'' @ [CHR 0xE6, CHR 0x97, CHR 0xA0, CHR 0xE6, CHR 0x95, CHR 0x88, CHR 0xE6, CHR 0x88, CHR 0x96]"

definition msg_invalid :: string where
  "msg_invalid = token_invalid @ [CHR 0xE5, CHR 0xB7, CHR 0xB2, CHR 0xE8, CHR 0xBF, CHR 0x87, CHR 0xE6, CHR 0x9C, CHR 0x9F]"

definition msg_no_user :: string where
  "msg_no_user = token_invalid @ [CHR 0xE7, CHR 0x94, CHR 0xA8, CHR 0xE6, CHR 0x88, CHR 0xB7, CHR 0xE4, CHR 0xB8, CHR 0x8D,
     CHR 0xE5, CHR 0xAD, CHR 0x98, CHR 0xE5, CHR 0x9C, CHR 0xA8]"

text \<open>A nil \<open>*UnauthorizedError\<close> is found by \<open>errors.As\<close> too; reading its message panics.\<close>

definition refusal_message :: "auth_error \<Rightarrow> string go" where
  "refusal_message err =
     (case as_unauthorized err of
        None \<Rightarrow> Inr msg_invalid
      | Some None \<Rightarrow> Inl NilPointer
      | Some (Some m) \<Rightarrow> Inr (if m \<noteq> [] then m else msg_invalid))"

definition Handler :: "('x, 'w) middleware \<Rightarrow> 'x request \<Rightarrow> ('x, 'w) outcome go" where
  "Handler m r =
     (let token = ExtractToken (Some r) in
      if token = [] then Inr (Refused (Write m msg_no_token))
      else
        (case AuthM m of
           None \<Rightarrow> Inl NilPointer
         | Some authenticate \<Rightarrow>
             (case authenticate token of
                Inl err \<Rightarrow> go_bind (refusal_message err) (\<lambda>msg. Inr (Refused (Write m msg)))
              | Inr p \<Rightarrow>
                  (if sint (UserID p) \<le> 0 then Inr (Refused (Write m msg_no_user))
                   else
                     (let p = (if Token p = [] then p\<lparr>Token := token\<rparr> else p);
                          r = r\<lparr>context_of := WithPrincipal (context_of r) p\<rparr>
                      in Inr (Next
                           (case After m of
                              None \<Rightarrow> r
                            | Some after \<Rightarrow> (case after r p of None \<Rightarrow> r | Some nr \<Rightarrow> nr))))))))"

text \<open>The default refusal: the status, the content type, and the two fields of the body.\<close>

definition defaultUnauthorizedWriter :: "string \<Rightarrow> nat \<times> string \<times> (string \<times> string) list" where
  "defaultUnauthorizedWriter message =
     (401, ''application/json; charset=utf-8'', [(''ok'', ''false''), (''message'', message)])"

subsection \<open>Who gets through\<close>

text \<open>C30: The next handler is called exactly for requests with a token that the authenticator accepts as that of a user with a positive number. The request it gets has that user in its context, with a token; a hook may then replace the request.\<close>

theorem only_authenticated_requests_pass:
  assumes "AuthM m = Some authenticate"
  shows "Handler m r = Inr (Next r') \<longleftrightarrow>
    (\<exists>p q r1. ExtractToken (Some r) \<noteq> [] \<and> authenticate (ExtractToken (Some r)) = Inr p \<and> 0 < sint (UserID p) \<and>
       q = p\<lparr>Token := if Token p = [] then ExtractToken (Some r) else Token p\<rparr> \<and> r1 = r\<lparr>context_of := Some q\<rparr> \<and>
       PrincipalFromContext (context_of r1) = Some q \<and> UserIDFromContext (context_of r1) = Some (UserID p) \<and> Token q \<noteq> [] \<and>
       r' = (case After m of None \<Rightarrow> r1 | Some after \<Rightarrow> (case after r1 q of None \<Rightarrow> r1 | Some nr \<Rightarrow> nr)))"
proof (cases "ExtractToken (Some r) = []")
  case True
  then show ?thesis by (simp add: Handler_def)
next
  case False
  show ?thesis
  proof (cases "authenticate (ExtractToken (Some r))")
    case (Inl err)
    then show ?thesis using False assms by (simp add: Handler_def Let_def go_bind_def split: sum.splits)
  next
    case (Inr p)
    define q where "q = (if Token p = [] then p\<lparr>Token := ExtractToken (Some r)\<rparr> else p)"
    define r1 where "r1 = r\<lparr>context_of := Some q\<rparr>"
    have q: "q = p\<lparr>Token := if Token p = [] then ExtractToken (Some r) else Token p\<rparr>" "UserID q = UserID p" "Token q \<noteq> []"
      using False by (simp_all add: q_def)
    have "Handler m r = Inr (if sint (UserID p) \<le> 0 then Refused (Write m msg_no_user)
        else Next (case After m of None \<Rightarrow> r1 | Some after \<Rightarrow> (case after r1 q of None \<Rightarrow> r1 | Some nr \<Rightarrow> nr)))"
      using False Inr assms by (simp add: Handler_def Let_def WithPrincipal_def q_def r1_def cong: option.case_cong)
    moreover have "PrincipalFromContext (context_of r1) = Some q \<and> UserIDFromContext (context_of r1) = Some (UserID p)"
      if "0 < sint (UserID p)"
      using that q(2) by (simp add: UserIDFromContext_def PrincipalFromContext_def r1_def)
    ultimately show ?thesis
      using False Inr q(1,3) r1_def by (cases "sint (UserID p) \<le> 0") (simp, auto)
  qed
qed

definition ex_middleware :: "(unit, string) middleware" where
  "ex_middleware = \<lparr>AuthM = Some (\<lambda>t. if t = ''good'' then Inr \<lparr>UserID = 7, Login = ''u7'', Token = [], Extra = ()\<rparr>
      else Inl (Unauthorized ''bad'')), Write = (\<lambda>m. m), After = None\<rparr>"

definition ex_request :: "unit request" where
  "ex_request = \<lparr>headers = (\<lambda>h. if h = ''X-Token'' then ''good'' else []), params = (\<lambda>_. []), context_of = None\<rparr>"

lemma ex_token: "ExtractToken (Some ex_request) = ''good''"
  by code_simp

theorem only_authenticated_requests_pass_witness:
  "Handler ex_middleware ex_request =
     Inr (Next (ex_request\<lparr>context_of := Some \<lparr>UserID = 7, Login = ''u7'', Token = ''good'', Extra = ()\<rparr>\<rparr>))"
  using only_authenticated_requests_pass [of ex_middleware "the (AuthM ex_middleware)" ex_request
      "ex_request\<lparr>context_of := Some \<lparr>UserID = 7, Login = ''u7'', Token = ''good'', Extra = ()\<rparr>\<rparr>"]
  by (simp add: ex_middleware_def ex_token UserIDFromContext_def PrincipalFromContext_def)

end
