(* ===== verification/Redis_Cache.thy ===== *)
theory Redis_Cache
  imports Go_Strings Decimal
begin

text \<open>
  \<open>gobackendkit/redis/redis_cache.go\<close>: the keys of the table cache and their deletion by pattern. The
  Redis server is a service: what \<open>SCAN\<close> and \<open>DEL\<close> do is a parameter, and so is the matching of patterns,
  which the server does. The loop over a scan ends when the server says so; it is a partial
  function, whose value \<^const>\<open>None\<close> is not returning.
\<close>

subsection \<open>Keys\<close>

definition FindTableKeyPrefix :: string where "FindTableKeyPrefix = ''ft:''"

definition minute :: int where "minute = 60 * 10 ^ 9"
definition FindTableTTLBase :: int where "FindTableTTLBase = 10 * minute"
definition FindTableTTLJitter :: int where "FindTableTTLJitter = 2 * minute"

text \<open>\<open>rnd n\<close> is what \<open>rand.Int63n(n)\<close> returns.\<close>

definition FindTableTTL :: "(int \<Rightarrow> int) \<Rightarrow> int" where
  "FindTableTTL rnd = (let jitter = (if FindTableTTLJitter > 0 then rnd FindTableTTLJitter else 0) in FindTableTTLBase + jitter)"

definition FindTableAllKey :: "string \<Rightarrow> string" where
  "FindTableAllKey tableName = FindTableKeyPrefix @ tableName @ '':all''"

definition FindTableItemKey :: "string \<Rightarrow> string \<Rightarrow> string \<Rightarrow> string" where
  "FindTableItemKey tableName field escapedValue =
     FindTableKeyPrefix @ tableName @ '':item:'' @ field @ '':'' @ escapedValue"

definition FindTablePageKey :: "string \<Rightarrow> int \<Rightarrow> int \<Rightarrow> string" where
  "FindTablePageKey tableName page pageSize =
     FindTableKeyPrefix @ tableName @ '':page:'' @ signed_decimal page @ '':'' @ signed_decimal pageSize"

subsection \<open>Deleting by pattern\<close>

text \<open>The client: each call gives the new state of the server and an error or a result.\<close>

record 's redis =
  scan :: "'s \<Rightarrow> u64 \<Rightarrow> string \<Rightarrow> 's \<times> (string + string list \<times> u64)"
  del :: "'s \<Rightarrow> string list \<Rightarrow> 's \<times> (string + int)"

text \<open>The state of the server, the number of deleted keys, and the error.\<close>

type_synonym 's deletion = "'s \<times> int \<times> string option"

partial_function (option) scan_loop :: "'s redis \<Rightarrow> string \<Rightarrow> u64 \<Rightarrow> int \<Rightarrow> 's \<Rightarrow> 's deletion option" where
  "scan_loop rc pattern cursor deleted s =
     (case scan rc s cursor pattern of
        (s1, Inl e) \<Rightarrow> Some (s1, deleted, Some e)
      | (s1, Inr (keys, nxt)) \<Rightarrow>
          (if 0 < length keys then
             (case del rc s1 keys of
                (s2, Inl e) \<Rightarrow> Some (s2, deleted, Some e)
              | (s2, Inr n) \<Rightarrow>
                  if nxt = 0 then Some (s2, deleted + n, None) else scan_loop rc pattern nxt (deleted + n) s2)
           else if nxt = 0 then Some (s1, deleted, None) else scan_loop rc pattern nxt deleted s1))"

definition ScanDeleteByPrefix :: "'s redis option \<Rightarrow> string \<Rightarrow> 's \<Rightarrow> 's deletion option" where
  "ScanDeleteByPrefix Client pattern0 s =
     (let pattern = TrimSpace pattern0
      in case Client of
           None \<Rightarrow> Some (s, 0, None)
         | Some rc \<Rightarrow> if pattern = [] then Some (s, 0, None) else scan_loop rc pattern 0 0 s)"

fun clear_patterns :: "'s redis option \<Rightarrow> string list \<Rightarrow> int \<Rightarrow> 's \<Rightarrow> 's deletion option" where
  "clear_patterns Client [] n0 s = Some (s, n0, None)"
| "clear_patterns Client (p # ps) n0 s =
     (case ScanDeleteByPrefix Client p s of
        None \<Rightarrow> None
      | Some (s1, n, Some e) \<Rightarrow> Some (s1, n0 + n, Some e)
      | Some (s1, n, None) \<Rightarrow> clear_patterns Client ps (n0 + n) s1)"

definition ClearFindTableCacheForTable :: "'s redis option \<Rightarrow> string \<Rightarrow> 's \<Rightarrow> 's deletion option" where
  "ClearFindTableCacheForTable Client tableName0 s =
     (let tableName = TrimSpace tableName0
      in if tableName = [] then Some (s, 0, None)
         else clear_patterns Client
           [FindTableKeyPrefix @ tableName @ '':*'', ''findTableNameHandler_'' @ tableName @ ''*'', ''findTable_'' @ tableName @ ''_*'']
           0 s)"

definition ClearAllFindTableCaches :: "'s redis option \<Rightarrow> 's \<Rightarrow> 's deletion option" where
  "ClearAllFindTableCaches Client s =
     clear_patterns Client [FindTableKeyPrefix @ ''*'', ''findTableNameHandler_*'', ''findTable_*''] 0 s"

subsection \<open>What Redis documents\<close>

text \<open>
  \<open>keys\<close> are the keys of the server, \<open>glob\<close> its matching. \<open>SCAN\<close> changes nothing and returns matching keys;
  those that an iteration has still to visit at a cursor (\<open>pend\<close>) are returned now or are still to visit at the
  next one; it starts and ends with cursor 0, and ends, since each call leaves less to do (\<open>todo\<close>).
  \<open>DEL\<close> removes exactly the given keys, counts those that existed, and hinders no iteration.
\<close>

definition redis_contract ::
    "'s redis \<Rightarrow> (string \<Rightarrow> string \<Rightarrow> bool) \<Rightarrow> ('s \<Rightarrow> string set) \<Rightarrow> ('s \<Rightarrow> u64 \<Rightarrow> string set) \<Rightarrow> ('s \<Rightarrow> u64 \<Rightarrow> nat) \<Rightarrow> bool" where
  "redis_contract rc glob keys pend todo \<longleftrightarrow>
     (\<forall>s. finite (keys s) \<and> pend s 0 = keys s) \<and>
     (\<forall>s c p. \<exists>ks nxt. scan rc s c p = (s, Inr (ks, nxt)) \<and> set ks \<subseteq> {k \<in> keys s. glob p k} \<and>
        (if nxt = 0 then {k \<in> pend s c. glob p k} \<subseteq> set ks
         else {k \<in> pend s c. glob p k} \<subseteq> set ks \<union> pend s nxt \<and> todo s nxt < todo s c)) \<and>
     (\<forall>s ks. \<exists>s'. del rc s ks = (s', Inr (int (card (keys s \<inter> set ks)))) \<and> keys s' = keys s - set ks \<and>
        (\<forall>c. pend s c - set ks \<subseteq> pend s' c \<and> todo s' c \<le> todo s c))"

lemma redis_scan:
  assumes "redis_contract rc glob keys pend todo"
  obtains ks nxt where "scan rc s c p = (s, Inr (ks, nxt))" "set ks \<subseteq> {k \<in> keys s. glob p k}"
    "nxt = 0 \<Longrightarrow> {k \<in> pend s c. glob p k} \<subseteq> set ks"
    "nxt \<noteq> 0 \<Longrightarrow> {k \<in> pend s c. glob p k} \<subseteq> set ks \<union> pend s nxt \<and> todo s nxt < todo s c"
proof -
  from assms have "\<exists>ks nxt. scan rc s c p = (s, Inr (ks, nxt)) \<and> set ks \<subseteq> {k \<in> keys s. glob p k} \<and>
        (if nxt = 0 then {k \<in> pend s c. glob p k} \<subseteq> set ks
         else {k \<in> pend s c. glob p k} \<subseteq> set ks \<union> pend s nxt \<and> todo s nxt < todo s c)"
    unfolding redis_contract_def by (elim conjE) (drule spec, drule spec, drule spec, assumption)
  then obtain ks nxt where "scan rc s c p = (s, Inr (ks, nxt))" "set ks \<subseteq> {k \<in> keys s. glob p k}"
    "if nxt = 0 then {k \<in> pend s c. glob p k} \<subseteq> set ks
     else {k \<in> pend s c. glob p k} \<subseteq> set ks \<union> pend s nxt \<and> todo s nxt < todo s c"
    by (elim exE conjE)
  then show thesis by (intro that [of ks nxt]) simp_all
qed

lemma redis_del:
  assumes "redis_contract rc glob keys pend todo"
  obtains s' where "del rc s ks = (s', Inr (int (card (keys s \<inter> set ks))))" "keys s' = keys s - set ks"
    "\<And>c. pend s c - set ks \<subseteq> pend s' c" "\<And>c. todo s' c \<le> todo s c"
proof -
  from assms have "\<exists>s'. del rc s ks = (s', Inr (int (card (keys s \<inter> set ks)))) \<and> keys s' = keys s - set ks \<and>
        (\<forall>c. pend s c - set ks \<subseteq> pend s' c \<and> todo s' c \<le> todo s c)"
    unfolding redis_contract_def by (elim conjE) (drule spec, drule spec, assumption)
  then obtain s' where "del rc s ks = (s', Inr (int (card (keys s \<inter> set ks))))" "keys s' = keys s - set ks"
    "\<forall>c. pend s c - set ks \<subseteq> pend s' c \<and> todo s' c \<le> todo s c"
    by (elim exE conjE)
  then show thesis by (intro that [of s']) simp_all
qed

text \<open>Deleting keys that match, when all that match and are left are still to visit.\<close>

lemma scan_loop_total:
  assumes rc: "redis_contract rc glob keys pend todo"
    and "{k \<in> keys s. glob p k} \<subseteq> pend s c"
  shows "\<exists>s'. scan_loop rc p c d s = Some (s', d + int (card {k \<in> keys s. glob p k}), None) \<and>
    keys s' = {k \<in> keys s. \<not> glob p k}"
  using assms(2)
proof (induction "todo s c" arbitrary: s c d rule: less_induct)
  case less
  obtain ks nxt where sc: "scan rc s c p = (s, Inr (ks, nxt))" "set ks \<subseteq> {k \<in> keys s. glob p k}"
    "nxt = 0 \<Longrightarrow> {k \<in> pend s c. glob p k} \<subseteq> set ks"
    "nxt \<noteq> 0 \<Longrightarrow> {k \<in> pend s c. glob p k} \<subseteq> set ks \<union> pend s nxt \<and> todo s nxt < todo s c"
    by (rule redis_scan [OF rc, of s c p]) (rule that, simp_all)
  obtain s1 where s1: "del rc s ks = (s1, Inr (int (card (keys s \<inter> set ks))))" "keys s1 = keys s - set ks"
    "\<And>c. pend s c - set ks \<subseteq> pend s1 c" "\<And>c. todo s1 c \<le> todo s c"
    by (rule redis_del [OF rc, of s ks]) (rule that, simp_all)
  define t where "t = (if ks = [] then s else s1)"
  have t: "keys t = keys s - set ks" "\<And>c. pend s c - set ks \<subseteq> pend t c" "\<And>c. todo t c \<le> todo s c"
    using s1 by (simp_all add: t_def)
  have fin: "finite (keys s)" using rc by (simp add: redis_contract_def)
  have ksm: "keys s \<inter> set ks = set ks" using sc(2) by blast
  have unf: "scan_loop rc p c d s = (if nxt = 0 then Some (t, d + int (card (set ks)), None)
      else scan_loop rc p nxt (d + int (card (set ks))) t)"
    using sc(1) s1(1) ksm by (subst scan_loop.simps) (auto simp: t_def)
  have split: "{k \<in> keys s. glob p k} = set ks \<union> {k \<in> keys t. glob p k}" "set ks \<inter> {k \<in> keys t. glob p k} = {}"
    using sc(2) t(1) by auto
  have cards: "card {k \<in> keys s. glob p k} = card (set ks) + card {k \<in> keys t. glob p k}"
    unfolding split(1) by (rule card_Un_disjoint) (use fin t(1) split(2) in auto)
  show ?case
  proof (cases "nxt = 0")
    case True
    have "{k \<in> keys t. glob p k} = {}" using sc(3) [OF True] less.prems t(1) by auto
    with True cards have "scan_loop rc p c d s = Some (t, d + int (card {k \<in> keys s. glob p k}), None)"
      by (simp add: unf)
    moreover have "keys t = {k \<in> keys s. \<not> glob p k}" using sc(2) sc(3) [OF True] less.prems t(1) by auto
    ultimately show ?thesis by blast
  next
    case False
    from sc(4) [OF False] t(3) [of nxt] have "todo t nxt < todo s c" by linarith
    moreover have "{k \<in> keys t. glob p k} \<subseteq> pend t nxt"
      using sc(4) [OF False] less.prems t(1,2) by blast
    ultimately obtain s' where "scan_loop rc p nxt (d + int (card (set ks))) t =
        Some (s', (d + int (card (set ks))) + int (card {k \<in> keys t. glob p k}), None)"
      "keys s' = {k \<in> keys t. \<not> glob p k}"
      using less.hyps by blast
    moreover have "{k \<in> keys t. \<not> glob p k} = {k \<in> keys s. \<not> glob p k}" using t(1) sc(2) by auto
    ultimately show ?thesis using False cards by (auto simp: unf)
  qed
qed

end
