(* ===== verification/Env_Config.thy ===== *)
theory Env_Config
  imports Db
begin

text \<open>
  The configuration files of the two programs, \<open>KEY=VALUE\<close> lines: \<open>loadEnvDB\<close> of
  \<open>gobackendkit/cmd/excelddl/main.go\<close> and \<open>loadConfig\<close> of \<open>gobackendkit/examples/quickstart/main.go\<close>.
  They read the lines in the same way and know different keys. The content of the file, or an error, is
  the result of \<open>os.ReadFile\<close>, a parameter.
\<close>

definition quotes :: "char set" where "quotes = {CHR 0x22, CHR 0x27}"

text \<open>A line, as its key and value, or nothing for an empty line, a comment or a line without the sign.\<close>

definition env_entry :: "string \<Rightarrow> (string \<times> string) option" where
  "env_entry line0 =
     (let line = TrimSpace line0
      in if line = [] \<or> HasPrefix line ''#'' \<or> \<not> Contains line ''='' then None
         else (case Cut line CHR ''='' of (k, v) \<Rightarrow> Some (TrimSpace k, Trim (TrimSpace v) quotes)))"

definition default_db_config :: db_config where
  "default_db_config = \<lparr>Host = ''127.0.0.1'', Port = 5432, User = ''postgres'', Password = [], DBName = ''postgres''\<rparr>"

text \<open>The value of a type, in lower case: \<open>postgres\<close> is another name of \<open>postgresql\<close>. Letters outside ASCII keep
  their case here; such a type is unknown in either case, and only the text of the error shows it.\<close>

definition env_db_type :: "string \<Rightarrow> string" where
  "env_db_type v = (let dbType = ToLower v in if dbType = ''postgres'' then ''postgresql'' else dbType)"

definition set_port :: "string \<Rightarrow> db_config \<Rightarrow> db_config" where
  "set_port v cfg = (case Atoi v of Some p \<Rightarrow> cfg\<lparr>Port := word_of_int p\<rparr> | None \<Rightarrow> cfg)"

subsection \<open>The command\<close>

definition env_db_key :: "string \<Rightarrow> string \<Rightarrow> db_config \<times> string \<Rightarrow> db_config \<times> string" where
  "env_db_key k v c =
     (case c of (cfg, dbType) \<Rightarrow>
        if k \<in> {''ERP_DB_HOST'', ''DB_HOST''} then (cfg\<lparr>Host := v\<rparr>, dbType)
        else if k \<in> {''ERP_DB_PORT'', ''DB_PORT''} then (set_port v cfg, dbType)
        else if k \<in> {''ERP_DB_USER'', ''DB_USER''} then (cfg\<lparr>User := v\<rparr>, dbType)
        else if k \<in> {''ERP_DB_PASSWORD'', ''DB_PASSWORD''} then (cfg\<lparr>Password := v\<rparr>, dbType)
        else if k \<in> {''ERP_DB_NAME'', ''DB_NAME''} then (cfg\<lparr>DBName := v\<rparr>, dbType)
        else if k \<in> {''ERP_DB_TYPE'', ''DB_TYPE''} then (cfg, env_db_type v)
        else (cfg, dbType))"

fun env_lines :: "(string \<Rightarrow> string \<Rightarrow> 'c \<Rightarrow> 'c) \<Rightarrow> string list \<Rightarrow> 'c \<Rightarrow> 'c" where
  "env_lines set_key [] c = c"
| "env_lines set_key (line # ls) c =
     (case env_entry line of None \<Rightarrow> env_lines set_key ls c | Some (k, v) \<Rightarrow> env_lines set_key ls (set_key k v c))"

text \<open>The configuration, the type and the error; with an error the defaults are returned beside it.\<close>

definition loadEnvDB :: "(string \<Rightarrow> string + string) \<Rightarrow> string \<Rightarrow> (db_config \<times> string) \<times> string option" where
  "loadEnvDB ReadFile path =
     (case ReadFile path of
        Inl err \<Rightarrow> ((default_db_config, ''postgresql''), Some err)
      | Inr data \<Rightarrow> (env_lines env_db_key (split_at CHR 0x0A data) (default_db_config, ''postgresql''), None))"

subsection \<open>The example\<close>

record quickstart_config =
  qs_db :: db_config
  qs_type :: string
  redisAddr :: string
  redisPass :: string
  redisDB :: i64
  httpAddr :: string

definition default_quickstart_config :: quickstart_config where
  "default_quickstart_config =
     \<lparr>qs_db = default_db_config, qs_type = ''postgresql'', redisAddr = ''127.0.0.1:6379'', redisPass = [], redisDB = 0,
      httpAddr = '':8090''\<rparr>"

definition quickstart_key :: "string \<Rightarrow> string \<Rightarrow> quickstart_config \<Rightarrow> quickstart_config" where
  "quickstart_key k v c =
     (if k \<in> {''DB_HOST'', ''ERP_DB_HOST''} then c\<lparr>qs_db := (qs_db c)\<lparr>Host := v\<rparr>\<rparr>
      else if k \<in> {''DB_PORT'', ''ERP_DB_PORT''} then c\<lparr>qs_db := set_port v (qs_db c)\<rparr>
      else if k \<in> {''DB_USER'', ''ERP_DB_USER''} then c\<lparr>qs_db := (qs_db c)\<lparr>User := v\<rparr>\<rparr>
      else if k \<in> {''DB_PASSWORD'', ''ERP_DB_PASSWORD''} then c\<lparr>qs_db := (qs_db c)\<lparr>Password := v\<rparr>\<rparr>
      else if k \<in> {''DB_NAME'', ''ERP_DB_NAME''} then c\<lparr>qs_db := (qs_db c)\<lparr>DBName := v\<rparr>\<rparr>
      else if k \<in> {''DB_TYPE'', ''ERP_DB_TYPE''} then c\<lparr>qs_type := env_db_type v\<rparr>
      else if k \<in> {''REDIS_ADDR'', ''ERP_REDIS_ADDR''} then c\<lparr>redisAddr := v\<rparr>
      else if k \<in> {''REDIS_PASSWORD'', ''ERP_REDIS_PASSWORD''} then c\<lparr>redisPass := v\<rparr>
      else if k \<in> {''REDIS_DB'', ''ERP_REDIS_DB''} then (case Atoi v of Some n \<Rightarrow> c\<lparr>redisDB := word_of_int n\<rparr> | None \<Rightarrow> c)
      else if k = ''HTTP_ADDR'' then c\<lparr>httpAddr := v\<rparr>
      else c)"

definition loadConfig :: "(string \<Rightarrow> string + string) \<Rightarrow> string \<Rightarrow> quickstart_config \<times> string option" where
  "loadConfig ReadFile path =
     (case ReadFile path of
        Inl err \<Rightarrow> (default_quickstart_config, Some err)
      | Inr data \<Rightarrow> (env_lines quickstart_key (split_at CHR 0x0A data) default_quickstart_config, None))"

subsection \<open>Both read the same database\<close>

text \<open>
  A loader that knows the keys of another: what its key does shows, in the part of the configuration that
  the other keeps, as what the other's key does. Then whole files do.
\<close>

locale loader =
  fixes set_key :: "string \<Rightarrow> string \<Rightarrow> 'c \<Rightarrow> 'c"
    and part :: "'c \<Rightarrow> 'd"
    and part_key :: "string \<Rightarrow> string \<Rightarrow> 'd \<Rightarrow> 'd"
  assumes part_set_key: "part (set_key k v c) = part_key k v (part c)"
begin

lemma part_lines: "part (env_lines set_key ls c) = env_lines part_key ls (part c)"
  by (induction ls arbitrary: c) (auto simp: part_set_key split: option.split)

end

interpretation quickstart: loader quickstart_key "\<lambda>c. (qs_db c, qs_type c)" env_db_key
  by unfold_locales (auto simp: quickstart_key_def env_db_key_def split: option.split)


subsection \<open>Written files are read back\<close>

text \<open>What a file can hold as it is: no line break, and no white space or quotes at the ends.\<close>

definition end_ok :: "char \<Rightarrow> bool" where
  "end_ok c \<longleftrightarrow> visible c \<and> c \<notin> quotes"

definition value_ok :: "string \<Rightarrow> bool" where
  "value_ok v \<longleftrightarrow> CHR 0x0A \<notin> set v \<and> (v = [] \<or> end_ok (hd v) \<and> end_ok (last v))"

definition key_ok :: "string \<Rightarrow> bool" where
  "key_ok k \<longleftrightarrow> k \<noteq> [] \<and> visible (hd k) \<and> visible (last k) \<and> CHR ''='' \<notin> set k \<and> CHR 0x0A \<notin> set k \<and> hd k \<noteq> CHR ''#''"

lemma Trim_ok: "value_ok v \<Longrightarrow> Trim v quotes = v"
proof (cases "v = []")
  case False
  assume "value_ok v"
  with False have q: "hd v \<notin> quotes" "last v \<notin> quotes" by (auto simp: value_ok_def end_ok_def)
  have "dropWhile (\<lambda>c. c \<in> quotes) v = v" using q(1) by (cases v) auto
  moreover have "dropWhile (\<lambda>c. c \<in> quotes) (rev v) = rev v"
    using q(2) False by (cases v rule: rev_cases) auto
  ultimately show ?thesis by (simp add: Trim_def TrimRight_def)
qed (simp add: Trim_def TrimRight_def)

lemma TrimSpace_Nil [simp]: "TrimSpace [] = []"
  by code_simp

lemma TrimSpace_ok: "value_ok v \<Longrightarrow> TrimSpace v = v"
  by (cases "v = []") (auto simp: value_ok_def end_ok_def intro!: TrimSpace_visible)

lemma Contains_char: "Contains s [c] \<longleftrightarrow> c \<in> set s"
  by (induction s) auto

lemma Cut_key: "d \<notin> set k \<Longrightarrow> Cut (k @ d # v) d = (k, v)"
  by (induction k) (auto simp: Cut_def)

lemma env_entry_line:
  assumes "key_ok k" and "value_ok v"
  shows "env_entry (k @ CHR ''='' # v) = Some (k, v)"
proof -
  have "TrimSpace (k @ CHR ''='' # v) = k @ CHR ''='' # v"
    using assms by (intro TrimSpace_visible) (auto simp: key_ok_def value_ok_def end_ok_def visible_def)
  moreover have "TrimSpace k = k" using assms(1) by (auto simp: key_ok_def intro: TrimSpace_visible)
  moreover have "\<not> HasPrefix (k @ CHR ''='' # v) ''#''" using assms(1) by (cases k) (auto simp: key_ok_def HasPrefix_def)
  ultimately show ?thesis
    using assms by (simp add: env_entry_def Let_def Contains_char Cut_key key_ok_def TrimSpace_ok Trim_ok)
qed

lemma split_at_line: "d \<notin> set w \<Longrightarrow> split_at d (w @ d # s) = w # split_at d s"
  by (induction w) auto

lemma split_at_none: "d \<notin> set w \<Longrightarrow> split_at d w = [w]"
  by (induction w) auto

definition env_text :: "(string \<times> string) list \<Rightarrow> string" where
  "env_text es = concat (map (\<lambda>(k, v). k @ CHR ''='' # v @ [CHR 0x0A]) es)"

lemma env_lines_text:
  assumes "\<forall>(k, v) \<in> set es. key_ok k \<and> value_ok v"
  shows "env_lines f (split_at CHR 0x0A (env_text es)) c = fold (\<lambda>(k, v). f k v) es c"
  using assms
proof (induction es arbitrary: c)
  case Nil
  have "env_entry [] = None" by (simp add: env_entry_def)
  then show ?case by (simp add: env_text_def)
next
  case (Cons e es)
  obtain k v where e: "e = (k, v)" by (cases e)
  with Cons.prems have ok: "key_ok k" "value_ok v" by auto
  have "env_text (e # es) = (k @ CHR ''='' # v) @ CHR 0x0A # env_text es" by (simp add: env_text_def e)
  moreover have "CHR 0x0A \<notin> set (k @ CHR ''='' # v)" using ok by (simp add: key_ok_def value_ok_def)
  ultimately have "split_at CHR 0x0A (env_text (e # es)) = (k @ CHR ''='' # v) # split_at CHR 0x0A (env_text es)"
    by (metis split_at_line)
  with Cons ok show ?case by (simp add: env_entry_line e)
qed

definition env_file :: "db_config \<Rightarrow> string \<Rightarrow> string" where
  "env_file c t = env_text [(''DB_TYPE'', t), (''DB_HOST'', Host c), (''DB_PORT'', fmt_d (Port c)), (''DB_USER'', User c),
     (''DB_PASSWORD'', Password c), (''DB_NAME'', DBName c)]"

lemma digit_end_ok: "is_digit c \<Longrightarrow> end_ok c \<and> c \<noteq> CHR 0x0A"
  by (auto simp: is_digit_def end_ok_def visible_def quotes_def)

lemma value_ok_all: "\<forall>c \<in> set v. end_ok c \<and> c \<noteq> CHR 0x0A \<Longrightarrow> value_ok v"
  unfolding value_ok_def using hd_in_set [of v] last_in_set [of v] by blast

lemma value_ok_fmt_d: "value_ok (fmt_d n)"
proof (rule value_ok_all)
  have "set (fmt_d n) \<subseteq> insert CHR ''-'' {c. is_digit c}"
    using decimal_digits [of "nat (- sint n)"] decimal_digits [of "nat (sint n)"]
    unfolding fmt_d_def signed_decimal_def by (simp add: list_all_iff subset_iff)
  moreover have "end_ok CHR ''-''" by (simp add: end_ok_def visible_def quotes_def)
  ultimately show "\<forall>c \<in> set (fmt_d n). end_ok c \<and> c \<noteq> CHR 0x0A"
    using digit_end_ok by auto
qed



end
