(* ===== verification/Excel_Sample.thy ===== *)
theory Excel_Sample
  imports Excel_Facts
begin

text \<open>
  \<open>WriteSample\<close> and the drop-down lists of \<open>gobackendkit/schema/excelddl\<close> (\<open>sample.go\<close>, \<open>dropdowns.go\<close>). The
  workbook is a value of the library \<open>excelize\<close>, whose functions are the fields of a record; the code's
  own part is which cells and lists it writes, in which order, and what it does with errors.
\<close>

subsection \<open>The library\<close>

text \<open>\<open>'f\<close> is a workbook and \<open>'s\<close> the disk. Errors of \<open>CoordinatesToCellName\<close> and \<open>SetCellValue\<close> are ignored by
  the code, so their results are plain values.\<close>

record ('f, 's) excelize =
  NewFile :: 'f
  SetSheetName :: "'f \<Rightarrow> string \<Rightarrow> string \<Rightarrow> string + 'f"
  CoordinatesToCellName :: "nat \<Rightarrow> nat \<Rightarrow> string"
  SetCellValue :: "'f \<Rightarrow> string \<Rightarrow> string \<Rightarrow> string \<Rightarrow> 'f"
  SetDropList :: "string list \<Rightarrow> string option"
  AddDataValidation :: "'f \<Rightarrow> string \<Rightarrow> string \<Rightarrow> string list \<Rightarrow> string + 'f"
  SaveAs :: "'s \<Rightarrow> 'f \<Rightarrow> string \<Rightarrow> 's \<times> string option"

datatype sample_error =
    RenameFailed string
  | ListTooLong string string
  | ListFailed string string
  | SaveFailed string

subsection \<open>Drop-down lists\<close>

definition addInlineList :: "('f, 's) excelize \<Rightarrow> 'f \<Rightarrow> string \<Rightarrow> string \<Rightarrow> string list \<Rightarrow> sample_error + 'f" where
  "addInlineList ex f dataSheet sqref keys =
     (if keys = [] then Inr f
      else case SetDropList ex keys of
             Some err \<Rightarrow> Inl (ListTooLong sqref err)
           | None \<Rightarrow>
               (case AddDataValidation ex f dataSheet sqref keys of
                  Inl err \<Rightarrow> Inl (ListFailed sqref err)
                | Inr f1 \<Rightarrow> Inr f1))"

text \<open>\<open>range col\<close> is the column from row 3 to the last row.\<close>

definition range_of :: "char \<Rightarrow> string" where
  "range_of col = [col] @ ''3:'' @ [col] @ decimal dropdownLastRow"

fun add_lists :: "('f, 's) excelize \<Rightarrow> string \<Rightarrow> (string \<times> string list) list \<Rightarrow> 'f \<Rightarrow> sample_error + 'f" where
  "add_lists ex dataSheet [] f = Inr f"
| "add_lists ex dataSheet ((sqref, keys) # ls) f =
     (case addInlineList ex f dataSheet sqref keys of Inl e \<Rightarrow> Inl e | Inr f1 \<Rightarrow> add_lists ex dataSheet ls f1)"

definition applyDropdowns :: "('f, 's) excelize \<Rightarrow> 'f \<Rightarrow> string \<Rightarrow> sample_error + 'f" where
  "applyDropdowns ex f dataSheet =
     add_lists ex dataSheet
       ([(range_of CHR ''C'', FieldTypes), (range_of CHR ''D'', LengthHints)] @
        map (\<lambda>col. (range_of col, YesNoOptions)) [CHR ''E'', CHR ''F'', CHR ''G'']) f"

subsection \<open>The sample\<close>

definition sample_sheet :: string where "sample_sheet = ''demo_items''"

text \<open>The two rows of headers and the rows of data.\<close>

definition headers1 :: "string list" where
  "headers1 =
     [[CHR 0xE8, CHR 0xAF, CHR 0xB4, CHR 0xE6, CHR 0x98, CHR 0x8E],
      [CHR 0xE5, CHR 0xAD, CHR 0x97, CHR 0xE6, CHR 0xAE, CHR 0xB5, CHR 0xE8, CHR 0x8B, CHR 0xB1, CHR 0xE6, CHR 0x96, CHR 0x87, CHR 0xE5, CHR 0x90, CHR 0x8D],
      [CHR 0xE7, CHR 0xB1, CHR 0xBB, CHR 0xE5, CHR 0x9E, CHR 0x8B],
      [CHR 0xE9, CHR 0x95, CHR 0xBF, CHR 0xE5, CHR 0xBA, CHR 0xA6],
      [CHR 0xE9, CHR 0x9D, CHR 0x9E, CHR 0xE7, CHR 0xA9, CHR 0xBA],
      [CHR 0xE5, CHR 0x94, CHR 0xAF, CHR 0xE4, CHR 0xB8, CHR 0x80],
      [CHR 0xE4, CHR 0xB8, CHR 0xBB, CHR 0xE9, CHR 0x94, CHR 0xAE],
      [CHR 0xE9, CHR 0xBB, CHR 0x98, CHR 0xE8, CHR 0xAE, CHR 0xA4, CHR 0xE5, CHR 0x80, CHR 0xBC]]"

definition headers2 :: "string list" where
  "headers2 = [''comment'', ''name'', ''type'', ''length'', ''not_null'', ''unique'', ''primary'', ''default'']"

definition sample_data :: "string list list" where
  "sample_data =
     [[[CHR 0xE6, CHR 0xA0, CHR 0x87, CHR 0xE9, CHR 0xA2, CHR 0x98], ''title'', ''NVARCHAR'', ''200'', zh_yes, [], [], []],
      [[CHR 0xE5, CHR 0xA4, CHR 0x87, CHR 0xE6, CHR 0xB3, CHR 0xA8], ''remark'', ''NVARCHAR'', ''MAX'', [], [], [], []],
      [[CHR 0xE6, CHR 0x95, CHR 0xB0, CHR 0xE9, CHR 0x87, CHR 0x8F], ''qty'', ''INT'', [], zh_yes, [], [], ''0'']]"

text \<open>The cells of a row, from a column on.\<close>

fun write_row :: "('f, 's) excelize \<Rightarrow> string \<Rightarrow> nat \<Rightarrow> nat \<Rightarrow> string list \<Rightarrow> 'f \<Rightarrow> 'f" where
  "write_row ex sheet col row [] f = f"
| "write_row ex sheet col row (v # vs) f =
     write_row ex sheet (col + 1) row vs (SetCellValue ex f sheet (CoordinatesToCellName ex col row) v)"

fun write_rows :: "('f, 's) excelize \<Rightarrow> string \<Rightarrow> nat \<Rightarrow> string list list \<Rightarrow> 'f \<Rightarrow> 'f" where
  "write_rows ex sheet row [] f = f"
| "write_rows ex sheet row (vs # rows) f = write_rows ex sheet (row + 1) rows (write_row ex sheet 1 row vs f)"

definition WriteSample :: "('f, 's) excelize \<Rightarrow> string \<Rightarrow> 's \<Rightarrow> 's \<times> sample_error option" where
  "WriteSample ex path s =
     (case SetSheetName ex (NewFile ex) ''Sheet1'' sample_sheet of
        Inl err \<Rightarrow> (s, Some (RenameFailed err))
      | Inr f0 \<Rightarrow>
          (let f1 = write_row ex sample_sheet 1 1 headers1 f0;
               f2 = write_row ex sample_sheet 1 2 headers2 f1;
               f3 = write_rows ex sample_sheet 3 sample_data f2
           in case applyDropdowns ex f3 sample_sheet of
                Inl e \<Rightarrow> (s, Some e)
              | Inr f4 \<Rightarrow>
                  (case SaveAs ex s f4 path of (s1, Some err) \<Rightarrow> (s1, Some (SaveFailed err)) | (s1, None) \<Rightarrow> (s1, None))))"

end
