(* ===== verification/Cmd_Excelddl.thy ===== *)
theory Cmd_Excelddl
  imports Env_Config Excel_Sample Paths
begin

text \<open>
  \<open>gobackendkit/cmd/excelddl/main.go\<close>: the command that creates the tables of a workbook. The parts it puts
  together are those of the other theories: the configuration, the reader of the workbook, the T-SQL
  generator, the dialect and the database layer. The machine around it (files, workbook library, driver)
  is a record of functions; \<open>'s\<close> is the state of the database and of the disk.
\<close>

subsection \<open>The machine\<close>

text \<open>\<open>query_row\<close> is the driver's \<open>QueryRow\<close> followed by \<open>Scan(&n)\<close>.\<close>

record ('f, 's) machine =
  read_file :: "string \<Rightarrow> string + string"
  open_workbook :: "string \<Rightarrow> (string \<times> string list list option) list option"
  mkdir_all :: "'s \<Rightarrow> string \<Rightarrow> 's \<times> string option"
  excel_lib :: "('f, 's) excelize"
  opens :: "string \<Rightarrow> bool"
  pings :: "string \<Rightarrow> bool"
  query_row :: "('s, string, i64) driver"
  exec :: "('s, string, unit) driver"

record flags =
  excelPath :: string
  genSample :: string
  envFile :: string
  dryRun :: bool

text \<open>What the command prints for a table, and the end of a connection.\<close>

datatype event = Ddl string string | Exists string | Created string | Closed

datatype fatal =
    DirFailed string
  | SampleFailed sample_error
  | NoExcelPath
  | EnvFailed string
  | WorkbookFailed excel_error
  | NoTables
  | ConnectFailed db_error
  | BadTable string excel_error
  | CheckFailed string string
  | CreateTableFailed string string

subsection \<open>Tables\<close>

definition tableExists :: "('f, 's) machine \<Rightarrow> string \<Rightarrow> database \<Rightarrow> 's \<Rightarrow> string \<Rightarrow> 's \<times> (string + bool)" where
  "tableExists m kind conn s name =
     (let meta = Meta (Current kind)
      in case db_call (query_row m) conn s (TableExists meta) [name] of
           (s1, Inl err) \<Rightarrow> (s1, Inl err)
         | (s1, Inr n) \<Rightarrow> (s1, Inr (0 < sint n)))"

text \<open>The loop over the tables; without a connection it is a dry run. The events so far are the third
  argument; \<open>log.Fatalf\<close> ends the program.\<close>

fun create_tables ::
    "('f, 's) machine \<Rightarrow> string \<Rightarrow> database option \<Rightarrow> excel_table list \<Rightarrow> 's \<Rightarrow> event list \<Rightarrow> 's \<times> event list \<times> fatal option" where
  "create_tables m kind conn [] s out = (s, out, None)"
| "create_tables m kind conn (t # ts) s out =
     (case BuildMSSQLDDL t of
        Inl err \<Rightarrow> (s, out, Some (BadTable (TableName t) err))
      | Inr mssqlDDL \<Rightarrow>
          (let ddl = ConvertDDL (Current kind) mssqlDDL; out1 = out @ [Ddl (TableName t) ddl]
           in case conn of
                None \<Rightarrow> create_tables m kind conn ts s out1
              | Some db \<Rightarrow>
                  (case tableExists m kind db s (TableName t) of
                     (s1, Inl err) \<Rightarrow> (s1, out1, Some (CheckFailed (TableName t) err))
                   | (s1, Inr True) \<Rightarrow> create_tables m kind conn ts s1 (out1 @ [Exists (TableName t)])
                   | (s1, Inr False) \<Rightarrow>
                       (case db_call (exec m) db s1 ddl [] of
                          (s2, Inl err) \<Rightarrow> (s2, out1, Some (CreateTableFailed (TableName t) err))
                        | (s2, Inr _) \<Rightarrow> create_tables m kind conn ts s2 (out1 @ [Created (TableName t)])))))"

subsection \<open>The command\<close>

text \<open>\<open>filepath.Dir\<close>.\<close>

definition Dir :: "string \<Rightarrow> string" where
  "Dir path = Clean (rev (dropWhile (\<lambda>c. c \<noteq> CHR ''/'') (rev path)))"

definition gen_sample :: "('f, 's) machine \<Rightarrow> string \<Rightarrow> 's \<Rightarrow> 's \<times> fatal option" where
  "gen_sample m path s =
     (let out = Clean path; dir = Dir out;
          (s1, err) = (if dir \<noteq> [] \<and> dir \<noteq> ''.'' then mkdir_all m s dir else (s, None))
      in case err of
           Some e \<Rightarrow> (s1, Some (DirFailed e))
         | None \<Rightarrow> (case WriteSample (excel_lib m) out s1 of (s2, e) \<Rightarrow> (s2, map_option SampleFailed e)))"

text \<open>The connection is closed at a normal end; \<open>log.Fatal\<close> runs no deferred calls.\<close>

definition excelddl_main :: "('f, 's) machine \<Rightarrow> flags \<Rightarrow> kit_state \<Rightarrow> 's \<Rightarrow> 's \<times> event list \<times> fatal option" where
  "excelddl_main m fl k s =
     (if genSample fl \<noteq> [] then (case gen_sample m (genSample fl) s of (s1, e) \<Rightarrow> (s1, [], e))
      else if TrimSpace (excelPath fl) = [] then (s, [], Some NoExcelPath)
      else
        (case loadEnvDB (read_file m) (envFile fl) of
           (_, Some err) \<Rightarrow> (s, [], Some (EnvFailed err))
         | ((cfg, dbType), None) \<Rightarrow>
             (let k1 = SetDBType dbType k
              in case ReadFile (open_workbook m (excelPath fl)) of
                   Inl err \<Rightarrow> (s, [], Some (WorkbookFailed err))
                 | Inr tables \<Rightarrow>
                     if tables = [] then (s, [], Some NoTables)
                     else if dryRun fl then create_tables m (currentKind k1) None tables s []
                     else
                       (case NewDB (opens m) (pings m) dbType cfg of
                          Inl err \<Rightarrow> (s, [], Some (ConnectFailed err))
                        | Inr conn \<Rightarrow>
                            (case create_tables m (currentKind k1) (Some conn) tables s [] of
                               (s1, out, None) \<Rightarrow> (s1, out @ [Closed], None)
                             | (s1, out, Some err) \<Rightarrow> (s1, out, Some err))))))"

end
