(* ===== verification/Cmd_Facts.thy ===== *)
theory Cmd_Facts
  imports Cmd_Excelddl
begin

text \<open>
  What the command promises of the database: a run creates exactly the tables that are missing, each
  once, a second run changes nothing, and a dry run prints the statements of the run and touches
  nothing.
\<close>

fun created :: "event list \<Rightarrow> string list" where
  "created [] = []"
| "created (Created name # es) = name # created es"
| "created (_ # es) = created es"

fun is_Ddl :: "event \<Rightarrow> bool" where
  "is_Ddl (Ddl _ _) = True"
| "is_Ddl _ = False"

lemma created_append [simp]: "created (es @ es') = created es @ created es'"
  by (induction es rule: created.induct) auto

subsection \<open>A database\<close>

text \<open>
  \<open>tables\<close> are the names of the tables. The statement of the dialect counts the tables of a name, and the
  statement made for a sheet creates the table of its name when there is none.
\<close>

definition creates_tables ::
    "('f, 's) machine \<Rightarrow> string \<Rightarrow> database \<Rightarrow> ('s \<Rightarrow> string set) \<Rightarrow> excel_table list \<Rightarrow> bool" where
  "creates_tables m kind db tables ts \<longleftrightarrow>
     (\<forall>s name. query_row m s (sent db (TableExists (Meta (Current kind)))) [name] =
        (s, Inr (if name \<in> tables s then 1 else 0))) \<and>
     (\<forall>t \<in> set ts. \<forall>ddl s. BuildMSSQLDDL t = Inr ddl \<and> TableName t \<notin> tables s \<longrightarrow>
        (\<exists>s1. exec m s (sent db (ConvertDDL (Current kind) ddl)) [] = (s1, Inr ()) \<and>
          tables s1 = insert (TableName t) (tables s)))"

lemma creates_exists:
  "creates_tables m kind db tables ts \<Longrightarrow> tableExists m kind db s name = (s, Inr (name \<in> tables s))"
  by (simp add: creates_tables_def tableExists_def db_call_sent)

lemma creates_exec:
  assumes "creates_tables m kind db tables ts" and "t \<in> set ts" and "BuildMSSQLDDL t = Inr ddl" and "TableName t \<notin> tables s"
  obtains s1 where "db_call (exec m) db s (ConvertDDL (Current kind) ddl) [] = (s1, Inr ())"
    and "tables s1 = insert (TableName t) (tables s)"
proof -
  from assms have "\<exists>s1. exec m s (sent db (ConvertDDL (Current kind) ddl)) [] = (s1, Inr ()) \<and>
      tables s1 = insert (TableName t) (tables s)"
    unfolding creates_tables_def by blast
  then show thesis using that by (auto simp: db_call_sent)
qed

lemma create_tables_exists:
  assumes "BuildMSSQLDDL t = Inr ddl" and "tableExists m kind db s (TableName t) = (s1, Inr True)"
  shows "create_tables m kind (Some db) (t # ts) s out =
    create_tables m kind (Some db) ts s1 (out @ [Ddl (TableName t) (ConvertDDL (Current kind) ddl), Exists (TableName t)])"
  using assms by (simp add: Let_def)

lemma create_tables_created:
  assumes "BuildMSSQLDDL t = Inr ddl" and "tableExists m kind db s (TableName t) = (s1, Inr False)"
    and "db_call (exec m) db s1 (ConvertDDL (Current kind) ddl) [] = (s2, Inr u)"
  shows "create_tables m kind (Some db) (t # ts) s out =
    create_tables m kind (Some db) ts s2 (out @ [Ddl (TableName t) (ConvertDDL (Current kind) ddl), Created (TableName t)])"
  using assms by (simp add: Let_def)

text \<open>A run that goes past a table.\<close>

lemma create_tables_step:
  assumes "create_tables m kind (Some db) (t # ts) s out = (s1, out1, None)"
  obtains ddl s2 e where "BuildMSSQLDDL t = Inr ddl" and "\<not> is_Ddl e"
    and "create_tables m kind (Some db) ts s2 (out @ [Ddl (TableName t) (ConvertDDL (Current kind) ddl), e]) = (s1, out1, None)"
proof -
  obtain ddl where ddl: "BuildMSSQLDDL t = Inr ddl" using assms by (cases "BuildMSSQLDDL t") auto
  obtain s0 r where ex: "tableExists m kind db s (TableName t) = (s0, r)" by (cases "tableExists m kind db s (TableName t)")
  then obtain b where b: "r = Inr b" using assms ddl by (cases r) (auto simp: Let_def)
  show thesis
  proof (cases b)
    case True
    then have "tableExists m kind db s (TableName t) = (s0, Inr True)" using ex b by simp
    from create_tables_exists [OF ddl this] assms show thesis
      using that [of ddl "Exists (TableName t)" s0] ddl by (simp del: create_tables.simps)
  next
    case False
    obtain s2 q where call: "db_call (exec m) db s0 (ConvertDDL (Current kind) ddl) [] = (s2, q)"
      by (cases "db_call (exec m) db s0 (ConvertDDL (Current kind) ddl) []")
    with assms ddl ex b False obtain u where "q = Inr u" by (cases q) (auto simp: Let_def)
    with call have call': "db_call (exec m) db s0 (ConvertDDL (Current kind) ddl) [] = (s2, Inr u)" by simp
    have "tableExists m kind db s (TableName t) = (s0, Inr False)" using ex b False by simp
    from create_tables_created [OF ddl this call'] assms show thesis
      using that [of ddl "Created (TableName t)" s2] ddl by (simp del: create_tables.simps)
  qed
qed

lemma create_tables_missing:
  assumes cr: "creates_tables m kind db tables all" and "set ts \<subseteq> set all" and "\<forall>t \<in> set ts. \<exists>ddl. BuildMSSQLDDL t = Inr ddl"
  shows "\<exists>s1 new. create_tables m kind (Some db) ts s out = (s1, out @ new, None) \<and>
    tables s1 = tables s \<union> TableName ` set ts \<and> distinct (created new) \<and> set (created new) = TableName ` set ts - tables s"
  using assms(2,3)
proof (induction ts arbitrary: s out)
  case Nil
  then show ?case by simp
next
  case (Cons t ts)
  then obtain ddl where ddl: "BuildMSSQLDDL t = Inr ddl" by auto
  let ?d = "Ddl (TableName t) (ConvertDDL (Current kind) ddl)"
  show ?case
  proof (cases "TableName t \<in> tables s")
    case True
    have ex: "tableExists m kind db s (TableName t) = (s, Inr True)" using True by (simp add: creates_exists [OF cr])
    obtain s1 new where "create_tables m kind (Some db) ts s (out @ [?d, Exists (TableName t)]) = (s1, (out @ [?d, Exists (TableName t)]) @ new, None)"
      and t: "tables s1 = tables s \<union> TableName ` set ts" "distinct (created new)" "set (created new) = TableName ` set ts - tables s"
      using Cons.IH [of s "out @ [?d, Exists (TableName t)]"] Cons.prems by auto
    then have "create_tables m kind (Some db) (t # ts) s out = (s1, out @ ?d # Exists (TableName t) # new, None)"
      by (simp add: create_tables_exists [OF ddl ex] del: create_tables.simps)
    with t True show ?thesis
      by (intro exI [of _ s1] exI [of _ "?d # Exists (TableName t) # new"]) (auto simp del: create_tables.simps)
  next
    case False
    obtain s0 where s0: "db_call (exec m) db s (ConvertDDL (Current kind) ddl) [] = (s0, Inr ())"
      "tables s0 = insert (TableName t) (tables s)"
      using creates_exec [OF cr _ ddl False] Cons.prems by auto
    have ex: "tableExists m kind db s (TableName t) = (s, Inr False)" using False by (simp add: creates_exists [OF cr])
    obtain s1 new where "create_tables m kind (Some db) ts s0 (out @ [?d, Created (TableName t)]) = (s1, (out @ [?d, Created (TableName t)]) @ new, None)"
      and t: "tables s1 = tables s0 \<union> TableName ` set ts" "distinct (created new)" "set (created new) = TableName ` set ts - tables s0"
      using Cons.IH [of s0 "out @ [?d, Created (TableName t)]"] Cons.prems by auto
    then have "create_tables m kind (Some db) (t # ts) s out = (s1, out @ ?d # Created (TableName t) # new, None)"
      by (simp add: create_tables_created [OF ddl ex s0(1)] del: create_tables.simps)
    with t s0(2) False show ?thesis
      by (intro exI [of _ s1] exI [of _ "?d # Created (TableName t) # new"]) (auto simp del: create_tables.simps)
  qed
qed

lemma create_tables_again:
  assumes cr: "creates_tables m kind db tables all" and "TableName ` set ts \<subseteq> tables s" and "\<forall>t \<in> set ts. \<exists>ddl. BuildMSSQLDDL t = Inr ddl"
  shows "\<exists>new. create_tables m kind (Some db) ts s out = (s, out @ new, None) \<and> created new = []"
  using assms(2,3)
proof (induction ts arbitrary: out)
  case (Cons t ts)
  then obtain ddl where ddl: "BuildMSSQLDDL t = Inr ddl" by auto
  let ?d = "[Ddl (TableName t) (ConvertDDL (Current kind) ddl), Exists (TableName t)]"
  have ex: "tableExists m kind db s (TableName t) = (s, Inr True)"
    using Cons.prems by (simp add: creates_exists [OF cr])
  obtain new where "create_tables m kind (Some db) ts s (out @ ?d) = (s, (out @ ?d) @ new, None)" and new: "created new = []"
    using Cons.IH [of "out @ ?d"] Cons.prems by auto
  then have "create_tables m kind (Some db) (t # ts) s out = (s, out @ ?d @ new, None)"
    by (simp add: create_tables_exists [OF ddl ex] del: create_tables.simps)
  with new show ?case by (intro exI [of _ "?d @ new"]) (simp del: create_tables.simps)
qed simp


text \<open>A machine whose database is the list of its tables, and whose workbook has one sheet.\<close>

definition ex_table :: excel_table where
  "ex_table = \<lparr>TableName = ''t'', Columns = defaultAuditColumns @ [ex_qty]\<rparr>"

definition ex_machine :: "(unit, string list) machine" where
  "ex_machine =
     \<lparr>read_file = \<lambda>_. Inr ''DB_TYPE=sqlserver'', open_workbook = \<lambda>_. ex_workbook, mkdir_all = \<lambda>s d. (s, None),
      excel_lib = \<lparr>NewFile = (), SetSheetName = \<lambda>f a b. Inr f, CoordinatesToCellName = \<lambda>c r. [], SetCellValue = \<lambda>f sh c v. f,
        SetDropList = \<lambda>ks. None, AddDataValidation = \<lambda>f sh r ks. Inr f, SaveAs = \<lambda>s f path. (s, None)\<rparr>,
      opens = \<lambda>_. True, pings = \<lambda>_. True,
      query_row = \<lambda>s q args. (s, Inr (if hd args \<in> set s then 1 else 0)),
      exec = \<lambda>s q args. (takeWhile (\<lambda>c. c \<noteq> CHR '' '') (drop 13 q) # s, Inr ())\<rparr>"

definition ex_flags :: flags where
  "ex_flags = \<lparr>excelPath = ''tables.xlsx'', genSample = [], envFile = ''conf/env'', dryRun = False\<rparr>"

lemma ex_ddl: "map_sum (\<lambda>_. ()) (\<lambda>ddl. take 16 (mssql_sent ddl)) (BuildMSSQLDDL ex_table) = Inr ''CREATE TABLE t (''"
  by code_simp

lemma ex_creates: "creates_tables ex_machine ''sqlserver'' MssqlDB set [ex_table]"
proof -
  have "takeWhile (\<lambda>c. c \<noteq> CHR '' '') (drop 13 (mssql_sent (ConvertDDL (Current ''sqlserver'') ddl))) = ''t''"
    if "BuildMSSQLDDL ex_table = Inr ddl" for ddl
  proof -
    have t: "take 16 (mssql_sent ddl) = ''CREATE TABLE t (''" using ex_ddl that by simp
    have "mssql_sent ddl = take 16 (mssql_sent ddl) @ drop 16 (mssql_sent ddl)" by simp
    then obtain rest where "mssql_sent ddl = ''CREATE TABLE t ('' @ rest" unfolding t by blast
    then show ?thesis by (simp add: Current_def For_def SQLServer_def sqlServerDialect_def)
  qed
  then show ?thesis
    by (simp add: creates_tables_def ex_machine_def) (simp add: ex_table_def)
qed


subsection \<open>Dry runs\<close>

lemma create_tables_dry:
  "\<exists>new err. create_tables m kind None ts s out = (s, out @ new, err) \<and> list_all is_Ddl new"
proof (induction ts arbitrary: out)
  case (Cons t ts)
  show ?case
  proof (cases "BuildMSSQLDDL t")
    case (Inr ddl)
    let ?d = "Ddl (TableName t) (ConvertDDL (Current kind) ddl)"
    from Cons.IH [of "out @ [?d]"] obtain new err where
      "create_tables m kind None ts s (out @ [?d]) = (s, (out @ [?d]) @ new, err)" "list_all is_Ddl new"
      by blast
    with Inr show ?thesis by (intro exI [of _ "?d # new"] exI [of _ err]) (simp add: Let_def)
  qed simp
qed simp

lemma create_tables_ddl:
  "create_tables m kind (Some db) ts s out = (s1, out1, None) \<Longrightarrow>
     create_tables m kind None ts s' (filter is_Ddl out) = (s', filter is_Ddl out1, None)"
proof (induction ts arbitrary: s out)
  case (Cons t ts)
  from Cons.prems obtain ddl s2 e where "BuildMSSQLDDL t = Inr ddl" "\<not> is_Ddl e"
    "create_tables m kind (Some db) ts s2 (out @ [Ddl (TableName t) (ConvertDDL (Current kind) ddl), e]) = (s1, out1, None)"
    by (rule create_tables_step)
  with Cons.IH [OF this(3)] show ?case by (simp add: Let_def)
qed simp



end
