(* ===== verification/Sample_Facts.thy ===== *)
theory Sample_Facts
  imports Excel_Sample
begin

text \<open>
  The sample workbook is one that the reader understands: whatever the library, as long as cells that were
  set are read back, the file that \<open>WriteSample\<close> leaves is read as the table \<open>demo_items\<close>.
\<close>

text \<open>
  What \<open>excelize\<close> documents, within the limits of a sheet: a cell that was set has the value and the others
  keep theirs, a drop-down list changes no cell, and a saved file holds the workbook. \<open>cell_of\<close> is the
  content of a cell by sheet, column and row, \<open>stored\<close> the workbook in a file.
\<close>

definition excelize_contract ::
    "('f, 's) excelize \<Rightarrow> ('f \<Rightarrow> string \<Rightarrow> nat \<times> nat \<Rightarrow> string) \<Rightarrow> ('s \<Rightarrow> string \<Rightarrow> 'f option) \<Rightarrow> bool" where
  "excelize_contract ex cell_of stored \<longleftrightarrow>
     (\<forall>f sh v sh'. \<forall>c \<in> {1..16384}. \<forall>r \<in> {1..1048576}. \<forall>p \<in> {1..16384} \<times> {1..1048576}.
        cell_of (SetCellValue ex f sh (CoordinatesToCellName ex c r) v) sh' p =
          (if sh' = sh \<and> p = (c, r) then v else cell_of f sh' p)) \<and>
     (\<forall>f sh sqref ks f1. AddDataValidation ex f sh sqref ks = Inr f1 \<longrightarrow> cell_of f1 = cell_of f) \<and>
     (\<forall>s f path s1. SaveAs ex s f path = (s1, None) \<longrightarrow> stored s1 path = Some f)"

text \<open>Rows as \<open>GetRows\<close> gives them, without the empty cells at their ends: the sample fills five.\<close>

definition rows_show :: "(nat \<times> nat \<Rightarrow> string) \<Rightarrow> string list list \<Rightarrow> bool" where
  "rows_show cells rows \<longleftrightarrow> length rows = 5 \<and> (\<forall>r < 5. \<forall>c < 8. cell (rows ! r) c = cells (c + 1, r + 1))"

lemma set_cell:
  assumes "excelize_contract ex cell_of stored" and "c \<in> {1..16384}" and "r \<in> {1..1048576}" and "p \<in> {1..16384} \<times> {1..1048576}"
  shows "cell_of (SetCellValue ex f sh (CoordinatesToCellName ex c r) v) sh' p = (if sh' = sh \<and> p = (c, r) then v else cell_of f sh' p)"
  using assms unfolding excelize_contract_def by blast

lemma write_row_cells:
  assumes "excelize_contract ex cell_of stored" and "1 \<le> col" and "col + length vs \<le> 16385" and "row \<in> {1..1048576}"
    and "p \<in> {1..16384} \<times> {1..1048576}"
  shows "cell_of (write_row ex sh col row vs f) sh p =
    (if snd p = row \<and> col \<le> fst p \<and> fst p < col + length vs then vs ! (fst p - col) else cell_of f sh p)"
  using assms(2,3)
proof (induction vs arbitrary: col f)
  case (Cons v vs)
  have "cell_of (SetCellValue ex f sh (CoordinatesToCellName ex col row) v) sh p = (if p = (col, row) then v else cell_of f sh p)"
    using set_cell [OF assms(1) _ assms(4,5), of col f sh v sh] Cons.prems by simp
  with Cons.IH [of "col + 1" "SetCellValue ex f sh (CoordinatesToCellName ex col row) v"] Cons.prems show ?case
    by (cases p) (auto simp: nth_Cons' Suc_diff_le)
qed auto

lemma add_lists_cells:
  assumes "excelize_contract ex cell_of stored"
  shows "add_lists ex sh ls f = Inr f1 \<Longrightarrow> cell_of f1 = cell_of f"
proof (induction ls arbitrary: f)
  case (Cons l ls)
  then obtain sqref keys f0 where l: "l = (sqref, keys)" "addInlineList ex f sh sqref keys = Inr f0" "add_lists ex sh ls f0 = Inr f1"
    by (cases l) (auto split: sum.splits)
  then have "cell_of f0 = cell_of f"
    using assms by (auto simp: addInlineList_def excelize_contract_def split: if_splits option.splits sum.splits)
  with Cons.IH [OF l(3)] show ?case by simp
qed simp

lemma read_row_cells:
  assumes "\<And>i. i < 8 \<Longrightarrow> cell row i = cell row' i" and "length row < 3 \<longleftrightarrow> length row' < 3"
  shows "read_row t i row = read_row t i row'"
  using assms(2) unfolding read_row_def Let_def by (simp add: assms(1))

lemma length_sample_data: "r < 3 \<Longrightarrow> length (sample_data ! r) = 8"
proof -
  assume "r < 3"
  then consider "r = 0" | "r = 1" | "r = 2" by linarith
  then show ?thesis by cases (simp_all add: sample_data_def)
qed

lemma sample_data_rows: "sample_data = [sample_data ! 0, sample_data ! 1, sample_data ! 2]"
  by (simp add: sample_data_def)

lemma read_rows_cong:
  "list_all2 (\<lambda>row row'. \<forall>t i. read_row t i row = read_row t i row') rows rows' \<Longrightarrow>
     read_rows t i rows cols = read_rows t i rows' cols"
  by (induction arbitrary: i cols rule: list_all2_induct) (auto split: sum.split option.split)

definition sample_table :: excel_table where
  "sample_table =
     \<lparr>TableName = ''demo_items'',
      Columns = defaultAuditColumns @
        [no_column\<lparr>Comment := hd (sample_data ! 0), Name := ''title'', Type := ''NVARCHAR'', Length := ''200'', NotNull := True\<rparr>,
         no_column\<lparr>Comment := hd (sample_data ! 1), Name := ''remark'', Type := ''NVARCHAR'', Length := ''MAX''\<rparr>,
         no_column\<lparr>Comment := hd (sample_data ! 2), Name := ''qty'', Type := ''INT'', NotNull := True, Default := ''0''\<rparr>]\<rparr>"

lemma read_sample_data: "read_rows ''demo_items'' 0 sample_data defaultAuditColumns = Inr (Columns sample_table)"
  by code_simp

text \<open>The rows of the sample, one after the other.\<close>

definition sample_all :: "string list list" where
  "sample_all = headers1 # headers2 # sample_data"

lemma WriteSample_cells:
  assumes c: "excelize_contract ex cell_of stored" and w: "WriteSample ex path s = (s1, None)"
  obtains f where "stored s1 path = Some f"
    and "\<forall>r < 5. \<forall>c < 8. cell_of f sample_sheet (c + 1, r + 1) = sample_all ! r ! c"
proof -
  obtain f0 f4 where f0: "SetSheetName ex (NewFile ex) ''Sheet1'' sample_sheet = Inr f0"
    and f4: "applyDropdowns ex (write_rows ex sample_sheet 3 sample_data (write_row ex sample_sheet 1 2 headers2
        (write_row ex sample_sheet 1 1 headers1 f0))) sample_sheet = Inr f4"
    and s1: "SaveAs ex s f4 path = (s1, None)"
    using w by (auto simp: WriteSample_def Let_def split: sum.splits prod.splits option.splits)
  have len: "length headers1 = 8" "length headers2 = 8"
    by (simp_all add: headers1_def headers2_def)
  have cells: "cell_of f4 = cell_of (write_row ex sample_sheet 1 5 (sample_data ! 2) (write_row ex sample_sheet 1 4 (sample_data ! 1)
      (write_row ex sample_sheet 1 3 (sample_data ! 0) (write_row ex sample_sheet 1 2 headers2 (write_row ex sample_sheet 1 1 headers1 f0)))))"
    using add_lists_cells [OF c f4 [unfolded applyDropdowns_def]] by (subst (asm) sample_data_rows) simp
  have "cell_of f4 sample_sheet (c' + 1, r + 1) = sample_all ! r ! c'" if "r < 5" "c' < 8" for r c'
  proof -
    have all: "sample_all = [headers1, headers2, sample_data ! 0, sample_data ! 1, sample_data ! 2]"
      unfolding sample_all_def by (subst sample_data_rows) simp
    from \<open>r < 5\<close> consider "r = 0" | "r = 1" | "r = 2" | "r = 3" | "r = 4" by linarith
    then show ?thesis
      by cases (use that(2) in \<open>simp_all add: cells all len length_sample_data write_row_cells [OF c]\<close>)
  qed
  moreover have "stored s1 path = Some f4" using c s1 by (simp add: excelize_contract_def)
  ultimately show thesis using that by blast
qed


text \<open>A library whose workbooks are functions from cells, named by two runs of letters, to their values.\<close>

definition ex_lib :: "(string \<Rightarrow> string \<Rightarrow> string, (string \<Rightarrow> string \<Rightarrow> string) option) excelize" where
  "ex_lib =
     \<lparr>NewFile = \<lambda>_ _. [], SetSheetName = \<lambda>f a b. Inr f,
      CoordinatesToCellName = \<lambda>c r. replicate c CHR ''c'' @ replicate r CHR ''r'',
      SetCellValue = \<lambda>f sh n v. f(sh := (f sh)(n := v)),
      SetDropList = \<lambda>ks. None, AddDataValidation = \<lambda>f sh r ks. Inr f, SaveAs = \<lambda>s f path. (Some f, None)\<rparr>"

lemma cell_names_inject:
  "replicate c CHR ''c'' @ replicate r CHR ''r'' = replicate c' CHR ''c'' @ replicate r' CHR ''r'' \<longleftrightarrow> c = c' \<and> r = r'"
proof
  assume eq: "replicate c CHR ''c'' @ replicate r CHR ''r'' = replicate c' CHR ''c'' @ replicate r' CHR ''r''"
  have "count_list (replicate n x) y = (if x = y then n else 0)" for n and x y :: char by (induction n) auto
  then show "c = c' \<and> r = r'"
    using arg_cong [OF eq, of "\<lambda>xs. count_list xs CHR ''c''"] arg_cong [OF eq, of "\<lambda>xs. count_list xs CHR ''r''"] by simp
qed simp

definition ex_cell :: "(string \<Rightarrow> string \<Rightarrow> string) \<Rightarrow> string \<Rightarrow> nat \<times> nat \<Rightarrow> string" where
  "ex_cell f sh p = f sh (CoordinatesToCellName ex_lib (fst p) (snd p))"

lemma ex_lib_contract: "excelize_contract ex_lib ex_cell (\<lambda>s path. s)"
  by (auto simp: excelize_contract_def ex_lib_def ex_cell_def cell_names_inject)


end
