(* ===== verification/Redis_Client.thy ===== *)
theory Redis_Client
  imports Prelude
begin

text \<open>
  \<open>gobackendkit/redis\<close> without the cache: the package's client and the functions that hand one command
  to it. The client is a library: a command maps the state of the server to a new one and an error or
  a result, a field of the record. The package variable \<open>Client\<close> is nil until \<open>InitRedis\<close>; a method
  called on the nil client reads through the nil pointer and panics.
\<close>

type_synonym ('s, 'r) command = "'s \<Rightarrow> 's \<times> (string + 'r)"

text \<open>Values of type \<open>interface{}\<close> are of type \<open>'v\<close>; a duration is its nanoseconds.\<close>

record ('s, 'v) client =
  Ping_cmd :: "('s, string) command"
  Close_cmd :: "('s, unit) command"
  HSet_cmd :: "string \<Rightarrow> string \<Rightarrow> string \<Rightarrow> ('s, i64) command"
  HMSet_cmd :: "string \<Rightarrow> (string \<times> 'v) list \<Rightarrow> ('s, bool) command"
  HGet_cmd :: "string \<Rightarrow> string \<Rightarrow> ('s, string) command"
  HGetAll_cmd :: "string \<Rightarrow> ('s, (string \<times> string) list) command"
  HDel_cmd :: "string \<Rightarrow> (string list) \<Rightarrow> ('s, i64) command"
  HExists_cmd :: "string \<Rightarrow> string \<Rightarrow> ('s, bool) command"
  LPush_cmd :: "string \<Rightarrow> ('v list) \<Rightarrow> ('s, i64) command"
  RPush_cmd :: "string \<Rightarrow> ('v list) \<Rightarrow> ('s, i64) command"
  LPop_cmd :: "string \<Rightarrow> ('s, string) command"
  RPop_cmd :: "string \<Rightarrow> ('s, string) command"
  LRange_cmd :: "string \<Rightarrow> i64 \<Rightarrow> i64 \<Rightarrow> ('s, string list) command"
  LLen_cmd :: "string \<Rightarrow> ('s, i64) command"
  Del_cmd :: "(string list) \<Rightarrow> ('s, i64) command"
  SAdd_cmd :: "string \<Rightarrow> ('v list) \<Rightarrow> ('s, i64) command"
  SMembers_cmd :: "string \<Rightarrow> ('s, string list) command"
  SIsMember_cmd :: "string \<Rightarrow> 'v \<Rightarrow> ('s, bool) command"
  SRem_cmd :: "string \<Rightarrow> ('v list) \<Rightarrow> ('s, i64) command"
  SCard_cmd :: "string \<Rightarrow> ('s, i64) command"
  SPop_cmd :: "string \<Rightarrow> ('s, string) command"
  Set_cmd :: "string \<Rightarrow> string \<Rightarrow> int \<Rightarrow> ('s, string) command"
  Get_cmd :: "string \<Rightarrow> ('s, string) command"
  Expire_cmd :: "string \<Rightarrow> int \<Rightarrow> ('s, bool) command"
  Exists_cmd :: "(string list) \<Rightarrow> ('s, i64) command"
  ZAdd_cmd :: "string \<Rightarrow> (f64 \<times> 'v) list \<Rightarrow> ('s, i64) command"
  ZRange_cmd :: "string \<Rightarrow> i64 \<Rightarrow> i64 \<Rightarrow> ('s, string list) command"
  ZRevRange_cmd :: "string \<Rightarrow> i64 \<Rightarrow> i64 \<Rightarrow> ('s, string list) command"
  ZRangeWithScores_cmd :: "string \<Rightarrow> i64 \<Rightarrow> i64 \<Rightarrow> ('s, (f64 \<times> string) list) command"
  ZScore_cmd :: "string \<Rightarrow> string \<Rightarrow> ('s, f64) command"
  ZRem_cmd :: "string \<Rightarrow> 'v list \<Rightarrow> ('s, i64) command"
  ZCard_cmd :: "string \<Rightarrow> ('s, i64) command"
  ZRank_cmd :: "string \<Rightarrow> string \<Rightarrow> ('s, i64) command"
  ZRevRank_cmd :: "string \<Rightarrow> string \<Rightarrow> ('s, i64) command"

subsection \<open>The client\<close>

text \<open>What \<open>NewClient\<close> makes of the options is the client, or rather its commands.\<close>

record redis_options =
  Addr :: string
  RedisPassword :: string
  RedisDB :: i64
  PoolSize :: i64
  DialTimeout :: int
  ReadTimeout :: int
  WriteTimeout :: int

definition second :: int where "second = 10 ^ 9"

text \<open>The new client and the error of the first ping; the client stays set when the ping fails.\<close>

definition InitRedis ::
    "(redis_options \<Rightarrow> ('s, 'v) client) \<Rightarrow> string \<Rightarrow> string \<Rightarrow> i64 \<Rightarrow> 's \<Rightarrow> ('s, 'v) client option \<times> 's \<times> string option" where
  "InitRedis NewClient addr password db s =
     (let c = NewClient \<lparr>Addr = addr, RedisPassword = password, RedisDB = db, PoolSize = 10, DialTimeout = 5 * second,
                ReadTimeout = 3 * second, WriteTimeout = 3 * second\<rparr>
      in case Ping_cmd c s of (s1, r) \<Rightarrow> (Some c, s1, case r of Inl e \<Rightarrow> Some e | Inr _ \<Rightarrow> None))"

text \<open>Closing ignores the error, and does nothing without a client.\<close>

definition redis_Close :: "('s, 'v) client option \<Rightarrow> 's \<Rightarrow> 's" where
  "redis_Close Client s = (case Client of None \<Rightarrow> s | Some c \<Rightarrow> fst (Close_cmd c s))"

text \<open>\<open>Err()\<close> and \<open>Result()\<close> of a command on the client.\<close>

definition redis_result :: "'c option \<Rightarrow> ('c \<Rightarrow> ('s, 'r) command) \<Rightarrow> 's \<Rightarrow> ('s \<times> (string + 'r)) go" where
  "redis_result Client command s = (case Client of None \<Rightarrow> Inl NilPointer | Some c \<Rightarrow> Inr (command c s))"

definition redis_err :: "'c option \<Rightarrow> ('c \<Rightarrow> ('s, 'r) command) \<Rightarrow> 's \<Rightarrow> ('s \<times> string option) go" where
  "redis_err Client command s =
     go_bind (redis_result Client command s) (\<lambda>(s1, r). Inr (s1, case r of Inl e \<Rightarrow> Some e | Inr _ \<Rightarrow> None))"

subsection \<open>Hashes\<close>

definition HashSet :: "('s, 'v) client option \<Rightarrow> string \<Rightarrow> string \<Rightarrow> string \<Rightarrow> 's \<Rightarrow> ('s \<times> string option) go" where
  "HashSet Client key field v s =
     redis_err Client (\<lambda>c. HSet_cmd c key field v) s"

definition HashMSet :: "('s, 'v) client option \<Rightarrow> string \<Rightarrow> (string \<times> 'v) list \<Rightarrow> 's \<Rightarrow> ('s \<times> string option) go" where
  "HashMSet Client key fs s =
     redis_err Client (\<lambda>c. HMSet_cmd c key fs) s"

definition HashGet :: "('s, 'v) client option \<Rightarrow> string \<Rightarrow> string \<Rightarrow> 's \<Rightarrow> ('s \<times> (string + string)) go" where
  "HashGet Client key field s =
     redis_result Client (\<lambda>c. HGet_cmd c key field) s"

definition HashGetAll :: "('s, 'v) client option \<Rightarrow> string \<Rightarrow> 's \<Rightarrow> ('s \<times> (string + ((string \<times> string) list))) go" where
  "HashGetAll Client key s =
     redis_result Client (\<lambda>c. HGetAll_cmd c key) s"

definition HashDel :: "('s, 'v) client option \<Rightarrow> string \<Rightarrow> (string list) \<Rightarrow> 's \<Rightarrow> ('s \<times> string option) go" where
  "HashDel Client key fs s =
     redis_err Client (\<lambda>c. HDel_cmd c key fs) s"

definition HashExists :: "('s, 'v) client option \<Rightarrow> string \<Rightarrow> string \<Rightarrow> 's \<Rightarrow> ('s \<times> (string + bool)) go" where
  "HashExists Client key field s =
     redis_result Client (\<lambda>c. HExists_cmd c key field) s"

subsection \<open>Lists\<close>

definition ListLPush :: "('s, 'v) client option \<Rightarrow> string \<Rightarrow> ('v list) \<Rightarrow> 's \<Rightarrow> ('s \<times> string option) go" where
  "ListLPush Client key values s =
     redis_err Client (\<lambda>c. LPush_cmd c key values) s"

definition ListRPush :: "('s, 'v) client option \<Rightarrow> string \<Rightarrow> ('v list) \<Rightarrow> 's \<Rightarrow> ('s \<times> string option) go" where
  "ListRPush Client key values s =
     redis_err Client (\<lambda>c. RPush_cmd c key values) s"

definition ListLPop :: "('s, 'v) client option \<Rightarrow> string \<Rightarrow> 's \<Rightarrow> ('s \<times> (string + string)) go" where
  "ListLPop Client key s =
     redis_result Client (\<lambda>c. LPop_cmd c key) s"

definition ListRPop :: "('s, 'v) client option \<Rightarrow> string \<Rightarrow> 's \<Rightarrow> ('s \<times> (string + string)) go" where
  "ListRPop Client key s =
     redis_result Client (\<lambda>c. RPop_cmd c key) s"

definition ListRange :: "('s, 'v) client option \<Rightarrow> string \<Rightarrow> i64 \<Rightarrow> i64 \<Rightarrow> 's \<Rightarrow> ('s \<times> (string + string list)) go" where
  "ListRange Client key start stop s =
     redis_result Client (\<lambda>c. LRange_cmd c key start stop) s"

definition ListLen :: "('s, 'v) client option \<Rightarrow> string \<Rightarrow> 's \<Rightarrow> ('s \<times> (string + i64)) go" where
  "ListLen Client key s =
     redis_result Client (\<lambda>c. LLen_cmd c key) s"

definition ListDel :: "('s, 'v) client option \<Rightarrow> string \<Rightarrow> 's \<Rightarrow> ('s \<times> string option) go" where
  "ListDel Client key s =
     redis_err Client (\<lambda>c. Del_cmd c [key]) s"

subsection \<open>Sets\<close>

definition SetAdd :: "('s, 'v) client option \<Rightarrow> string \<Rightarrow> ('v list) \<Rightarrow> 's \<Rightarrow> ('s \<times> string option) go" where
  "SetAdd Client key members s =
     redis_err Client (\<lambda>c. SAdd_cmd c key members) s"

definition SetMembers :: "('s, 'v) client option \<Rightarrow> string \<Rightarrow> 's \<Rightarrow> ('s \<times> (string + string list)) go" where
  "SetMembers Client key s =
     redis_result Client (\<lambda>c. SMembers_cmd c key) s"

definition SetIsMember :: "('s, 'v) client option \<Rightarrow> string \<Rightarrow> 'v \<Rightarrow> 's \<Rightarrow> ('s \<times> (string + bool)) go" where
  "SetIsMember Client key member s =
     redis_result Client (\<lambda>c. SIsMember_cmd c key member) s"

definition SetRem :: "('s, 'v) client option \<Rightarrow> string \<Rightarrow> ('v list) \<Rightarrow> 's \<Rightarrow> ('s \<times> string option) go" where
  "SetRem Client key members s =
     redis_err Client (\<lambda>c. SRem_cmd c key members) s"

definition SetCard :: "('s, 'v) client option \<Rightarrow> string \<Rightarrow> 's \<Rightarrow> ('s \<times> (string + i64)) go" where
  "SetCard Client key s =
     redis_result Client (\<lambda>c. SCard_cmd c key) s"

definition SetPop :: "('s, 'v) client option \<Rightarrow> string \<Rightarrow> 's \<Rightarrow> ('s \<times> (string + string)) go" where
  "SetPop Client key s =
     redis_result Client (\<lambda>c. SPop_cmd c key) s"

subsection \<open>Strings\<close>

definition StringSet :: "('s, 'v) client option \<Rightarrow> string \<Rightarrow> string \<Rightarrow> int \<Rightarrow> 's \<Rightarrow> ('s \<times> string option) go" where
  "StringSet Client key v expiration s =
     redis_err Client (\<lambda>c. Set_cmd c key v expiration) s"

definition StringGet :: "('s, 'v) client option \<Rightarrow> string \<Rightarrow> 's \<Rightarrow> ('s \<times> (string + string)) go" where
  "StringGet Client key s =
     redis_result Client (\<lambda>c. Get_cmd c key) s"

definition StringDel :: "('s, 'v) client option \<Rightarrow> string \<Rightarrow> 's \<Rightarrow> ('s \<times> string option) go" where
  "StringDel Client key s =
     redis_err Client (\<lambda>c. Del_cmd c [key]) s"

definition StringExpire :: "('s, 'v) client option \<Rightarrow> string \<Rightarrow> int \<Rightarrow> 's \<Rightarrow> ('s \<times> string option) go" where
  "StringExpire Client key expiration s =
     redis_err Client (\<lambda>c. Expire_cmd c key expiration) s"

definition StringExists :: "('s, 'v) client option \<Rightarrow> string \<Rightarrow> 's \<Rightarrow> ('s \<times> (string + bool)) go" where
  "StringExists Client key s =
     go_bind (redis_result Client (\<lambda>c. Exists_cmd c [key]) s)
       (\<lambda>(s1, r). Inr (s1, case r of Inl e \<Rightarrow> Inl e | Inr count \<Rightarrow> Inr (0 < sint count)))"

subsection \<open>Sorted sets\<close>

definition ZAdd :: "('s, 'v) client option \<Rightarrow> string \<Rightarrow> (f64 \<times> 'v) list \<Rightarrow> 's \<Rightarrow> ('s \<times> string option) go" where
  "ZAdd Client key members s =
     redis_err Client (\<lambda>c. ZAdd_cmd c key members) s"

definition ZRange :: "('s, 'v) client option \<Rightarrow> string \<Rightarrow> i64 \<Rightarrow> i64 \<Rightarrow> 's \<Rightarrow> ('s \<times> (string + string list)) go" where
  "ZRange Client key start stop s =
     redis_result Client (\<lambda>c. ZRange_cmd c key start stop) s"

definition ZRevRange :: "('s, 'v) client option \<Rightarrow> string \<Rightarrow> i64 \<Rightarrow> i64 \<Rightarrow> 's \<Rightarrow> ('s \<times> (string + string list)) go" where
  "ZRevRange Client key start stop s =
     redis_result Client (\<lambda>c. ZRevRange_cmd c key start stop) s"

definition ZRangeWithScores :: "('s, 'v) client option \<Rightarrow> string \<Rightarrow> i64 \<Rightarrow> i64 \<Rightarrow> 's \<Rightarrow> ('s \<times> (string + ((f64 \<times> string) list))) go" where
  "ZRangeWithScores Client key start stop s =
     redis_result Client (\<lambda>c. ZRangeWithScores_cmd c key start stop) s"

definition ZScore :: "('s, 'v) client option \<Rightarrow> string \<Rightarrow> string \<Rightarrow> 's \<Rightarrow> ('s \<times> (string + f64)) go" where
  "ZScore Client key member s =
     redis_result Client (\<lambda>c. ZScore_cmd c key member) s"

text \<open>The members are copied into a slice of \<open>interface{}\<close>; \<open>any\<close> is the conversion of a string to it.\<close>

definition ZRem :: "(string \<Rightarrow> 'v) \<Rightarrow> ('s, 'v) client option \<Rightarrow> string \<Rightarrow> (string list) \<Rightarrow> 's \<Rightarrow> ('s \<times> string option) go" where
  "ZRem any Client key members s =
     redis_err Client (\<lambda>c. ZRem_cmd c key (map any members)) s"

definition ZCard :: "('s, 'v) client option \<Rightarrow> string \<Rightarrow> 's \<Rightarrow> ('s \<times> (string + i64)) go" where
  "ZCard Client key s =
     redis_result Client (\<lambda>c. ZCard_cmd c key) s"

definition ZRank :: "('s, 'v) client option \<Rightarrow> string \<Rightarrow> string \<Rightarrow> 's \<Rightarrow> ('s \<times> (string + i64)) go" where
  "ZRank Client key member s =
     redis_result Client (\<lambda>c. ZRank_cmd c key member) s"

definition ZRevRank :: "('s, 'v) client option \<Rightarrow> string \<Rightarrow> string \<Rightarrow> 's \<Rightarrow> ('s \<times> (string + i64)) go" where
  "ZRevRank Client key member s =
     redis_result Client (\<lambda>c. ZRevRank_cmd c key member) s"

end
