(* ===== verification/Quickstart.thy ===== *)
theory Quickstart
  imports Env_Config Redis_Client
begin

text \<open>
  \<open>gobackendkit/examples/quickstart/main.go\<close>: the start of the example server and its four handlers. A
  response is its status, content type and body; \<open>'s\<close> is the state of the database and of Redis.
\<close>

datatype json = JBool bool | JInt int | JString string | JList "json list" | JObject "(string \<times> json) list"

record response =
  status :: nat
  content_type :: string
  body :: json

definition writeJSON :: "nat \<Rightarrow> (string \<times> json) list \<Rightarrow> response" where
  "writeJSON code entries = \<lparr>status = code, content_type = ''application/json; charset=utf-8'', body = JObject entries\<rparr>"

subsection \<open>Handlers\<close>

text \<open>
  \<open>ping\<close> is \<open>conn.Ping\<close>, \<open>one_row\<close> is \<open>QueryRow\<close> with \<open>Scan(&one)\<close>, and \<open>all_rows\<close> is \<open>Query\<close>: each row scans to its
  values or to an error, and the error of the iteration is at the end. \<open>clock\<close> is the formatted time.
\<close>

record 's backend =
  clock :: string
  ping :: "'s \<Rightarrow> 's \<times> string option"
  one_row :: "('s, unit, i64) driver"
  all_rows :: "('s, unit, (string + i64 \<times> string \<times> i64) list \<times> string option) driver"

definition running :: string where
  "running = ''quickstart '' @ [CHR 0xE8, CHR 0xBF, CHR 0x90, CHR 0xE8, CHR 0xA1, CHR 0x8C, CHR 0xE4, CHR 0xB8, CHR 0xAD]"

definition query_failed :: string where
  "query_failed =
     [CHR 0xE6, CHR 0x9F, CHR 0xA5, CHR 0xE8, CHR 0xAF, CHR 0xA2, CHR 0xE5, CHR 0xA4, CHR 0xB1, CHR 0xE8, CHR 0xB4,
     CHR 0xA5, CHR 0xEF, CHR 0xBC, CHR 0x88, CHR 0xE8, CHR 0xAF, CHR 0xB7, CHR 0xE5, CHR 0x85, CHR 0x88, CHR 0xE7,
     CHR 0x94, CHR 0xA8] @ '' excelddl '' @ [CHR 0xE5, CHR 0xBB, CHR 0xBA, CHR 0xE8, CHR 0xA1, CHR 0xA8] @ ''
     demo_items'' @ [CHR 0xEF, CHR 0xBC, CHR 0x89]"

definition health :: "'s backend \<Rightarrow> response" where
  "health b = writeJSON 200 [(''ok'', JBool True), (''message'', JString running), (''time'', JString (clock b))]"

definition db_fail :: "string \<Rightarrow> response" where
  "db_fail err = writeJSON 503 [(''ok'', JBool False), (''db'', JString ''fail''), (''error'', JString err)]"

definition ping_db :: "'s backend \<Rightarrow> database \<Rightarrow> 's \<Rightarrow> 's \<times> response" where
  "ping_db b conn s =
     (case ping b s of
        (s1, Some err) \<Rightarrow> (s1, db_fail err)
      | (s1, None) \<Rightarrow>
          (case db_call (one_row b) conn s1 ''SELECT 1'' [] of
             (s2, Inl err) \<Rightarrow> (s2, db_fail err)
           | (s2, Inr one) \<Rightarrow>
               (s2, writeJSON 200 [(''ok'', JBool True), (''db'', JString ''ok''), (''select'', JInt (sint one))])))"

definition redis_fail :: "string \<Rightarrow> response" where
  "redis_fail err = writeJSON 503 [(''ok'', JBool False), (''redis'', JString ''fail''), (''error'', JString err)]"

definition ping_key :: string where "ping_key = ''gobackendkit:quickstart:ping''"

definition ping_redis :: "('s, 'v) client option \<Rightarrow> 's \<Rightarrow> ('s \<times> response) go" where
  "ping_redis Client s =
     go_bind (StringSet Client ping_key ''1'' (30 * second) s) (\<lambda>(s1, err).
       case err of
         Some err \<Rightarrow> Inr (s1, redis_fail err)
       | None \<Rightarrow>
           go_bind (StringGet Client ping_key s1) (\<lambda>(s2, r).
             case r of
               Inl err \<Rightarrow> Inr (s2, redis_fail err)
             | Inr val \<Rightarrow> Inr (s2, writeJSON 200 [(''ok'', JBool True), (''redis'', JString ''ok''), (''value'', JString val)])))"

definition demo_query :: string where
  "demo_query = newline @ [CHR 0x09, CHR 0x09, CHR 0x09] @
     ''SELECT id, title, qty FROM demo_items WHERE is_delete = 0 ORDER BY id ASC''"

definition demo_item :: "i64 \<times> string \<times> i64 \<Rightarrow> json" where
  "demo_item r = (case r of (itemID, title, qty) \<Rightarrow>
     JObject [(''id'', JInt (sint itemID)), (''title'', JString title), (''qty'', JInt (sint qty))])"

text \<open>The loop over the rows ends with the list or with the first error.\<close>

fun demo_rows :: "(string + i64 \<times> string \<times> i64) list \<Rightarrow> json list \<Rightarrow> string + json list" where
  "demo_rows [] list = Inr list"
| "demo_rows (Inl err # rows) list = Inl err"
| "demo_rows (Inr r # rows) list = demo_rows rows (list @ [demo_item r])"

definition demo_items :: "'s backend \<Rightarrow> database \<Rightarrow> 's \<Rightarrow> 's \<times> response" where
  "demo_items b conn s =
     (case db_call (all_rows b) conn s demo_query [] of
        (s1, Inl err) \<Rightarrow>
          (s1, writeJSON 400 [(''ok'', JBool False), (''message'', JString query_failed), (''error'', JString err)])
      | (s1, Inr (rows, iteration_err)) \<Rightarrow>
          (s1, case demo_rows rows [] of
                 Inl err \<Rightarrow> writeJSON 500 [(''ok'', JBool False), (''error'', JString err)]
               | Inr list \<Rightarrow> writeJSON 200 [(''ok'', JBool True), (''data'', JList list), (''count'', JInt (int (length list)))]))"

subsection \<open>The server\<close>

text \<open>The paths of the multiplexer, which have no slash at the end and match only themselves.\<close>

definition serve :: "'s backend \<Rightarrow> database \<Rightarrow> ('s, 'v) client option \<Rightarrow> string \<Rightarrow> 's \<Rightarrow> ('s \<times> response) option go" where
  "serve b conn Client path s =
     (if path = ''/health'' then Inr (Some (s, health b))
      else if path = ''/ping/db'' then Inr (Some (ping_db b conn s))
      else if path = ''/ping/redis'' then go_bind (ping_redis Client s) (\<lambda>r. Inr (Some r))
      else if path = ''/demo/items'' then Inr (Some (demo_items b conn s))
      else Inr None)"

datatype start_error = ConfigFailed string | DbFailed db_error | RedisFailed string

text \<open>\<open>env\<close> is the value of \<open>QUICKSTART_ENV\<close>. The start ends the program with an error, or gives the settings of the
  kit, the connection, the client and the address to listen on.\<close>

definition quickstart_main ::
    "(string \<Rightarrow> string + string) \<Rightarrow> (string \<Rightarrow> bool) \<Rightarrow> (string \<Rightarrow> bool) \<Rightarrow> (redis_options \<Rightarrow> ('s, 'v) client) \<Rightarrow>
       string \<Rightarrow> kit_state \<Rightarrow> 's \<Rightarrow> 's \<times> (start_error + kit_state \<times> database \<times> ('s, 'v) client option \<times> string)" where
  "quickstart_main ReadFile opens pings NewClient env k s =
     (let envPath = (if env \<noteq> [] then env else ''conf/env'')
      in case loadConfig ReadFile envPath of
           (c, Some err) \<Rightarrow> (s, Inl (ConfigFailed err))
         | (c, None) \<Rightarrow>
             (let k1 = SetDBType (qs_type c) k
              in case NewDB opens pings (qs_type c) (qs_db c) of
                   Inl err \<Rightarrow> (s, Inl (DbFailed err))
                 | Inr conn \<Rightarrow>
                     (case InitRedis NewClient (redisAddr c) (redisPass c) (redisDB c) s of
                        (Client, s1, Some err) \<Rightarrow> (s1, Inl (RedisFailed err))
                      | (Client, s1, None) \<Rightarrow> (s1, Inr (k1, conn, Client, httpAddr c)))))"

subsection \<open>The list of items\<close>

lemma demo_rows_spec:
  "demo_rows rows list =
    (case filter isl rows of [] \<Rightarrow> Inr (list @ map (\<lambda>r. demo_item (projr r)) rows) | r # _ \<Rightarrow> Inl (projl r))"
  by (induction rows list rule: demo_rows.induct) (auto split: list.split)


subsection \<open>After the start\<close>

lemma NewDB_type: "NewDB opens pings dbType c = Inr conn \<Longrightarrow> db_GetDBType conn = dbType"
  by (auto simp: NewDB_def newPostgresDB_def newMSSQLDB_def split: if_splits)


text \<open>A backend that answers, and a Redis that knows no command but the ping.\<close>

definition ex_backend :: "unit backend" where
  "ex_backend = \<lparr>clock = ''now'', ping = \<lambda>s. (s, None), one_row = \<lambda>s q args. (s, Inr 1), all_rows = \<lambda>s q args. (s, Inr ([], None))\<rparr>"

definition ex_client :: "(unit, unit) client" where
  "ex_client =
     \<lparr>Ping_cmd = \<lambda>s. (s, Inr ''PONG''), Close_cmd = \<lambda>s. (s, Inl ''unknown command''),
      HSet_cmd = \<lambda>_ _ _ s. (s, Inl ''unknown command''), HMSet_cmd = \<lambda>_ _ s. (s, Inl ''unknown command''),
      HGet_cmd = \<lambda>_ _ s. (s, Inl ''unknown command''), HGetAll_cmd = \<lambda>_ s. (s, Inl ''unknown command''),
      HDel_cmd = \<lambda>_ _ s. (s, Inl ''unknown command''), HExists_cmd = \<lambda>_ _ s. (s, Inl ''unknown command''),
      LPush_cmd = \<lambda>_ _ s. (s, Inl ''unknown command''), RPush_cmd = \<lambda>_ _ s. (s, Inl ''unknown command''),
      LPop_cmd = \<lambda>_ s. (s, Inl ''unknown command''), RPop_cmd = \<lambda>_ s. (s, Inl ''unknown command''),
      LRange_cmd = \<lambda>_ _ _ s. (s, Inl ''unknown command''), LLen_cmd = \<lambda>_ s. (s, Inl ''unknown command''),
      Del_cmd = \<lambda>_ s. (s, Inl ''unknown command''), SAdd_cmd = \<lambda>_ _ s. (s, Inl ''unknown command''),
      SMembers_cmd = \<lambda>_ s. (s, Inl ''unknown command''), SIsMember_cmd = \<lambda>_ _ s. (s, Inl ''unknown command''),
      SRem_cmd = \<lambda>_ _ s. (s, Inl ''unknown command''), SCard_cmd = \<lambda>_ s. (s, Inl ''unknown command''),
      SPop_cmd = \<lambda>_ s. (s, Inl ''unknown command''), Set_cmd = \<lambda>_ _ _ s. (s, Inl ''unknown command''),
      Get_cmd = \<lambda>_ s. (s, Inl ''unknown command''), Expire_cmd = \<lambda>_ _ s. (s, Inl ''unknown command''),
      Exists_cmd = \<lambda>_ s. (s, Inl ''unknown command''), ZAdd_cmd = \<lambda>_ _ s. (s, Inl ''unknown command''),
      ZRange_cmd = \<lambda>_ _ _ s. (s, Inl ''unknown command''), ZRevRange_cmd = \<lambda>_ _ _ s. (s, Inl ''unknown command''),
      ZRangeWithScores_cmd = \<lambda>_ _ _ s. (s, Inl ''unknown command''), ZScore_cmd = \<lambda>_ _ s. (s, Inl ''unknown command''),
      ZRem_cmd = \<lambda>_ _ s. (s, Inl ''unknown command''), ZCard_cmd = \<lambda>_ s. (s, Inl ''unknown command''),
      ZRank_cmd = \<lambda>_ _ s. (s, Inl ''unknown command''), ZRevRank_cmd = \<lambda>_ _ s. (s, Inl ''unknown command'')\<rparr>"


end
