(* ===== verification/Spec2Isabelle.thy ===== *)
theory Spec2Isabelle
  imports Data_Point Simple_Point Encoder Day_File Engine_End Maintenance_Facts Tiering Tcp_Protocol Shutdown
    Dialect_Facts Excel_Facts Db_Facts Auth Redis_Facts Cmd_Facts Sample_Facts Quickstart
begin

text \<open>
  A model of the two Go programs of this repository and the theorems that make them correct. Every
  definition is a translation of Go code under \<open>src/\<close>; this theory only gathers the others.

  The programs.

  \<open>tffiles\<close> is a time series store. A client sends framed requests over TCP; the server hands batches of
  points to the storage engine, which groups them by day and gives each group to the writer of that
  device and day. A writer collects points in a buffer and appends compressed blocks with a checksum
  to the data file and one entry per block to the index file. A query visits the day files of its
  range, in the hot and in the cold tier, and reads the blocks its index points to. Background jobs
  remove expired files and move cold ones.

  \<open>gobackendkit\<close> is a kit for web back ends: SQL dialects with a renderer from T-SQL to PostgreSQL, a
  generator of tables from Excel sheets, a database layer over two drivers, an authentication
  middleware, a Redis layer with a table cache, the command \<open>excelddl\<close> and the example \<open>quickstart\<close>.

  How the model reads the code.

  Go values: fixed-width integers are words, floats the words of their bits, an \<open>int\<close> that is a length a
  natural number, strings lists of bytes (UTF-8 where they are not ASCII). A run-time panic is \<open>Inl\<close> of
  a \<open>panic\<close>, an \<open>error\<close> result an ordinary value. State is passed explicitly: the disk and the handles
  (\<open>File_System\<close>), the records of writer, storage, server, the package variables of the kit. Loops
  are structural recursions or functions with a measure, so they return; the loop over a Redis scan,
  which ends when the server says so, is a partial function whose value \<open>None\<close> is not returning, and is
  proved to return against a server that keeps Redis's promises. No
  definition uses fuel: the matcher of regular expressions repeats only what has consumed something,
  so the rest of the text is its measure.

  The theories of \<open>tffiles\<close>.

  \<open>Prelude\<close>, \<open>Endian\<close>, \<open>Soft_Float\<close>, \<open>Crc32\<close>: bytes, panics and slices; byte orders; binary64
  arithmetic on bits; the checksum. \<open>Data_Point\<close> (\<open>datapoint.go\<close>), \<open>Simple_Point\<close>
  (\<open>simple_datapoint.go\<close>), \<open>Encoder\<close> (\<open>encoder.go\<close>), \<open>Index_File\<close> (the entries of the index): codecs, each
  behind the locale of its interface, with round trips and their limits.
  \<open>Day_Writer\<close> (\<open>writer.go\<close>): the writer as a step relation between clients and the goroutine that flushes, its
  invariant, and the refinement to the log of its points. \<open>Day_Reader\<close> (\<open>reader.go\<close>): full scan, binary search,
  query by index. \<open>Day_File\<close>: both together.
  \<open>Calendar\<close>, \<open>Paths\<close>, \<open>Storage\<close>, \<open>Maintenance\<close> (\<open>storage.go\<close>): days, file paths, schemas, writers, batches, queries,
  and the jobs. \<open>Engine\<close>, \<open>Engine_Files\<close>, \<open>Engine_Run\<close>, \<open>Engine_End\<close>: the invariant between disk, writers and
  logs, and the end-to-end property. \<open>Maintenance_Facts\<close>, \<open>Tiering\<close>: what the jobs keep and lose.
  \<open>Tcp_Server\<close>, \<open>Tcp_Facts\<close>, \<open>Tcp_Protocol\<close> (\<open>tcp_server.go\<close>): framing, both requests, the loop of a connection,
  counters. \<open>Main_Program\<close>, \<open>Shutdown\<close> (\<open>main.go\<close>): start, end, and that a shutdown is a flush of everything.

  The theories of \<open>gobackendkit\<close>.

  \<open>Decimal\<close>, \<open>Go_Strings\<close>, \<open>Parse_Float\<close>: what the code uses of \<open>strconv\<close> and \<open>strings\<close>. \<open>Go_Regexp\<close>: regular
  expressions as a datatype with a matcher that prefers as Go's does. \<open>Regexp_Facts\<close>: what a match needs, and
  replacing numbered markers. \<open>Postgres_Render\<close> (\<open>dialect/postgres_render.go\<close>), \<open>Dialect\<close> (\<open>dialect.go\<close>,
  \<open>kind.go\<close>, \<open>schema.go\<close>): the renderer step by step, the two dialects behind one locale. \<open>Dialect_Facts\<close>: what is rendered
  and what is left alone, and the bounds of the package's own number formatting.
  \<open>Excel_Ddl\<close>, \<open>Excel_Facts\<close>, \<open>Excel_Sample\<close>, \<open>Sample_Facts\<close> (\<open>schema/excelddl\<close>): reading sheets, CREATE TABLE, defaults,
  the sample workbook; audit columns as an invariant, types that always have a statement, literals, and
  that the sample is read back.
  \<open>Db\<close>, \<open>Db_Facts\<close> (\<open>db\<close>): kinds, connection strings, what reaches a driver. \<open>Auth\<close> (\<open>auth\<close>): tokens, the middleware, and who
  gets through. \<open>Redis_Client\<close>, \<open>Redis_Cache\<close>, \<open>Redis_Facts\<close> (\<open>redis\<close>): the commands, the cache keys, and clearing.
  \<open>Env_Config\<close>, \<open>Cmd_Excelddl\<close>, \<open>Cmd_Facts\<close> (\<open>cmd/excelddl/main.go\<close>), \<open>Quickstart\<close> (\<open>examples/quickstart/main.go\<close>): the
  configuration files, the command as a whole over a database, the example server.

  Parameters.

  Code that is not in the repository is an argument: zstd compression, the time zone and the clock, the
  order of map iteration and of goroutines, the outcome of opening and writing files, the workbook
  library, the database drivers, the Redis client, the authenticator. What a theorem needs of them is
  a named hypothesis that states their documented behaviour (for instance \<open>redis_contract\<close>,
  \<open>excelize_contract\<close>, \<open>creates_tables\<close>), and its witness has a concrete instance.

  Not modelled.

  Log lines and printed messages other than statements, deadlines and keep-alive of connections, the two
  ticker loops (they repeat the modelled jobs), concurrent access from several connections to one
  engine beyond the interleavings of writer and flush, the encoding of JSON as text (bodies are
  values), HTTP itself below the handler, and the wrappers around result types of the drivers, which
  only delegate. Expiry of Redis keys is the server's. The tests are not part of the model.
\<close>

end
